(* ===== verification/Prelude.thy ===== *)
theory Prelude
  imports Complex_Main "HOL-Library.Word" "HOL-Library.AList" "HOL-Library.List_Lexorder"
    "HOL-Library.Char_ord" "HOL-Library.Product_Lexorder"
begin

text \<open>
  Shared vocabulary of the development: identifiers and time, the JSON values of
  \<^verbatim>\<open>engine/runtime/serialization.py\<close>, Python dictionaries as association lists, the result
  type \<open>'e + 'a\<close> in which every \<^verbatim>\<open>raise\<close> is an \<open>Inl\<close>, and generic lemmas on lists and
  results that the component theories use through the collections declared here.
\<close>

named_theorems res_simps \<open>success and failure of sequenced computations\<close>
named_theorems table_simps \<open>effect of the SQL statements on the tables\<close>

section \<open>Identifiers and time\<close>

text \<open>
  A \<^verbatim>\<open>uuid.UUID\<close> is a 128-bit number. Timestamps (\<^verbatim>\<open>timestamptz\<close>, aware \<^verbatim>\<open>datetime\<close>)
  count microseconds since the epoch and intervals (\<^verbatim>\<open>timedelta\<close>, SQL \<^verbatim>\<open>interval\<close>) count
  microseconds; both are unbounded integers here.
\<close>

type_synonym uuid = "128 word"
type_synonym timestamp = int
type_synonym interval = int

definition hex_digit :: "int \<Rightarrow> char" where
  "hex_digit n = (if n < 10 then char_of (48 + n) else char_of (87 + n))"

definition uuid_nibble :: "uuid \<Rightarrow> nat \<Rightarrow> int" where
  "uuid_nibble u i = uint u div 16 ^ i mod 16"

definition uuid_hex :: "uuid \<Rightarrow> nat \<Rightarrow> nat \<Rightarrow> string" where
  "uuid_hex u hi n = map (\<lambda>j. hex_digit (uuid_nibble u (hi - j))) [0..<n]"

text \<open>\<^verbatim>\<open>str(uuid)\<close>: five groups of lower-case hexadecimal digits.\<close>

definition uuid_str :: "uuid \<Rightarrow> string" where
  "uuid_str u = uuid_hex u 31 8 @ ''-'' @ uuid_hex u 23 4 @ ''-'' @ uuid_hex u 19 4
     @ ''-'' @ uuid_hex u 15 4 @ ''-'' @ uuid_hex u 11 12"

section \<open>JSON values and dictionaries\<close>

text \<open>
  \<^verbatim>\<open>JSONValue\<close> of \<^verbatim>\<open>engine/runtime/serialization.py\<close>. A float is the rational it denotes
  (canonical JSON admits no NaN or infinity). A dictionary is an association list; it is read
  with \<open>map_of\<close>, so only lookups, never the order, decide a result.
\<close>

datatype json =
    JNull
  | JBool bool
  | JInt int
  | JFloat rat
  | JStr string
  | JArr "json list"
  | JObj "(string \<times> json) list"

type_synonym dict = "(string \<times> json) list"

text \<open>\<^verbatim>\<open>d.get(k)\<close> and \<^verbatim>\<open>d.get(k, default)\<close>.\<close>

definition dget :: "dict \<Rightarrow> string \<Rightarrow> json" where
  "dget d k = (case map_of d k of None \<Rightarrow> JNull | Some v \<Rightarrow> v)"

definition dget_or :: "dict \<Rightarrow> string \<Rightarrow> json \<Rightarrow> json" where
  "dget_or d k dflt = (case map_of d k of None \<Rightarrow> dflt | Some v \<Rightarrow> v)"

text \<open>\<^verbatim>\<open>{**a, **b}\<close> and \<^verbatim>\<open>d.pop(k, None)\<close>.\<close>

definition dict_merge :: "dict \<Rightarrow> dict \<Rightarrow> dict" where
  "dict_merge a b = fold (\<lambda>(k, v) d. AList.update k v d) b a"

definition dict_pop :: "string \<Rightarrow> dict \<Rightarrow> dict" where
  "dict_pop k d = AList.delete k d"

text \<open>Python truth value of a JSON value.\<close>

fun truthy :: "json \<Rightarrow> bool" where
  "truthy JNull = False"
| "truthy (JBool b) = b"
| "truthy (JInt n) = (n \<noteq> 0)"
| "truthy (JFloat q) = (q \<noteq> 0)"
| "truthy (JStr s) = (s \<noteq> [])"
| "truthy (JArr xs) = (xs \<noteq> [])"
| "truthy (JObj d) = (d \<noteq> [])"

fun opt_json :: "('a \<Rightarrow> json) \<Rightarrow> 'a option \<Rightarrow> json" where
  "opt_json f None = JNull"
| "opt_json f (Some x) = f x"

section \<open>Results\<close>

definition bindR :: "'e + 'a \<Rightarrow> ('a \<Rightarrow> 'e + 'b) \<Rightarrow> 'e + 'b" where
  "bindR m f = (case m of Inl e \<Rightarrow> Inl e | Inr x \<Rightarrow> f x)"

lemma bindR_simps [simp]:
  "bindR (Inl e) f = Inl e"
  "bindR (Inr x) f = f x"
  by (simp_all add: bindR_def)

lemma bindR_Inr_iff [res_simps]:
  "bindR m f = Inr y \<longleftrightarrow> (\<exists>x. m = Inr x \<and> f x = Inr y)"
  by (cases m) auto

lemma bindR_cong [fundef_cong]:
  "m = m' \<Longrightarrow> (\<And>x. m' = Inr x \<Longrightarrow> f x = f' x) \<Longrightarrow> bindR m f = bindR m' f'"
  by (cases m') auto

lemma if_Inl_Inr_iff [res_simps]:
  "(if b then Inl e else r) = Inr y \<longleftrightarrow> \<not> b \<and> r = Inr y"
  "(if b then r else Inl e) = Inr y \<longleftrightarrow> b \<and> r = Inr y"
  by auto

lemma case_option_Inl_iff [res_simps]:
  "(case x of None \<Rightarrow> Inl e | Some v \<Rightarrow> f v) = Inr y \<longleftrightarrow> (\<exists>v. x = Some v \<and> f v = Inr y)"
  by (cases x) auto

text \<open>A loop whose body may raise.\<close>

fun foldR :: "('x \<Rightarrow> 's \<Rightarrow> 'e + 's) \<Rightarrow> 'x list \<Rightarrow> 's \<Rightarrow> 'e + 's" where
  "foldR f [] s = Inr s"
| "foldR f (x # xs) s = bindR (f x s) (foldR f xs)"

lemma foldR_append: "foldR f (xs @ ys) s = bindR (foldR f xs s) (foldR f ys)"
  by (induction xs arbitrary: s) (auto simp: bindR_def split: sum.splits)

lemma foldR_invariant:
  assumes "foldR f xs s = Inr t" and "P s"
    and "\<And>x s t. x \<in> set xs \<Longrightarrow> P s \<Longrightarrow> f x s = Inr t \<Longrightarrow> P t"
  shows "P t"
  using assms
proof (induction xs arbitrary: s)
  case Nil
  then show ?case by simp
next
  case (Cons x xs)
  then obtain u where "f x s = Inr u" and "foldR f xs u = Inr t"
    by (auto simp: res_simps)
  with Cons.prems(2,3) Cons.IH[of u] show ?case by auto
qed

section \<open>Lists\<close>

text \<open>\<^verbatim>\<open>select ... where ... order by ... limit n\<close>, and the same with \<^verbatim>\<open>limit 1\<close>.\<close>

definition select_limit :: "int \<Rightarrow> ('a \<Rightarrow> bool) \<Rightarrow> ('a \<Rightarrow> 'k::linorder) \<Rightarrow> 'a list \<Rightarrow> 'a list" where
  "select_limit n p key xs = take (nat n) (sort_key key (filter p xs))"

definition select_first :: "('a \<Rightarrow> bool) \<Rightarrow> ('a \<Rightarrow> 'k::linorder) \<Rightarrow> 'a list \<Rightarrow> 'a option" where
  "select_first p key xs =
     (case sort_key key (filter p xs) of [] \<Rightarrow> None | x # _ \<Rightarrow> Some x)"

lemma select_first_Some:
  assumes "select_first p key xs = Some x"
  shows "x \<in> set xs" and "p x" and "\<And>y. y \<in> set xs \<Longrightarrow> p y \<Longrightarrow> key x \<le> key y"
proof -
  let ?ys = "sort_key key (filter p xs)"
  obtain zs where ys: "?ys = x # zs"
    using assms by (auto simp: select_first_def split: list.splits)
  have set: "set ?ys = {y \<in> set xs. p y}" by simp
  show "x \<in> set xs" and "p x" using set ys by auto
  have "sorted (map key ?ys)" by simp
  then show "key x \<le> key y" if "y \<in> set xs" "p y" for y
    using ys set that by (auto simp: set_eq_iff)
qed

lemma select_first_None: "select_first p key xs = None \<longleftrightarrow> (\<forall>x\<in>set xs. \<not> p x)"
proof -
  have "select_first p key xs = None \<longleftrightarrow> sort_key key (filter p xs) = []"
    by (auto simp: select_first_def split: list.splits)
  also have "\<dots> \<longleftrightarrow> set (sort_key key (filter p xs)) = {}" by (simp only: set_empty)
  finally show ?thesis by auto
qed

lemma set_select_limit: "set (select_limit n p key xs) \<subseteq> {x \<in> set xs. p x}"
  using set_take_subset[of "nat n" "sort_key key (filter p xs)"] by (auto simp: select_limit_def)

lemma filter_update_where:
  "filter p (map (\<lambda>r. if q r then f r else r) xs) =
    map (\<lambda>r. if q r then f r else r) (filter (\<lambda>r. p (if q r then f r else r)) xs)"
  by (induction xs) auto

lemma upto_snoc: "1 \<le> (n::int) \<Longrightarrow> [1..n - 1] @ [n] = [1..n]"
  by (simp add: upto_rec2)

lemma upto_snoc_iff:
  assumes "1 \<le> n"
  shows "xs @ [m] = [1..n] \<longleftrightarrow> xs = [1..n - 1] \<and> m = (n::int)"
  using upto_snoc[OF assms] by (metis append1_eq_conv)

end
