(* ===== verification/History.thy ===== *)
theory History
  imports Prelude
begin

text \<open>
  \<^verbatim>\<open>engine/runtime/history.py\<close>: typed history events and the replay index. \<open>HistoryIndex\<close> is
  the constructor of the class of that name: a fold over the events whose body
  (\<open>index_event\<close>) is the sequence of checks of the loop, each its own definition, in source
  order. The theory proves that the constructor accepts exactly the histories of a declarative
  well-formedness predicate, and that the index of a prefix is below the index of the whole.
\<close>

section \<open>Events\<close>

datatype event_type =
    WorkflowExecutionStarted
  | ActivityScheduled
  | ActivityStarted
  | ActivityCompleted
  | ActivityFailed
  | ActivityTimedOut
  | TimerStarted
  | TimerFired
  | TimerCanceled
  | MarkerRecorded
  | SignalReceived
  | ChildWorkflowStarted
  | ChildWorkflowCompleted
  | ChildWorkflowFailed
  | ChildWorkflowTerminated
  | WorkflowUpdateReceived
  | WorkflowUpdateResolved
  | WorkflowCancellationRequested
  | WorkflowExecutionPaused
  | WorkflowExecutionResumed
  | WorkflowExecutionContinuedAsNew
  | WorkflowExecutionCompleted
  | WorkflowExecutionFailed
  | WorkflowExecutionTerminated

definition SCHEDULE_EVENT_TYPES :: "event_type list" where
  "SCHEDULE_EVENT_TYPES =
     [ActivityScheduled, TimerStarted, MarkerRecorded, ChildWorkflowStarted,
      WorkflowUpdateResolved, WorkflowExecutionContinuedAsNew]"

definition ACTIVITY_TERMINAL_EVENT_TYPES :: "event_type list" where
  "ACTIVITY_TERMINAL_EVENT_TYPES = [ActivityCompleted, ActivityFailed, ActivityTimedOut]"

definition TIMER_TERMINAL_EVENT_TYPES :: "event_type list" where
  "TIMER_TERMINAL_EVENT_TYPES = [TimerFired, TimerCanceled]"

definition CHILD_TERMINAL_EVENT_TYPES :: "event_type list" where
  "CHILD_TERMINAL_EVENT_TYPES =
     [ChildWorkflowCompleted, ChildWorkflowFailed, ChildWorkflowTerminated]"

definition WORKFLOW_TERMINAL_EVENT_TYPES :: "event_type list" where
  "WORKFLOW_TERMINAL_EVENT_TYPES =
     [WorkflowExecutionCompleted, WorkflowExecutionFailed, WorkflowExecutionTerminated]"

text \<open>The event types whose schedule event must name an entity (the set in the loop body).\<close>

definition ENTITY_EVENT_TYPES :: "event_type list" where
  "ENTITY_EVENT_TYPES =
     [ActivityScheduled, TimerStarted, ChildWorkflowStarted, WorkflowExecutionContinuedAsNew]"

lemmas event_type_defs =
  SCHEDULE_EVENT_TYPES_def ACTIVITY_TERMINAL_EVENT_TYPES_def TIMER_TERMINAL_EVENT_TYPES_def
  CHILD_TERMINAL_EVENT_TYPES_def WORKFLOW_TERMINAL_EVENT_TYPES_def ENTITY_EVENT_TYPES_def

record history_event =
  ev_seq :: int
  ev_type :: event_type
  ev_attributes :: dict
  ev_command_id :: "int option"
  ev_entity_id :: "uuid option"
  ev_external_id :: "string option"

text \<open>The messages of \<^verbatim>\<open>InvalidHistoryError\<close>, one constructor per \<^verbatim>\<open>raise\<close>.\<close>

datatype invalid_history =
    MustBeginWithStarted
  | NotContiguous int int
  | AfterTerminal event_type event_type
  | StartedMoreThanOnce
  | LacksCommandIdentity event_type int
  | LacksEntityIdentity event_type int
  | CommandScheduledTwice int
  | EntityScheduledTwice uuid
  | MultipleTerminalEvents uuid
  | NoPriorSchedule event_type uuid
  | SignalWithoutName int
  | SignalWithoutExternalId int
  | UpdateWithoutName int
  | UpdateWithoutId int
  | CancellationTwice

section \<open>The index\<close>

text \<open>
  \<open>hi_scheduled\<close> is the \<^verbatim>\<open>scheduled\<close> dictionary in insertion order; \<open>hi_previous_seq\<close> is the
  loop variable \<^verbatim>\<open>previous_seq\<close>.
\<close>

record history_index =
  hi_events :: "history_event list"
  hi_scheduled :: "(int \<times> history_event) list"
  hi_scheduled_entities :: "uuid \<rightharpoonup> history_event"
  hi_activity_terminal :: "uuid \<rightharpoonup> history_event"
  hi_timer_terminal :: "uuid \<rightharpoonup> history_event"
  hi_child_terminal :: "uuid \<rightharpoonup> history_event"
  hi_signals :: "history_event list"
  hi_updates :: "history_event list"
  hi_cancellation_requested :: "history_event option"
  hi_workflow_terminal :: "history_event option"
  hi_previous_seq :: int

definition empty_index :: "history_event list \<Rightarrow> history_index" where
  "empty_index events =
     \<lparr>hi_events = events, hi_scheduled = [], hi_scheduled_entities = Map.empty,
      hi_activity_terminal = Map.empty, hi_timer_terminal = Map.empty,
      hi_child_terminal = Map.empty, hi_signals = [], hi_updates = [],
      hi_cancellation_requested = None, hi_workflow_terminal = None, hi_previous_seq = 0\<rparr>"

type_synonym 'a hres = "invalid_history + 'a"

definition check_sequence :: "history_event \<Rightarrow> history_index \<Rightarrow> history_index hres" where
  "check_sequence ev ix =
     (if ev_seq ev \<noteq> hi_previous_seq ix + 1
      then Inl (NotContiguous (hi_previous_seq ix + 1) (ev_seq ev))
      else
        (let ix = ix\<lparr>hi_previous_seq := ev_seq ev\<rparr> in
         case hi_workflow_terminal ix of
           Some t \<Rightarrow> Inl (AfterTerminal (ev_type ev) (ev_type t))
         | None \<Rightarrow>
             if ev_type ev = WorkflowExecutionStarted \<and> ev_seq ev \<noteq> 1
             then Inl StartedMoreThanOnce
             else Inr ix))"

definition index_schedule :: "history_event \<Rightarrow> history_index \<Rightarrow> history_index hres" where
  "index_schedule ev ix =
     (if ev_type ev \<notin> set SCHEDULE_EVENT_TYPES then Inr ix
      else
        case ev_command_id ev of
          None \<Rightarrow> Inl (LacksCommandIdentity (ev_type ev) (ev_seq ev))
        | Some c \<Rightarrow>
            if ev_type ev \<in> set ENTITY_EVENT_TYPES \<and> ev_entity_id ev = None
            then Inl (LacksEntityIdentity (ev_type ev) (ev_seq ev))
            else if map_of (hi_scheduled ix) c \<noteq> None then Inl (CommandScheduledTwice c)
            else
              (let ix = ix\<lparr>hi_scheduled := hi_scheduled ix @ [(c, ev)]\<rparr> in
               case ev_entity_id ev of
                 None \<Rightarrow> Inr ix
               | Some e \<Rightarrow>
                   if hi_scheduled_entities ix e \<noteq> None then Inl (EntityScheduledTwice e)
                   else Inr (ix\<lparr>hi_scheduled_entities := (hi_scheduled_entities ix)(e \<mapsto> ev)\<rparr>)))"

text \<open>\<^verbatim>\<open>scheduled is None or scheduled.event_type != ...\<close> guards the three terminal kinds.\<close>

definition scheduled_as :: "event_type \<Rightarrow> uuid \<Rightarrow> history_index \<Rightarrow> bool" where
  "scheduled_as t e ix =
     (case hi_scheduled_entities ix e of None \<Rightarrow> False | Some s \<Rightarrow> ev_type s = t)"

text \<open>
  \<^verbatim>\<open>event.event_type == "ActivityCompleted" or event.attributes.get("final", True)\<close>: a failed
  or timed-out attempt closes the activity only when it is final.
\<close>

definition activity_closing :: "history_event \<Rightarrow> bool" where
  "activity_closing ev \<longleftrightarrow>
     ev_type ev = ActivityCompleted
     \<or> truthy (dget_or (ev_attributes ev) ''final'' (JBool True))"

definition index_activity_terminal :: "history_event \<Rightarrow> history_index \<Rightarrow> history_index hres" where
  "index_activity_terminal ev ix =
     (if ev_type ev \<notin> set ACTIVITY_TERMINAL_EVENT_TYPES then Inr ix
      else
        case ev_entity_id ev of
          None \<Rightarrow> Inl (LacksEntityIdentity (ev_type ev) (ev_seq ev))
        | Some e \<Rightarrow>
            if hi_activity_terminal ix e \<noteq> None then Inl (MultipleTerminalEvents e)
            else if \<not> scheduled_as ActivityScheduled e ix
            then Inl (NoPriorSchedule (ev_type ev) e)
            else if activity_closing ev
            then Inr (ix\<lparr>hi_activity_terminal := (hi_activity_terminal ix)(e \<mapsto> ev)\<rparr>)
            else Inr ix)"

definition index_timer_terminal :: "history_event \<Rightarrow> history_index \<Rightarrow> history_index hres" where
  "index_timer_terminal ev ix =
     (if ev_type ev \<notin> set TIMER_TERMINAL_EVENT_TYPES then Inr ix
      else
        case ev_entity_id ev of
          None \<Rightarrow> Inl (LacksEntityIdentity (ev_type ev) (ev_seq ev))
        | Some e \<Rightarrow>
            if \<not> scheduled_as TimerStarted e ix then Inl (NoPriorSchedule (ev_type ev) e)
            else if hi_timer_terminal ix e \<noteq> None then Inl (MultipleTerminalEvents e)
            else Inr (ix\<lparr>hi_timer_terminal := (hi_timer_terminal ix)(e \<mapsto> ev)\<rparr>))"

definition index_child_terminal :: "history_event \<Rightarrow> history_index \<Rightarrow> history_index hres" where
  "index_child_terminal ev ix =
     (if ev_type ev \<notin> set CHILD_TERMINAL_EVENT_TYPES then Inr ix
      else
        case ev_entity_id ev of
          None \<Rightarrow> Inl (LacksEntityIdentity (ev_type ev) (ev_seq ev))
        | Some e \<Rightarrow>
            if \<not> scheduled_as ChildWorkflowStarted e ix then Inl (NoPriorSchedule (ev_type ev) e)
            else if hi_child_terminal ix e \<noteq> None then Inl (MultipleTerminalEvents e)
            else Inr (ix\<lparr>hi_child_terminal := (hi_child_terminal ix)(e \<mapsto> ev)\<rparr>))"

text \<open>\<^verbatim>\<open>not isinstance(x, str) or not x\<close> is the negation of this test.\<close>

fun nonempty_str :: "json \<Rightarrow> bool" where
  "nonempty_str (JStr s) = (s \<noteq> [])"
| "nonempty_str _ = False"

definition index_signal :: "history_event \<Rightarrow> history_index \<Rightarrow> history_index hres" where
  "index_signal ev ix =
     (if ev_type ev \<noteq> SignalReceived then Inr ix
      else if \<not> nonempty_str (dget (ev_attributes ev) ''name'')
      then Inl (SignalWithoutName (ev_seq ev))
      else if ev_external_id ev = None then Inl (SignalWithoutExternalId (ev_seq ev))
      else Inr (ix\<lparr>hi_signals := hi_signals ix @ [ev]\<rparr>))"

definition index_update :: "history_event \<Rightarrow> history_index \<Rightarrow> history_index hres" where
  "index_update ev ix =
     (if ev_type ev \<noteq> WorkflowUpdateReceived then Inr ix
      else if \<not> nonempty_str (dget (ev_attributes ev) ''name'')
      then Inl (UpdateWithoutName (ev_seq ev))
      else if \<not> nonempty_str (dget (ev_attributes ev) ''update_id'')
      then Inl (UpdateWithoutId (ev_seq ev))
      else Inr (ix\<lparr>hi_updates := hi_updates ix @ [ev]\<rparr>))"

definition index_cancellation :: "history_event \<Rightarrow> history_index \<Rightarrow> history_index hres" where
  "index_cancellation ev ix =
     (if ev_type ev \<noteq> WorkflowCancellationRequested then Inr ix
      else if hi_cancellation_requested ix \<noteq> None then Inl CancellationTwice
      else Inr (ix\<lparr>hi_cancellation_requested := Some ev\<rparr>))"

definition index_workflow_terminal :: "history_event \<Rightarrow> history_index \<Rightarrow> history_index hres" where
  "index_workflow_terminal ev ix =
     (if ev_type ev \<in> set WORKFLOW_TERMINAL_EVENT_TYPES
      then Inr (ix\<lparr>hi_workflow_terminal := Some ev\<rparr>) else Inr ix)"

text \<open>The body of the constructor's loop.\<close>

definition index_event :: "history_event \<Rightarrow> history_index \<Rightarrow> history_index hres" where
  "index_event ev ix =
     bindR (check_sequence ev ix) (\<lambda>ix.
     bindR (index_schedule ev ix) (\<lambda>ix.
     bindR (index_activity_terminal ev ix) (\<lambda>ix.
     bindR (index_timer_terminal ev ix) (\<lambda>ix.
     bindR (index_child_terminal ev ix) (\<lambda>ix.
     bindR (index_signal ev ix) (\<lambda>ix.
     bindR (index_update ev ix) (\<lambda>ix.
     bindR (index_cancellation ev ix) (\<lambda>ix.
     index_workflow_terminal ev ix))))))))"

definition HistoryIndex :: "history_event list \<Rightarrow> history_index hres" where
  "HistoryIndex events =
     (if events = [] \<or> ev_type (hd events) \<noteq> WorkflowExecutionStarted
      then Inl MustBeginWithStarted
      else foldR index_event events (empty_index events))"

text \<open>
  \<^verbatim>\<open>min(remaining, key=command_id, default=None)\<close> over the recorded commands that replay has not
  reached: the first of the least.
\<close>

fun min_by_command :: "(int \<times> history_event) list \<Rightarrow> history_event option" where
  "min_by_command [] = None"
| "min_by_command (x # xs) =
     (case min_by_command xs of
        None \<Rightarrow> Some (snd x)
      | Some m \<Rightarrow>
          if (case ev_command_id (snd x) of None \<Rightarrow> 0 | Some c \<Rightarrow> c)
             \<le> (case ev_command_id m of None \<Rightarrow> 0 | Some c \<Rightarrow> c)
          then Some (snd x) else Some m)"

definition first_unvisited_command :: "history_index \<Rightarrow> int \<Rightarrow> history_event option" where
  "first_unvisited_command ix next_command_id =
     min_by_command (filter (\<lambda>(c, ev). next_command_id \<le> c) (hi_scheduled ix))"


section \<open>A reference definition of the index\<close>

text \<open>
  What each dictionary of the index holds, said directly of the list of events: the events of a
  kind, keyed by a field. \<open>reference_index\<close> builds the whole index that way, with no loop state.
\<close>

definition keyed ::
  "(history_event \<Rightarrow> bool) \<Rightarrow> (history_event \<Rightarrow> 'k option) \<Rightarrow> history_event list
    \<Rightarrow> ('k \<times> history_event) list" where
  "keyed P key evs =
     List.map_filter (\<lambda>ev. if P ev then map_option (\<lambda>k. (k, ev)) (key ev) else None) evs"

definition is_schedule :: "history_event \<Rightarrow> bool" where
  "is_schedule ev \<longleftrightarrow> ev_type ev \<in> set SCHEDULE_EVENT_TYPES"

definition is_activity_close :: "history_event \<Rightarrow> bool" where
  "is_activity_close ev \<longleftrightarrow>
     ev_type ev \<in> set ACTIVITY_TERMINAL_EVENT_TYPES \<and> activity_closing ev"

definition is_timer_close :: "history_event \<Rightarrow> bool" where
  "is_timer_close ev \<longleftrightarrow> ev_type ev \<in> set TIMER_TERMINAL_EVENT_TYPES"

definition is_child_close :: "history_event \<Rightarrow> bool" where
  "is_child_close ev \<longleftrightarrow> ev_type ev \<in> set CHILD_TERMINAL_EVENT_TYPES"

definition is_workflow_close :: "history_event \<Rightarrow> bool" where
  "is_workflow_close ev \<longleftrightarrow> ev_type ev \<in> set WORKFLOW_TERMINAL_EVENT_TYPES"

lemmas event_kind_defs =
  is_schedule_def is_activity_close_def is_timer_close_def is_child_close_def
  is_workflow_close_def event_type_defs

definition reference_index :: "history_event list \<Rightarrow> history_event list \<Rightarrow> history_index" where
  "reference_index all evs =
     \<lparr>hi_events = all,
      hi_scheduled = keyed is_schedule ev_command_id evs,
      hi_scheduled_entities = map_of (rev (keyed is_schedule ev_entity_id evs)),
      hi_activity_terminal = map_of (rev (keyed is_activity_close ev_entity_id evs)),
      hi_timer_terminal = map_of (rev (keyed is_timer_close ev_entity_id evs)),
      hi_child_terminal = map_of (rev (keyed is_child_close ev_entity_id evs)),
      hi_signals = filter (\<lambda>ev. ev_type ev = SignalReceived) evs,
      hi_updates = filter (\<lambda>ev. ev_type ev = WorkflowUpdateReceived) evs,
      hi_cancellation_requested =
        List.find (\<lambda>ev. ev_type ev = WorkflowCancellationRequested) evs,
      hi_workflow_terminal = List.find is_workflow_close evs,
      hi_previous_seq = int (length evs)\<rparr>"

text \<open>
  When an event may follow the events \<open>pre\<close>, kind by kind, and when a whole list of events is a
  history.
\<close>

definition schedule_ok :: "history_event list \<Rightarrow> history_event \<Rightarrow> bool" where
  "schedule_ok pre ev \<longleftrightarrow>
     ev_command_id ev \<noteq> None
     \<and> (ev_type ev \<in> set ENTITY_EVENT_TYPES \<longrightarrow> ev_entity_id ev \<noteq> None)
     \<and> (\<forall>x\<in>set pre. is_schedule x \<longrightarrow> ev_command_id x \<noteq> ev_command_id ev)
     \<and> (ev_entity_id ev \<noteq> None \<longrightarrow>
          (\<forall>x\<in>set pre. is_schedule x \<longrightarrow> ev_entity_id x \<noteq> ev_entity_id ev))"

definition terminal_ok ::
  "event_type \<Rightarrow> (history_event \<Rightarrow> bool) \<Rightarrow> history_event list \<Rightarrow> history_event \<Rightarrow> bool" where
  "terminal_ok kind closes pre ev \<longleftrightarrow>
     ev_entity_id ev \<noteq> None
     \<and> (\<exists>x\<in>set pre. is_schedule x \<and> ev_type x = kind \<and> ev_entity_id x = ev_entity_id ev)
     \<and> (\<forall>x\<in>set pre. closes x \<longrightarrow> ev_entity_id x \<noteq> ev_entity_id ev)"

definition event_ok :: "history_event list \<Rightarrow> history_event \<Rightarrow> bool" where
  "event_ok pre ev \<longleftrightarrow>
     ev_seq ev = int (length pre) + 1
     \<and> (\<forall>x\<in>set pre. \<not> is_workflow_close x)
     \<and> (ev_type ev = WorkflowExecutionStarted \<longrightarrow> pre = [])
     \<and> (is_schedule ev \<longrightarrow> schedule_ok pre ev)
     \<and> (ev_type ev \<in> set ACTIVITY_TERMINAL_EVENT_TYPES \<longrightarrow>
          terminal_ok ActivityScheduled is_activity_close pre ev)
     \<and> (is_timer_close ev \<longrightarrow> terminal_ok TimerStarted is_timer_close pre ev)
     \<and> (is_child_close ev \<longrightarrow> terminal_ok ChildWorkflowStarted is_child_close pre ev)
     \<and> (ev_type ev = SignalReceived \<longrightarrow>
          nonempty_str (dget (ev_attributes ev) ''name'') \<and> ev_external_id ev \<noteq> None)
     \<and> (ev_type ev = WorkflowUpdateReceived \<longrightarrow>
          nonempty_str (dget (ev_attributes ev) ''name'')
          \<and> nonempty_str (dget (ev_attributes ev) ''update_id''))
     \<and> (ev_type ev = WorkflowCancellationRequested \<longrightarrow>
          (\<forall>x\<in>set pre. ev_type x \<noteq> WorkflowCancellationRequested))"

fun events_ok :: "history_event list \<Rightarrow> history_event list \<Rightarrow> bool" where
  "events_ok pre [] = True"
| "events_ok pre (ev # evs) = (event_ok pre ev \<and> events_ok (pre @ [ev]) evs)"

definition valid_history :: "history_event list \<Rightarrow> bool" where
  "valid_history h \<longleftrightarrow>
     h \<noteq> [] \<and> ev_type (hd h) = WorkflowExecutionStarted \<and> events_ok [] h"

subsection \<open>Lemmas on keyed events\<close>

lemma keyed_Nil [simp]: "keyed P key [] = []"
  by (simp add: keyed_def List.map_filter_def)

lemma keyed_append [simp]: "keyed P key (xs @ ys) = keyed P key xs @ keyed P key ys"
  by (simp add: keyed_def List.map_filter_def)

lemma keyed_single [simp]:
  "keyed P key [ev] =
    (if P ev then case key ev of None \<Rightarrow> [] | Some k \<Rightarrow> [(k, ev)] else [])"
  by (simp add: keyed_def List.map_filter_def split: option.splits)

lemma set_keyed: "set (keyed P key evs) = {(k, ev). ev \<in> set evs \<and> P ev \<and> key ev = Some k}"
  by (induction evs)
    (auto simp: keyed_def List.map_filter_simps split: option.splits if_splits)

lemma map_of_keyed_None_iff [simp]:
  "map_of (keyed P key evs) k = None \<longleftrightarrow> (\<forall>ev\<in>set evs. P ev \<longrightarrow> key ev \<noteq> Some k)"
  "map_of (rev (keyed P key evs)) k = None \<longleftrightarrow> (\<forall>ev\<in>set evs. P ev \<longrightarrow> key ev \<noteq> Some k)"
  by (auto simp: map_of_eq_None_iff image_iff set_keyed)

lemma map_of_keyed_SomeD:
  "map_of (keyed P key evs) k = Some ev \<Longrightarrow> ev \<in> set evs \<and> P ev \<and> key ev = Some k"
  "map_of (rev (keyed P key evs)) k = Some ev \<Longrightarrow> ev \<in> set evs \<and> P ev \<and> key ev = Some k"
  by (auto dest!: map_of_SomeD simp: set_keyed)

lemma find_None_iff_set: "List.find P xs = None \<longleftrightarrow> (\<forall>x\<in>set xs. \<not> P x)"
  by (auto simp: find_None_iff)

lemma find_snoc:
  "List.find P (xs @ [x]) =
    (case List.find P xs of None \<Rightarrow> (if P x then Some x else None) | Some y \<Rightarrow> Some y)"
  by (induction xs) auto

subsection \<open>The loop computes the reference index\<close>

lemma events_ok_append: "events_ok pre (xs @ ys) \<longleftrightarrow> events_ok pre xs \<and> events_ok (pre @ xs) ys"
  by (induction xs arbitrary: pre) auto

lemma events_ok_snoc [simp]: "events_ok pre (xs @ [ev]) \<longleftrightarrow> events_ok pre xs \<and> event_ok (pre @ xs) ev"
  by (simp add: events_ok_append)

text \<open>In a valid history an entity is scheduled by one event only, and so is a command.\<close>

lemma schedule_entity_unique:
  assumes "events_ok [] evs" and "x \<in> set evs" and "y \<in> set evs"
    and "is_schedule x" and "is_schedule y"
    and "ev_entity_id x = Some e" and "ev_entity_id y = Some e"
  shows "x = y"
  using assms
proof (induction evs rule: rev_induct)
  case Nil
  then show ?case by simp
next
  case (snoc ev evs)
  then have ok: "events_ok [] evs" and ev: "is_schedule ev \<longrightarrow> schedule_ok evs ev"
    by (simp_all add: event_ok_def)
  have fresh: "ev_entity_id z \<noteq> Some e"
    if "z \<in> set evs" "is_schedule z" "is_schedule ev" "ev_entity_id ev = Some e" for z
    using ev that by (simp add: schedule_ok_def)
  show ?case
  proof (cases "x = ev \<or> y = ev")
    case True
    with snoc.prems fresh[of x] fresh[of y] show ?thesis by auto
  next
    case False
    with snoc.prems have "x \<in> set evs" and "y \<in> set evs" by simp_all
    with snoc.IH[OF ok] snoc.prems(4-) show ?thesis by blast
  qed
qed

lemma scheduled_as_reference:
  assumes "events_ok [] pre"
  shows "scheduled_as t e (reference_index all pre) \<longleftrightarrow>
    (\<exists>x\<in>set pre. is_schedule x \<and> ev_type x = t \<and> ev_entity_id x = Some e)"
proof (cases "map_of (rev (keyed is_schedule ev_entity_id pre)) e")
  case None
  then have "hi_scheduled_entities (reference_index all pre) e = None"
    and "\<forall>x\<in>set pre. is_schedule x \<longrightarrow> ev_entity_id x \<noteq> Some e"
    by (simp_all add: reference_index_def)
  then show ?thesis
    by (auto simp: scheduled_as_def)
next
  case (Some s)
  then have s: "s \<in> set pre" "is_schedule s" "ev_entity_id s = Some e"
    using map_of_keyed_SomeD(2)[OF Some] by simp_all
  then have "x = s" if "x \<in> set pre" "is_schedule x" "ev_entity_id x = Some e" for x
    using schedule_entity_unique[OF assms] that by blast
  moreover have "scheduled_as t e (reference_index all pre) \<longleftrightarrow> ev_type s = t"
    by (simp add: scheduled_as_def reference_index_def Some)
  ultimately show ?thesis using s by blast
qed

lemma check_sequence_reference:
  "check_sequence ev (reference_index all pre) = Inr ix \<longleftrightarrow>
    ev_seq ev = int (length pre) + 1 \<and> (\<forall>x\<in>set pre. \<not> is_workflow_close x)
    \<and> (ev_type ev = WorkflowExecutionStarted \<longrightarrow> pre = [])
    \<and> ix = (reference_index all pre)\<lparr>hi_previous_seq := int (length pre) + 1\<rparr>"
proof -
  have t: "hi_workflow_terminal (reference_index all pre) = None
      \<longleftrightarrow> (\<forall>x\<in>set pre. \<not> is_workflow_close x)"
    and p: "hi_previous_seq (reference_index all pre) = int (length pre)"
    by (simp_all add: reference_index_def find_None_iff_set)
  show ?thesis
    by (cases "hi_workflow_terminal (reference_index all pre)")
      (auto simp: check_sequence_def p t[symmetric] Let_def)
qed

lemma scheduled_as_previous_seq [simp]:
  "scheduled_as t e (ix\<lparr>hi_previous_seq := n\<rparr>) = scheduled_as t e ix"
  by (simp add: scheduled_as_def)

text \<open>Each event type is handled by one stage of the loop body; the others pass it through.\<close>

lemma index_event_by_kind:
  "index_event ev ix =
    bindR (check_sequence ev ix) (\<lambda>ix.
      if is_schedule ev then index_schedule ev ix
      else if ev_type ev \<in> set ACTIVITY_TERMINAL_EVENT_TYPES then index_activity_terminal ev ix
      else if is_timer_close ev then index_timer_terminal ev ix
      else if is_child_close ev then index_child_terminal ev ix
      else if ev_type ev = SignalReceived then index_signal ev ix
      else if ev_type ev = WorkflowUpdateReceived then index_update ev ix
      else if ev_type ev = WorkflowCancellationRequested then index_cancellation ev ix
      else index_workflow_terminal ev ix)"
proof -
  have pass:
    "\<not> is_schedule ev \<Longrightarrow> index_schedule ev ix = Inr ix"
    "ev_type ev \<notin> set ACTIVITY_TERMINAL_EVENT_TYPES \<Longrightarrow> index_activity_terminal ev ix = Inr ix"
    "\<not> is_timer_close ev \<Longrightarrow> index_timer_terminal ev ix = Inr ix"
    "\<not> is_child_close ev \<Longrightarrow> index_child_terminal ev ix = Inr ix"
    "ev_type ev \<noteq> SignalReceived \<Longrightarrow> index_signal ev ix = Inr ix"
    "ev_type ev \<noteq> WorkflowUpdateReceived \<Longrightarrow> index_update ev ix = Inr ix"
    "ev_type ev \<noteq> WorkflowCancellationRequested \<Longrightarrow> index_cancellation ev ix = Inr ix"
    "\<not> is_workflow_close ev \<Longrightarrow> index_workflow_terminal ev ix = Inr ix" for ix
    by (simp_all add: index_schedule_def index_activity_terminal_def index_timer_terminal_def
        index_child_terminal_def index_signal_def index_update_def index_cancellation_def
        index_workflow_terminal_def is_schedule_def is_timer_close_def is_child_close_def
        is_workflow_close_def)
  have last: "bindR m Inr = m" for m :: "history_index hres"
    by (cases m) simp_all
  show ?thesis
    by (cases "ev_type ev")
      (simp_all add: index_event_def pass last event_kind_defs cong: bindR_cong)
qed

text \<open>The stage that handles an event takes the reference index to the next one.\<close>

lemma index_schedule_reference:
  assumes "is_schedule ev"
  shows "index_schedule ev ((reference_index all pre)\<lparr>hi_previous_seq := int (length pre) + 1\<rparr>)
      = Inr ix \<longleftrightarrow>
    schedule_ok pre ev \<and> ix = reference_index all (pre @ [ev])"
proof -
  have kinds: "\<not> is_activity_close ev" "\<not> is_timer_close ev" "\<not> is_child_close ev"
    "\<not> is_workflow_close ev" "ev_type ev \<noteq> SignalReceived"
    "ev_type ev \<noteq> WorkflowUpdateReceived" "ev_type ev \<noteq> WorkflowCancellationRequested"
    using assms by (auto simp: event_kind_defs)
  have next_index: "reference_index all (pre @ [ev]) =
      (case ev_entity_id ev of
         None \<Rightarrow> (reference_index all pre)
           \<lparr>hi_scheduled := keyed is_schedule ev_command_id (pre @ [ev]),
            hi_previous_seq := int (length pre) + 1\<rparr>
       | Some e \<Rightarrow> (reference_index all pre)
           \<lparr>hi_scheduled := keyed is_schedule ev_command_id (pre @ [ev]),
            hi_scheduled_entities := (map_of (rev (keyed is_schedule ev_entity_id pre)))(e \<mapsto> ev),
            hi_previous_seq := int (length pre) + 1\<rparr>)"
    using assms kinds
    by (auto simp: reference_index_def find_snoc split: option.splits)
  have t: "ev_type ev \<in> set SCHEDULE_EVENT_TYPES"
    using assms by (simp add: is_schedule_def)
  show ?thesis
    unfolding next_index
    by (cases "ev_command_id ev"; cases "ev_entity_id ev")
      (auto simp: index_schedule_def t schedule_ok_def reference_index_def res_simps assms Let_def)
qed

lemma terminal_stage_kinds:
  assumes "ev_type ev \<in> set ACTIVITY_TERMINAL_EVENT_TYPES \<or> is_timer_close ev \<or> is_child_close ev"
  shows "\<not> is_schedule ev" "\<not> is_workflow_close ev" "ev_type ev \<noteq> SignalReceived"
    "ev_type ev \<noteq> WorkflowUpdateReceived" "ev_type ev \<noteq> WorkflowCancellationRequested"
  using assms by (auto simp: event_kind_defs)

lemma index_activity_terminal_reference:
  assumes "events_ok [] pre" and t: "ev_type ev \<in> set ACTIVITY_TERMINAL_EVENT_TYPES"
  shows "index_activity_terminal ev
      ((reference_index all pre)\<lparr>hi_previous_seq := int (length pre) + 1\<rparr>) = Inr ix \<longleftrightarrow>
    terminal_ok ActivityScheduled is_activity_close pre ev \<and> ix = reference_index all (pre @ [ev])"
proof -
  have other: "\<not> is_timer_close ev" "\<not> is_child_close ev"
    using t by (auto simp: event_kind_defs)
  have close: "is_activity_close ev \<longleftrightarrow> activity_closing ev"
    using t by (simp add: is_activity_close_def)
  have "ev_entity_id ev = Some e \<Longrightarrow> reference_index all (pre @ [ev]) =
      (if activity_closing ev
       then (reference_index all pre)\<lparr>hi_activity_terminal :=
           (hi_activity_terminal (reference_index all pre))(e \<mapsto> ev),
         hi_previous_seq := int (length pre) + 1\<rparr>
       else (reference_index all pre)\<lparr>hi_previous_seq := int (length pre) + 1\<rparr>)" for e
    using other close terminal_stage_kinds[OF disjI1[OF t]]
    by (simp add: reference_index_def find_snoc split: option.splits)
  moreover have "hi_activity_terminal (reference_index all pre) e = None \<longleftrightarrow>
      (\<forall>x\<in>set pre. is_activity_close x \<longrightarrow> ev_entity_id x \<noteq> Some e)" for e
    by (simp add: reference_index_def)
  ultimately show ?thesis
    by (cases "ev_entity_id ev")
      (auto simp: index_activity_terminal_def t terminal_ok_def
        scheduled_as_reference[OF assms(1)] split: if_splits)
qed

lemma index_timer_terminal_reference:
  assumes "events_ok [] pre" and t: "is_timer_close ev"
  shows "index_timer_terminal ev
      ((reference_index all pre)\<lparr>hi_previous_seq := int (length pre) + 1\<rparr>) = Inr ix \<longleftrightarrow>
    terminal_ok TimerStarted is_timer_close pre ev \<and> ix = reference_index all (pre @ [ev])"
proof -
  have other: "\<not> is_activity_close ev" "\<not> is_child_close ev"
    using t by (auto simp: event_kind_defs)
  have "ev_entity_id ev = Some e \<Longrightarrow> reference_index all (pre @ [ev]) =
      (reference_index all pre)\<lparr>hi_timer_terminal :=
           (hi_timer_terminal (reference_index all pre))(e \<mapsto> ev),
         hi_previous_seq := int (length pre) + 1\<rparr>" for e
    using other t terminal_stage_kinds[OF disjI2[OF disjI1[OF t]]]
    by (simp add: reference_index_def find_snoc split: option.splits)
  moreover have "hi_timer_terminal (reference_index all pre) e = None \<longleftrightarrow>
      (\<forall>x\<in>set pre. is_timer_close x \<longrightarrow> ev_entity_id x \<noteq> Some e)" for e
    by (simp add: reference_index_def)
  moreover have "ev_type ev \<in> set TIMER_TERMINAL_EVENT_TYPES"
    using t by (simp add: is_timer_close_def)
  ultimately show ?thesis
    by (cases "ev_entity_id ev")
      (auto simp: index_timer_terminal_def terminal_ok_def
        scheduled_as_reference[OF assms(1)] split: if_splits)
qed

lemma index_child_terminal_reference:
  assumes "events_ok [] pre" and t: "is_child_close ev"
  shows "index_child_terminal ev
      ((reference_index all pre)\<lparr>hi_previous_seq := int (length pre) + 1\<rparr>) = Inr ix \<longleftrightarrow>
    terminal_ok ChildWorkflowStarted is_child_close pre ev \<and> ix = reference_index all (pre @ [ev])"
proof -
  have other: "\<not> is_activity_close ev" "\<not> is_timer_close ev"
    using t by (auto simp: event_kind_defs)
  have "ev_entity_id ev = Some e \<Longrightarrow> reference_index all (pre @ [ev]) =
      (reference_index all pre)\<lparr>hi_child_terminal :=
           (hi_child_terminal (reference_index all pre))(e \<mapsto> ev),
         hi_previous_seq := int (length pre) + 1\<rparr>" for e
    using other t terminal_stage_kinds[OF disjI2[OF disjI2[OF t]]]
    by (simp add: reference_index_def find_snoc split: option.splits)
  moreover have "hi_child_terminal (reference_index all pre) e = None \<longleftrightarrow>
      (\<forall>x\<in>set pre. is_child_close x \<longrightarrow> ev_entity_id x \<noteq> Some e)" for e
    by (simp add: reference_index_def)
  moreover have "ev_type ev \<in> set CHILD_TERMINAL_EVENT_TYPES"
    using t by (simp add: is_child_close_def)
  ultimately show ?thesis
    by (cases "ev_entity_id ev")
      (auto simp: index_child_terminal_def terminal_ok_def
        scheduled_as_reference[OF assms(1)] split: if_splits)
qed

lemma index_other_reference:
  assumes "\<forall>x\<in>set pre. \<not> is_workflow_close x"
    and "\<not> is_schedule ev" "ev_type ev \<notin> set ACTIVITY_TERMINAL_EVENT_TYPES"
    "\<not> is_timer_close ev" "\<not> is_child_close ev"
    and ix0_def: "ix0 = (reference_index all pre)\<lparr>hi_previous_seq := int (length pre) + 1\<rparr>"
  shows "(if ev_type ev = SignalReceived then index_signal ev ix0
      else if ev_type ev = WorkflowUpdateReceived then index_update ev ix0
      else if ev_type ev = WorkflowCancellationRequested then index_cancellation ev ix0
      else index_workflow_terminal ev ix0) = Inr ix \<longleftrightarrow>
    (ev_type ev = SignalReceived \<longrightarrow>
       nonempty_str (dget (ev_attributes ev) ''name'') \<and> ev_external_id ev \<noteq> None)
    \<and> (ev_type ev = WorkflowUpdateReceived \<longrightarrow>
       nonempty_str (dget (ev_attributes ev) ''name'')
       \<and> nonempty_str (dget (ev_attributes ev) ''update_id''))
    \<and> (ev_type ev = WorkflowCancellationRequested \<longrightarrow>
       (\<forall>x\<in>set pre. ev_type x \<noteq> WorkflowCancellationRequested))
    \<and> ix = reference_index all (pre @ [ev])"
proof -
  have "\<not> is_activity_close ev"
    using assms(3) by (simp add: is_activity_close_def)
  note kinds = this assms(2-5)
  have open_pre: "List.find is_workflow_close pre = None"
    using assms(1) by (simp add: find_None_iff_set)
  note unfolds = ix0_def reference_index_def kinds find_snoc open_pre
  consider (signal) "ev_type ev = SignalReceived" | (update) "ev_type ev = WorkflowUpdateReceived"
    | (cancel) "ev_type ev = WorkflowCancellationRequested"
    | (other) "ev_type ev \<noteq> SignalReceived" "ev_type ev \<noteq> WorkflowUpdateReceived"
        "ev_type ev \<noteq> WorkflowCancellationRequested"
    by blast
  then show ?thesis
  proof cases
    case signal
    then have "\<not> is_workflow_close ev" by (simp add: event_kind_defs)
    with signal show ?thesis
      by (auto simp: index_signal_def unfolds split: option.splits)
  next
    case update
    then have "\<not> is_workflow_close ev" by (simp add: event_kind_defs)
    with update show ?thesis
      by (auto simp: index_update_def unfolds split: option.splits)
  next
    case cancel
    then have "\<not> is_workflow_close ev" by (simp add: event_kind_defs)
    moreover have "List.find (\<lambda>ev. ev_type ev = WorkflowCancellationRequested) pre = None \<longleftrightarrow>
        (\<forall>x\<in>set pre. ev_type x \<noteq> WorkflowCancellationRequested)"
      by (simp add: find_None_iff_set)
    ultimately show ?thesis using cancel
      by (cases "List.find (\<lambda>ev. ev_type ev = WorkflowCancellationRequested) pre")
        (auto simp: index_cancellation_def unfolds)
  next
    case other
    then show ?thesis
      by (auto simp: index_workflow_terminal_def unfolds is_workflow_close_def
          split: option.splits)
  qed
qed

text \<open>One iteration of the loop: it succeeds exactly when the event may come next.\<close>

lemma index_event_reference:
  assumes "events_ok [] pre"
  shows "index_event ev (reference_index all pre) = Inr ix \<longleftrightarrow>
    event_ok pre ev \<and> ix = reference_index all (pre @ [ev])"
proof -
  let ?ix0 = "(reference_index all pre)\<lparr>hi_previous_seq := int (length pre) + 1\<rparr>"
  let ?head = "ev_seq ev = int (length pre) + 1 \<and> (\<forall>x\<in>set pre. \<not> is_workflow_close x)
    \<and> (ev_type ev = WorkflowExecutionStarted \<longrightarrow> pre = [])"
  consider (sched) "is_schedule ev"
    | (act) "\<not> is_schedule ev" "ev_type ev \<in> set ACTIVITY_TERMINAL_EVENT_TYPES"
    | (timer) "\<not> is_schedule ev" "ev_type ev \<notin> set ACTIVITY_TERMINAL_EVENT_TYPES"
        "is_timer_close ev"
    | (child) "\<not> is_schedule ev" "ev_type ev \<notin> set ACTIVITY_TERMINAL_EVENT_TYPES"
        "\<not> is_timer_close ev" "is_child_close ev"
    | (other) "\<not> is_schedule ev" "ev_type ev \<notin> set ACTIVITY_TERMINAL_EVENT_TYPES"
        "\<not> is_timer_close ev" "\<not> is_child_close ev"
    by blast
  then show ?thesis
  proof cases
    case sched
    have "ev_type ev \<notin> set ACTIVITY_TERMINAL_EVENT_TYPES" "\<not> is_timer_close ev"
      "\<not> is_child_close ev" "ev_type ev \<noteq> SignalReceived"
      "ev_type ev \<noteq> WorkflowUpdateReceived" "ev_type ev \<noteq> WorkflowCancellationRequested"
      using sched by (auto simp: event_kind_defs)
    with sched show ?thesis
      by (auto simp: index_event_by_kind res_simps check_sequence_reference
          index_schedule_reference[OF sched] event_ok_def)
  next
    case act
    then have "\<not> is_timer_close ev" "\<not> is_child_close ev"
      by (auto simp: event_kind_defs)
    with act terminal_stage_kinds[OF disjI1[OF act(2)]] show ?thesis
      by (auto simp: index_event_by_kind res_simps check_sequence_reference
          index_activity_terminal_reference[OF assms act(2)] event_ok_def)
  next
    case timer
    then have "\<not> is_child_close ev"
      by (auto simp: event_kind_defs)
    with timer terminal_stage_kinds[OF disjI2[OF disjI1[OF timer(3)]]] show ?thesis
      by (auto simp: index_event_by_kind res_simps check_sequence_reference
          index_timer_terminal_reference[OF assms timer(3)] event_ok_def)
  next
    case child
    with terminal_stage_kinds[OF disjI2[OF disjI2[OF child(4)]]] show ?thesis
      by (auto simp: index_event_by_kind res_simps check_sequence_reference
          index_child_terminal_reference[OF assms child(4)] event_ok_def)
  next
    case other
    then have "index_event ev (reference_index all pre) = Inr ix \<longleftrightarrow>
      ?head \<and> (if ev_type ev = SignalReceived then index_signal ev ?ix0
        else if ev_type ev = WorkflowUpdateReceived then index_update ev ?ix0
        else if ev_type ev = WorkflowCancellationRequested then index_cancellation ev ?ix0
        else index_workflow_terminal ev ?ix0) = Inr ix"
      by (auto simp: index_event_by_kind bindR_Inr_iff check_sequence_reference)
    also have "\<dots> \<longleftrightarrow> event_ok pre ev \<and> ix = reference_index all (pre @ [ev])"
      using index_other_reference[OF _ other refl, of pre all ix] other
      unfolding event_ok_def by blast
    finally show ?thesis .
  qed
qed

lemma fold_index_reference:
  assumes "events_ok [] pre"
  shows "foldR index_event evs (reference_index all pre) = Inr ix \<longleftrightarrow>
    events_ok pre evs \<and> ix = reference_index all (pre @ evs)"
  using assms
proof (induction evs arbitrary: pre)
  case Nil
  then show ?case by auto
next
  case (Cons ev evs)
  have "foldR index_event (ev # evs) (reference_index all pre) = Inr ix \<longleftrightarrow>
      event_ok pre ev \<and> foldR index_event evs (reference_index all (pre @ [ev])) = Inr ix"
    by (auto simp: res_simps index_event_reference[OF Cons.prems])
  also have "\<dots> \<longleftrightarrow> events_ok pre (ev # evs) \<and> ix = reference_index all (pre @ ev # evs)"
    using Cons.IH[of "pre @ [ev]"] Cons.prems by auto
  finally show ?case .
qed

text \<open>
  The constructor accepts exactly the valid histories, and what it builds is the reference index.
\<close>

lemma HistoryIndex_iff:
  "HistoryIndex h = Inr ix \<longleftrightarrow> valid_history h \<and> ix = reference_index h h"
proof -
  have "empty_index h = reference_index h []"
    by (simp add: empty_index_def reference_index_def)
  then show ?thesis
    using fold_index_reference[of "[]" h h ix]
    by (auto simp: HistoryIndex_def valid_history_def)
qed

section \<open>Growing histories\<close>

lemma events_ok_seqs:
  "events_ok pre evs \<Longrightarrow>
    map ev_seq evs = [int (length pre) + 1..int (length pre) + int (length evs)]"
proof (induction evs arbitrary: pre)
  case Nil
  then show ?case by simp
next
  case (Cons ev evs)
  then have "map ev_seq evs = [int (length pre) + 2..int (length pre) + int (length evs) + 1]"
    using Cons.IH[of "pre @ [ev]"] by (simp add: algebra_simps)
  moreover have "ev_seq ev = int (length pre) + 1"
    using Cons.prems by (simp add: event_ok_def)
  moreover have "[int (length pre) + 1..int (length pre) + int (length (ev # evs))] =
      (int (length pre) + 1) # [int (length pre) + 2..int (length pre) + int (length evs) + 1]"
    by (subst upto_rec1) (simp_all add: algebra_simps)
  ultimately show ?case by simp
qed

lemma events_ok_seq_bounds:
  assumes "events_ok pre evs" and "x \<in> set evs"
  shows "int (length pre) < ev_seq x \<and> ev_seq x \<le> int (length pre) + int (length evs)"
proof -
  have "ev_seq x \<in> set (map ev_seq evs)" using assms(2) by simp
  then show ?thesis unfolding events_ok_seqs[OF assms(1)] by auto
qed

lemma events_ok_later:
  assumes "events_ok [] (h @ h')" and "x \<in> set h" and "y \<in> set h'"
  shows "ev_seq x < ev_seq y"
  using events_ok_seq_bounds[of "[]" h x] events_ok_seq_bounds[of h h' y] assms
  by (auto simp: events_ok_append)

lemma events_ok_split:
  assumes "events_ok [] (h @ h')" and "y \<in> set h'"
  obtains a where "event_ok (h @ a) y"
proof -
  from assms(2) obtain a b where "h' = a @ y # b"
    by (meson split_list)
  with assms(1) have "event_ok (h @ a) y"
    by (simp add: events_ok_append)
  then show thesis by (rule that)
qed

lemma map_of_keyed_grow:
  assumes "map_of (rev (keyed P key h)) k = Some x"
    and "\<And>x y. x \<in> set h \<Longrightarrow> y \<in> set h' \<Longrightarrow> P x \<Longrightarrow> P y \<Longrightarrow> key x = Some k \<Longrightarrow> key y \<noteq> Some k"
  shows "map_of (rev (keyed P key (h @ h'))) k = Some x"
proof -
  have "x \<in> set h" "P x" "key x = Some k"
    using map_of_keyed_SomeD(2)[OF assms(1)] by simp_all
  then have "map_of (rev (keyed P key h')) k = None"
    using assms(2) by auto
  then show ?thesis
    using assms(1) by (simp add: map_add_def del: map_of_keyed_None_iff)
qed

text \<open>
  The order on indexes that committing more events induces: recorded commands and outcomes stay,
  new signals and updates come last, and whatever is new has a larger sequence number than
  whatever the smaller index holds.
\<close>

definition index_le :: "history_index \<Rightarrow> history_index \<Rightarrow> bool" where
  "index_le ix ix' \<longleftrightarrow>
     hi_events ix \<noteq> [] \<and> hd (hi_events ix') = hd (hi_events ix)
     \<and> map_of (hi_scheduled ix) \<subseteq>\<^sub>m map_of (hi_scheduled ix')
     \<and> hi_activity_terminal ix \<subseteq>\<^sub>m hi_activity_terminal ix'
     \<and> hi_timer_terminal ix \<subseteq>\<^sub>m hi_timer_terminal ix'
     \<and> hi_child_terminal ix \<subseteq>\<^sub>m hi_child_terminal ix'
     \<and> (\<exists>xs. hi_signals ix' = hi_signals ix @ xs
          \<and> (\<forall>t\<in>ran (hi_timer_terminal ix). \<forall>x\<in>set xs. ev_seq t < ev_seq x))
     \<and> (\<exists>xs. hi_updates ix' = hi_updates ix @ xs)
     \<and> (\<forall>e t. hi_timer_terminal ix e = None \<longrightarrow> hi_timer_terminal ix' e = Some t
          \<longrightarrow> (\<forall>s\<in>set (hi_signals ix). ev_seq s < ev_seq t))"

lemma valid_history_prefix:
  assumes "valid_history (h @ h')" and "h \<noteq> []"
  shows "valid_history h"
  using assms by (simp add: valid_history_def events_ok_append)

lemma reference_index_mono:
  assumes v: "events_ok [] (h @ h')" and "h \<noteq> []"
  shows "index_le (reference_index h h) (reference_index (h @ h') (h @ h'))"
proof -
  have sched: "ev_command_id x \<noteq> ev_command_id y"
    if "x \<in> set h" "y \<in> set h'" "is_schedule x" "is_schedule y" for x y
  proof -
    obtain a where "event_ok (h @ a) y" using events_ok_split[OF v \<open>y \<in> set h'\<close>] .
    with that have "schedule_ok (h @ a) y" by (simp add: event_ok_def)
    with that show ?thesis by (auto simp: schedule_ok_def)
  qed
  have close: "ev_entity_id x \<noteq> ev_entity_id y"
    if "x \<in> set h" "y \<in> set h'" "P x" "P y"
      "P = is_activity_close \<or> P = is_timer_close \<or> P = is_child_close" for x y P
  proof -
    obtain a where "event_ok (h @ a) y" using events_ok_split[OF v \<open>y \<in> set h'\<close>] .
    then have "\<exists>kind. terminal_ok kind P (h @ a) y"
      using \<open>P y\<close> \<open>P = is_activity_close \<or> P = is_timer_close \<or> P = is_child_close\<close>
      unfolding event_ok_def is_activity_close_def by metis
    then show ?thesis
      using \<open>x \<in> set h\<close> \<open>P x\<close> unfolding terminal_ok_def by auto
  qed
  have "map_of (keyed is_schedule ev_command_id (h @ h')) c = Some x"
    if "map_of (keyed is_schedule ev_command_id h) c = Some x" for c x
  proof -
    have "\<forall>y\<in>set h'. is_schedule y \<longrightarrow> ev_command_id y \<noteq> Some c"
      using map_of_keyed_SomeD(1)[OF that] sched by metis
    then have "map_of (keyed is_schedule ev_command_id h') c = None" by simp
    with that show ?thesis
      by (simp add: map_add_def del: map_of_keyed_None_iff split: option.splits)
  qed
  then have "map_of (keyed is_schedule ev_command_id h) \<subseteq>\<^sub>m
      map_of (keyed is_schedule ev_command_id (h @ h'))"
    by (auto simp: map_le_def)
  moreover have grow: "map_of (rev (keyed P ev_entity_id h)) \<subseteq>\<^sub>m
      map_of (rev (keyed P ev_entity_id (h @ h')))"
    if "P = is_activity_close \<or> P = is_timer_close \<or> P = is_child_close" for P
    unfolding map_le_def
  proof
    fix e assume "e \<in> dom (map_of (rev (keyed P ev_entity_id h)))"
    then obtain x where x: "map_of (rev (keyed P ev_entity_id h)) e = Some x" by auto
    have "map_of (rev (keyed P ev_entity_id (h @ h'))) e = Some x"
      by (rule map_of_keyed_grow[OF x]) (use close[OF _ _ _ _ that] in metis)
    with x show "map_of (rev (keyed P ev_entity_id h)) e
        = map_of (rev (keyed P ev_entity_id (h @ h'))) e" by simp
  qed
  moreover have "ev_seq t < ev_seq x"
    if "t \<in> ran (map_of (rev (keyed is_timer_close ev_entity_id h)))"
      "x \<in> set (filter (\<lambda>ev. ev_type ev = SignalReceived) h')" for t x
    using that events_ok_later[OF v, of t x] map_of_keyed_SomeD(2)
    by (fastforce simp: ran_def)
  moreover have "ev_seq s < ev_seq t"
    if "map_of (rev (keyed is_timer_close ev_entity_id h)) e = None"
      "map_of (rev (keyed is_timer_close ev_entity_id (h @ h'))) e = Some t"
      "s \<in> set (filter (\<lambda>ev. ev_type ev = SignalReceived) h)" for e t s
  proof -
    have "t \<in> set h'"
      using map_of_keyed_SomeD(2)[OF that(2)] that(1) by auto
    then show ?thesis using events_ok_later[OF v] that(3) by simp
  qed
  ultimately show ?thesis
    using \<open>h \<noteq> []\<close> unfolding index_le_def reference_index_def by simp
qed

text \<open>
  Committing more events never invalidates what an earlier reader of the history saw.
\<close>

lemma HistoryIndex_mono:
  assumes "HistoryIndex (h @ h') = Inr ix'" and "h \<noteq> []"
  obtains ix where "HistoryIndex h = Inr ix" and "index_le ix ix'"
proof
  show "HistoryIndex h = Inr (reference_index h h)"
    using assms valid_history_prefix[of h h'] by (simp add: HistoryIndex_iff)
  show "index_le (reference_index h h) ix'"
    using assms reference_index_mono[of h h'] by (simp add: HistoryIndex_iff valid_history_def)
qed

section \<open>Unvisited commands\<close>

lemma min_by_command_None_iff [simp]: "min_by_command xs = None \<longleftrightarrow> xs = []"
  by (cases xs) (auto split: option.splits)

lemma min_by_command_least:
  assumes "min_by_command xs = Some m"
    and "\<And>c ev. (c, ev) \<in> set xs \<Longrightarrow> ev_command_id ev = Some c"
  shows "\<exists>c. (c, m) \<in> set xs \<and> (\<forall>(d, ev)\<in>set xs. c \<le> d)"
  using assms
proof (induction xs arbitrary: m)
  case Nil
  then show ?case by simp
next
  case (Cons x xs)
  obtain c ev where x: "x = (c, ev)" by (cases x)
  show ?case
  proof (cases "min_by_command xs")
    case None
    with Cons.prems x show ?thesis by auto
  next
    case (Some m')
    have "\<And>c ev. (c, ev) \<in> set xs \<Longrightarrow> ev_command_id ev = Some c" using Cons.prems(2) by simp
    from Cons.IH[OF Some this] obtain c' where c': "(c', m') \<in> set xs" "\<forall>(d, ev)\<in>set xs. c' \<le> d"
      by auto
    then have ids: "ev_command_id m' = Some c'" "ev_command_id ev = Some c"
      using Cons.prems(2) x by auto
    show ?thesis
    proof (cases "c \<le> c'")
      case True
      then have "m = ev" using Cons.prems(1) Some ids x by simp
      then have "(c, m) \<in> set (x # xs)" using x by simp
      moreover have "\<forall>(d, ev)\<in>set (x # xs). c \<le> d" using c'(2) True x by fastforce
      ultimately show ?thesis by blast
    next
      case False
      then have "m = m'" using Cons.prems(1) Some ids x by simp
      then have "(c', m) \<in> set (x # xs)" using c'(1) by simp
      moreover have "\<forall>(d, ev)\<in>set (x # xs). c' \<le> d" using c'(2) False x by fastforce
      ultimately show ?thesis by blast
    qed
  qed
qed

lemma first_unvisited_None:
  assumes "HistoryIndex h = Inr ix"
  shows "first_unvisited_command ix n = None \<longleftrightarrow>
    (\<forall>ev\<in>set h. is_schedule ev \<longrightarrow> (\<forall>c. ev_command_id ev = Some c \<longrightarrow> c < n))"
proof -
  have "hi_scheduled ix = keyed is_schedule ev_command_id h"
    using assms by (simp add: HistoryIndex_iff reference_index_def)
  then show ?thesis
    by (auto simp: first_unvisited_command_def filter_empty_conv set_keyed)
qed

lemma first_unvisited_Some:
  assumes "HistoryIndex h = Inr ix" and "first_unvisited_command ix n = Some m"
  shows "\<exists>c. m \<in> set h \<and> is_schedule m \<and> ev_command_id m = Some c \<and> n \<le> c
    \<and> (\<forall>ev\<in>set h. \<forall>d. is_schedule ev \<longrightarrow> ev_command_id ev = Some d \<longrightarrow> n \<le> d \<longrightarrow> c \<le> d)"
proof -
  let ?xs = "filter (\<lambda>(c, ev). n \<le> c) (keyed is_schedule ev_command_id h)"
  have "hi_scheduled ix = keyed is_schedule ev_command_id h"
    using assms(1) by (simp add: HistoryIndex_iff reference_index_def)
  then have "min_by_command ?xs = Some m"
    using assms(2) by (simp add: first_unvisited_command_def)
  moreover have "\<And>c ev. (c, ev) \<in> set ?xs \<Longrightarrow> ev_command_id ev = Some c"
    by (auto simp: set_keyed)
  ultimately obtain c where "(c, m) \<in> set ?xs" "\<forall>(d, ev)\<in>set ?xs. c \<le> d"
    using min_by_command_least by blast
  then show ?thesis
    by (intro exI[of _ c]) (auto simp: set_keyed)
qed

end
