(* ===== verification/Serialization.thy ===== *)
theory Serialization
  imports Prelude
begin

text \<open>
  \<^verbatim>\<open>engine/runtime/serialization.py\<close>: canonical JSON text, fingerprints and detached copies; and
  the record \<open>pyenv\<close> of the Python library functions the engine calls that are not computed by
  the model (a hash, name-based UUIDs, number and time formatting). Every definition that needs
  one of them takes the record as its argument, so the theorems hold whatever they compute.
\<close>

section \<open>The Python library\<close>

text \<open>
  \<open>py_sha256\<close> is \<^verbatim>\<open>hashlib.sha256(text.encode()).digest()\<close> as a list of bytes, \<open>py_uuid5\<close> is
  \<^verbatim>\<open>uuid5(ENTITY_NAMESPACE, name)\<close>, \<open>py_float_repr\<close> and \<open>py_repr\<close> are \<^verbatim>\<open>repr\<close> on floats and
  on JSON values, \<open>py_isoformat\<close> and \<open>py_fromisoformat\<close> print and parse timestamps (the parser
  fails with \<open>None\<close> and says whether the text carried a timezone; naive times are read as UTC),
  \<open>py_parse_uuid\<close> is \<^verbatim>\<open>UUID(text)\<close>, and \<open>py_round\<close> rounds a rational to the nearest double.
  \<open>py_pow\<close> is float exponentiation (\<open>None\<close> for \<^verbatim>\<open>OverflowError\<close>), \<open>py_mul\<close> float multiplication
  (\<open>None\<close> for an infinite product) and \<open>py_timedelta\<close> is \<^verbatim>\<open>timedelta(seconds=x)\<close> (\<open>None\<close> for
  \<^verbatim>\<open>OverflowError\<close>). Two functions of PostgreSQL are here as well: \<open>pg_seconds\<close> is
  \<^verbatim>\<open>x * interval '1 second'\<close> and \<open>pg_column_size\<close> the stored size of a \<^verbatim>\<open>jsonb\<close> value.
\<close>

record pyenv =
  py_sha256 :: "string \<Rightarrow> int list"
  py_uuid5 :: "string \<Rightarrow> uuid"
  py_float_repr :: "rat \<Rightarrow> string"
  py_repr :: "json \<Rightarrow> string"
  py_isoformat :: "timestamp \<Rightarrow> string"
  py_fromisoformat :: "string \<Rightarrow> (timestamp \<times> bool) option"
  py_parse_uuid :: "string \<Rightarrow> uuid option"
  py_round :: "rat \<Rightarrow> rat"
  py_pow :: "rat \<Rightarrow> int \<Rightarrow> rat option"
  py_mul :: "rat \<Rightarrow> rat \<Rightarrow> rat option"
  py_timedelta :: "rat \<Rightarrow> interval option"
  pg_seconds :: "rat \<Rightarrow> interval"
  pg_column_size :: "json \<Rightarrow> int"

text \<open>\<^verbatim>\<open>timedelta.total_seconds()\<close>: a correctly rounded division of the microseconds.\<close>

definition total_seconds :: "pyenv \<Rightarrow> interval \<Rightarrow> rat" where
  "total_seconds env td = py_round env (of_int td / 1000000)"

section \<open>Canonical JSON\<close>

function digits :: "int \<Rightarrow> string" where
  "digits n = (if n < 10 then [char_of (48 + n)]
     else digits (n div 10) @ [char_of (48 + n mod 10)])"
  by pat_completeness auto
termination
  by (relation "measure nat") auto

declare digits.simps [simp del]

definition int_str :: "int \<Rightarrow> string" where
  "int_str i = (if i < 0 then CHR ''-'' # digits (- i) else digits i)"

text \<open>String escapes of \<^verbatim>\<open>json.dumps\<close> with \<^verbatim>\<open>ensure_ascii=False\<close>.\<close>

definition escape_char :: "char \<Rightarrow> string" where
  "escape_char c =
     (if c = CHR 0x5C then [CHR 0x5C, CHR 0x5C]
      else if c = CHR 0x22 then [CHR 0x5C, CHR 0x22]
      else if c = CHR 0x0A then [CHR 0x5C, CHR ''n'']
      else if c = CHR 0x0D then [CHR 0x5C, CHR ''r'']
      else if c = CHR 0x09 then [CHR 0x5C, CHR ''t'']
      else if c = CHR 0x0C then [CHR 0x5C, CHR ''f'']
      else if c = CHR 0x08 then [CHR 0x5C, CHR ''b'']
      else if of_char c < (32::int)
      then [CHR 0x5C, CHR ''u'', CHR ''0'', CHR ''0'',
            hex_digit (of_char c div 16), hex_digit (of_char c mod 16)]
      else [c])"

definition quote_str :: "string \<Rightarrow> string" where
  "quote_str s = [CHR 0x22] @ concat (map escape_char s) @ [CHR 0x22]"

fun join :: "string \<Rightarrow> string list \<Rightarrow> string" where
  "join sep [] = []"
| "join sep [x] = x"
| "join sep (x # y # ys) = x @ sep @ join sep (y # ys)"

text \<open>\<^verbatim>\<open>json.dumps(value, allow_nan=False, ensure_ascii=False, separators=(",", ":"), sort_keys=True)\<close>.\<close>

primrec canonical_json :: "pyenv \<Rightarrow> json \<Rightarrow> string" where
  "canonical_json env JNull = ''null''"
| "canonical_json env (JBool b) = (if b then ''true'' else ''false'')"
| "canonical_json env (JInt n) = int_str n"
| "canonical_json env (JFloat q) = py_float_repr env q"
| "canonical_json env (JStr s) = quote_str s"
| "canonical_json env (JArr xs) = ''['' @ join '','' (map (canonical_json env) xs) @ '']''"
| "canonical_json env (JObj d) =
     [CHR 0x7B] @
       join '','' (map (\<lambda>(k, t). quote_str k @ '':'' @ t)
         (sort_key fst (map (map_prod id (canonical_json env)) d)))
     @ [CHR 0x7D]"

definition hexdigest :: "int list \<Rightarrow> string" where
  "hexdigest bs = concat (map (\<lambda>b. [hex_digit (b div 16), hex_digit (b mod 16)]) bs)"

definition fingerprint :: "pyenv \<Rightarrow> json \<Rightarrow> string" where
  "fingerprint env v = hexdigest (py_sha256 env (canonical_json env v))"

text \<open>
  \<^verbatim>\<open>clone_json\<close> serialises with sorted keys and parses the text again: the same value, with every
  object in key order.
\<close>

primrec clone_json :: "json \<Rightarrow> json" where
  "clone_json JNull = JNull"
| "clone_json (JBool b) = JBool b"
| "clone_json (JInt n) = JInt n"
| "clone_json (JFloat q) = JFloat q"
| "clone_json (JStr s) = JStr s"
| "clone_json (JArr xs) = JArr (map clone_json xs)"
| "clone_json (JObj d) = JObj (sort_key fst (map (map_prod id clone_json) d))"

text \<open>A copy is a copy: cloning twice changes nothing more.\<close>

lemma sort_key_map_snd:
  "sort_key fst (map (map_prod id f) xs) = map (map_prod id f) (sort_key fst xs)"
proof -
  have ins: "insort_key fst (map_prod id f x) (map (map_prod id f) ys)
      = map (map_prod id f) (insort_key fst x ys)" for x ys
    by (induction ys) (auto simp: map_prod_def split: prod.splits)
  show ?thesis by (induction xs) (simp_all only: list.map sort_key_simps ins)
qed

lemma sort_key_idem [simp]: "sort_key f (sort_key f xs) = sort_key f xs"
  by (rule sort_key_id_if_sorted) (rule sorted_sort_key)

lemma clone_json_idem [simp]: "clone_json (clone_json v) = clone_json v"
proof (induction v)
  case (JObj d)
  then have "map (map_prod id clone_json) (map (map_prod id clone_json) d)
      = map (map_prod id clone_json) d"
    by (auto simp: snds.simps)
  then show ?case
    by (simp only: clone_json.simps sort_key_map_snd[symmetric] sort_key_idem)
qed auto

text \<open>Canonical text does not see the key order that cloning normalises.\<close>

lemma canonical_json_clone [simp]: "canonical_json env (clone_json v) = canonical_json env v"
proof (induction v)
  case (JArr xs)
  then have "map (canonical_json env) (map clone_json xs) = map (canonical_json env) xs"
    by auto
  then show ?case by (simp only: clone_json.simps canonical_json.simps)
next
  case (JObj d)
  then have "map (map_prod id (canonical_json env)) (map (map_prod id clone_json) d)
      = map (map_prod id (canonical_json env)) d"
    by (auto simp: snds.simps)
  then show ?case
    by (simp only: clone_json.simps canonical_json.simps sort_key_map_snd[symmetric] sort_key_idem)
qed auto

end
