(* ===== verification/Context.thy ===== *)
theory Context
  imports History Serialization
begin

text \<open>
  \<^verbatim>\<open>engine/sdk/context.py\<close>, \<^verbatim>\<open>engine/sdk/policies.py\<close> and \<^verbatim>\<open>engine/runtime/commands.py\<close>: the
  commands that replay emits and the \<open>WorkflowContext\<close> whose methods workflow code calls. Each
  method is a function from the context to an outcome (a value, a Python exception, or one of
  the three suspensions) and the updated context.
\<close>

section \<open>Commands and policies\<close>

record schedule_activity =
  sa_command_id :: int
  sa_entity_id :: uuid
  sa_activity_type :: string
  sa_input :: dict
  sa_retry_policy :: dict
  sa_schedule_to_start_seconds :: "rat option"
  sa_start_to_close_seconds :: "rat option"
  sa_heartbeat_timeout_seconds :: "rat option"
  sa_fingerprint :: string

record schedule_timer =
  st_command_id :: int
  st_entity_id :: uuid
  st_delay_seconds :: rat
  st_purpose :: string
  st_signal_name :: "string option"
  st_fingerprint :: string

record record_marker =
  rm_command_id :: int
  rm_marker_type :: string
  rm_value :: json
  rm_fingerprint :: string

record start_child_workflow =
  sc_command_id :: int
  sc_child_workflow_id :: uuid
  sc_workflow_type :: string
  sc_definition_version :: int
  sc_input :: json
  sc_queue_name :: "string option"
  sc_parent_close_policy :: string
  sc_fingerprint :: string

record resolve_workflow_update =
  ru_command_id :: int
  ru_update_id :: string
  ru_accepted :: bool
  ru_outcome :: json
  ru_fingerprint :: string

record continue_as_new_command =
  cn_command_id :: int
  cn_new_workflow_id :: uuid
  cn_workflow_type :: string
  cn_definition_version :: int
  cn_input :: json
  cn_queue_name :: "string option"
  cn_fingerprint :: string

datatype command =
    ContinueAsNew continue_as_new_command
  | RecordMarker record_marker
  | ResolveWorkflowUpdate resolve_workflow_update
  | ScheduleActivity schedule_activity
  | ScheduleTimer schedule_timer
  | StartChildWorkflow start_child_workflow

fun command_id :: "command \<Rightarrow> int" where
  "command_id (ContinueAsNew c) = cn_command_id c"
| "command_id (RecordMarker c) = rm_command_id c"
| "command_id (ResolveWorkflowUpdate c) = ru_command_id c"
| "command_id (ScheduleActivity c) = sa_command_id c"
| "command_id (ScheduleTimer c) = st_command_id c"
| "command_id (StartChildWorkflow c) = sc_command_id c"

record retry_policy =
  rp_max_attempts :: int
  rp_initial_interval :: interval
  rp_backoff_coefficient :: rat
  rp_maximum_interval :: "interval option"

text \<open>The dataclass's default field values.\<close>

definition default_retry_policy :: retry_policy where
  "default_retry_policy =
     \<lparr>rp_max_attempts = 1, rp_initial_interval = 1000000, rp_backoff_coefficient = 2,
      rp_maximum_interval = None\<rparr>"

text \<open>\<^verbatim>\<open>__post_init__\<close>: the checks that make construction raise \<^verbatim>\<open>ValueError\<close>.\<close>

definition RetryPolicy :: "pyenv \<Rightarrow> retry_policy \<Rightarrow> string + retry_policy" where
  "RetryPolicy env p =
     (if rp_max_attempts p < 1 then Inl ''max_attempts must be at least 1''
      else if total_seconds env (rp_initial_interval p) < 0
      then Inl ''initial_interval cannot be negative''
      else if rp_backoff_coefficient p < 1
      then Inl ''backoff_coefficient must be at least 1''
      else if (case rp_maximum_interval p of
                 None \<Rightarrow> False | Some m \<Rightarrow> total_seconds env m < 0)
      then Inl ''maximum_interval cannot be negative''
      else Inr p)"

definition policy_to_json :: "pyenv \<Rightarrow> retry_policy \<Rightarrow> dict" where
  "policy_to_json env p =
     [(''max_attempts'', JInt (rp_max_attempts p)),
      (''initial_interval_seconds'', JFloat (total_seconds env (rp_initial_interval p))),
      (''backoff_coefficient'', JFloat (rp_backoff_coefficient p)),
      (''maximum_interval_seconds'',
        opt_json (\<lambda>m. JFloat (total_seconds env m)) (rp_maximum_interval p))]"

section \<open>Outcomes\<close>

text \<open>
  Why a replay diverges: the detail argument of \<^verbatim>\<open>NonDeterminismError\<close>, as data.
\<close>

datatype divergence =
    ExpectedKind string event_type
  | CommandChanged string
  | NoRecordedIdentity string
  | BadMarkerValue string
  | UpdateWithoutIdentity
  | UnvisitedCommand event_type
  | UnvisitedWithoutId

datatype exn =
    ValueError string
  | NonDeterminismError int divergence
  | ActivityError string json
  | SignalTimeoutError string
  | ChildWorkflowError string json
  | RuntimeError string
  | UnboundName nat
  | UserError string string

text \<open>The subclasses of \<^verbatim>\<open>_ReplaySuspended\<close>.\<close>

datatype suspension =
    NewCommands "command list"
  | Blocked
  | ContinueAsNewRecorded uuid

datatype 'a outcome = Return 'a | Raise exn | Suspend suspension

record activity_call =
  ac_context :: nat
  ac_definition :: string
  ac_args :: "json list"
  ac_kwargs :: dict
  ac_retry :: "retry_policy option"
  ac_schedule_to_start :: "interval option"
  ac_start_to_close :: "interval option"
  ac_heartbeat_timeout :: "interval option"
  ac_command_id :: "int option"

record child_workflow_call =
  cc_context :: nat
  cc_workflow_type :: string
  cc_definition_version :: int
  cc_input :: json
  cc_queue_name :: "string option"
  cc_parent_close_policy :: string

record workflow_update =
  wu_id :: string
  wu_name :: string
  wu_payload :: json

text \<open>
  The context. \<open>cx_self\<close> stands for the object identity that \<^verbatim>\<open>call.context is not self\<close> compares.
  \<open>cx_calls\<close> is the store of the \<^verbatim>\<open>ActivityCall\<close> objects workflow code has created: they are
  mutable (the first evaluation assigns their command id) and may be awaited more than once.
\<close>

record wcontext =
  cx_self :: nat
  cx_workflow_id :: uuid
  cx_history :: history_index
  cx_next_command_id :: int
  cx_consumed_signal_seqs :: "int set"
  cx_consumed_update_seqs :: "int set"
  cx_calls :: "activity_call list"

definition WorkflowContext :: "nat \<Rightarrow> uuid \<Rightarrow> history_index \<Rightarrow> wcontext" where
  "WorkflowContext self workflow_id history =
     \<lparr>cx_self = self, cx_workflow_id = workflow_id, cx_history = history,
      cx_next_command_id = 0, cx_consumed_signal_seqs = {}, cx_consumed_update_seqs = {},
      cx_calls = []\<rparr>"

text \<open>Allocation of the next command id: \<^verbatim>\<open>command_id = self._next_command_id; += 1\<close>.\<close>

definition allocate_command :: "wcontext \<Rightarrow> int \<times> wcontext" where
  "allocate_command cx =
     (cx_next_command_id cx, cx\<lparr>cx_next_command_id := cx_next_command_id cx + 1\<rparr>)"

definition scheduled_get :: "wcontext \<Rightarrow> int \<Rightarrow> history_event option" where
  "scheduled_get cx c = map_of (hi_scheduled (cx_history cx)) c"

text \<open>\<^verbatim>\<open>uuid5(ENTITY_NAMESPACE, f"{workflow_id}:{kind}:{command_id}")\<close>.\<close>

definition entity_name :: "uuid \<Rightarrow> string \<Rightarrow> int \<Rightarrow> string" where
  "entity_name w kind c = uuid_str w @ '':'' @ kind @ '':'' @ int_str c"

definition cancellation_requested :: "wcontext \<Rightarrow> bool" where
  "cancellation_requested cx \<longleftrightarrow> hi_cancellation_requested (cx_history cx) \<noteq> None"

section \<open>Continue as new and child workflows\<close>

definition continue_as_new ::
  "pyenv \<Rightarrow> string \<Rightarrow> int \<Rightarrow> json \<Rightarrow> string option \<Rightarrow> wcontext \<Rightarrow> unit outcome \<times> wcontext" where
  "continue_as_new env name version input queue_name cx =
     (if queue_name = Some [] then (Raise (ValueError ''continuation queue_name cannot be empty''), cx)
      else
        let (c, cx) = allocate_command cx;
            detached_input = clone_json input;
            fp = fingerprint env (JObj
              [(''command_type'', JStr ''continue_as_new''),
               (''workflow_type'', JStr name),
               (''definition_version'', JInt version),
               (''input'', detached_input),
               (''queue_name'', opt_json JStr queue_name)])
        in case scheduled_get cx c of
             None \<Rightarrow>
               (Suspend (NewCommands [ContinueAsNew
                  \<lparr>cn_command_id = c,
                   cn_new_workflow_id =
                     py_uuid5 env (entity_name (cx_workflow_id cx) ''continue-as-new'' c),
                   cn_workflow_type = name, cn_definition_version = version,
                   cn_input = detached_input, cn_queue_name = queue_name,
                   cn_fingerprint = fp\<rparr>]), cx)
           | Some recorded \<Rightarrow>
               if ev_type recorded \<noteq> WorkflowExecutionContinuedAsNew
               then (Raise (NonDeterminismError c
                       (ExpectedKind ''continue-as-new'' (ev_type recorded))), cx)
               else if dget (ev_attributes recorded) ''fingerprint'' \<noteq> JStr fp
               then (Raise (NonDeterminismError c (CommandChanged ''continue-as-new'')), cx)
               else case ev_entity_id recorded of
                      None \<Rightarrow>
                        (Raise (NonDeterminismError c (NoRecordedIdentity ''continuation'')), cx)
                    | Some e \<Rightarrow> (Suspend (ContinueAsNewRecorded e), cx))"

definition child_workflow ::
  "string \<Rightarrow> int \<Rightarrow> json \<Rightarrow> string option \<Rightarrow> string \<Rightarrow> wcontext \<Rightarrow> child_workflow_call outcome" where
  "child_workflow name version input queue_name parent_close_policy cx =
     (if parent_close_policy \<notin> {''terminate'', ''abandon''}
      then Raise (ValueError (''parent_close_policy must be 'terminate' or 'abandon'' @ [CHR 0x27]))
      else if queue_name = Some [] then Raise (ValueError ''child queue_name cannot be empty'')
      else Return \<lparr>cc_context = cx_self cx, cc_workflow_type = name,
                   cc_definition_version = version, cc_input = clone_json input,
                   cc_queue_name = queue_name,
                   cc_parent_close_policy = parent_close_policy\<rparr>)"

text \<open>\<^verbatim>\<open>a or b\<close> on JSON values.\<close>

definition py_or :: "json \<Rightarrow> json \<Rightarrow> json" where
  "py_or a b = (if truthy a then a else b)"

definition evaluate_child_workflow ::
  "pyenv \<Rightarrow> child_workflow_call \<Rightarrow> wcontext \<Rightarrow> json outcome \<times> wcontext" where
  "evaluate_child_workflow env call cx =
     (if cc_context call \<noteq> cx_self cx
      then (Raise (ValueError ''child workflow call belongs to a different workflow context''), cx)
      else
        let (c, cx) = allocate_command cx;
            fp = fingerprint env (JObj
              [(''command_type'', JStr ''child_workflow''),
               (''workflow_type'', JStr (cc_workflow_type call)),
               (''definition_version'', JInt (cc_definition_version call)),
               (''input'', cc_input call),
               (''queue_name'', opt_json JStr (cc_queue_name call)),
               (''parent_close_policy'', JStr (cc_parent_close_policy call))])
        in case scheduled_get cx c of
             None \<Rightarrow>
               (Suspend (NewCommands [StartChildWorkflow
                  \<lparr>sc_command_id = c,
                   sc_child_workflow_id = py_uuid5 env (entity_name (cx_workflow_id cx) ''child'' c),
                   sc_workflow_type = cc_workflow_type call,
                   sc_definition_version = cc_definition_version call,
                   sc_input = clone_json (cc_input call),
                   sc_queue_name = cc_queue_name call,
                   sc_parent_close_policy = cc_parent_close_policy call,
                   sc_fingerprint = fp\<rparr>]), cx)
           | Some scheduled \<Rightarrow>
               if ev_type scheduled \<noteq> ChildWorkflowStarted
               then (Raise (NonDeterminismError c
                       (ExpectedKind ''child workflow'' (ev_type scheduled))), cx)
               else if dget (ev_attributes scheduled) ''fingerprint'' \<noteq> JStr fp
               then (Raise (NonDeterminismError c (CommandChanged ''child workflow'')), cx)
               else case ev_entity_id scheduled of
                      None \<Rightarrow>
                        (Raise (NonDeterminismError c (NoRecordedIdentity ''child workflow'')), cx)
                    | Some e \<Rightarrow>
                        case hi_child_terminal (cx_history cx) e of
                          None \<Rightarrow> (Suspend Blocked, cx)
                        | Some terminal \<Rightarrow>
                            if ev_type terminal = ChildWorkflowCompleted
                            then (Return (clone_json (dget (ev_attributes terminal) ''result'')), cx)
                            else (Raise (ChildWorkflowError (cc_workflow_type call)
                                    (clone_json (py_or (dget (ev_attributes terminal) ''failure'')
                                       (dget (ev_attributes terminal) ''reason'')))), cx))"

section \<open>Markers\<close>

fun int_from_bytes :: "int list \<Rightarrow> int" where
  "int_from_bytes bs = fold (\<lambda>b acc. acc * 256 + b) bs 0"

text \<open>
  \<^verbatim>\<open>_derived_marker_value\<close>: \<open>base_2020\<close> is the timestamp of \<^verbatim>\<open>datetime(2020, 1, 1, tzinfo=UTC)\<close>.
\<close>

definition base_2020 :: timestamp where
  "base_2020 = 1577836800000000"

definition derived_marker_value :: "pyenv \<Rightarrow> string \<Rightarrow> int \<Rightarrow> wcontext \<Rightarrow> string + json" where
  "derived_marker_value env marker_type c cx =
     (let seed = entity_name (cx_workflow_id cx) marker_type c;
          digest = py_sha256 env seed
      in if marker_type = ''now'' then
           let base =
             (case dget (ev_attributes (hd (hi_events (cx_history cx)))) ''started_at'' of
                JStr s \<Rightarrow> (case py_fromisoformat env s of None \<Rightarrow> base_2020 | Some (t, _) \<Rightarrow> t)
              | _ \<Rightarrow> base_2020 + (int_from_bytes (take 4 digest) mod (366 * 24 * 60 * 60)) * 1000000)
           in Inr (JStr (py_isoformat env (base + c)))
         else if marker_type = ''random'' then
           Inr (JFloat (of_int (int_from_bytes (take 8 digest) div 2 ^ 11) / 2 ^ 53))
         else if marker_type = ''uuid'' then Inr (JStr (uuid_str (py_uuid5 env seed)))
         else Inl ''unknown deterministic marker type'')"

definition marker :: "pyenv \<Rightarrow> string \<Rightarrow> wcontext \<Rightarrow> json outcome \<times> wcontext" where
  "marker env marker_type cx =
     (let (c, cx) = allocate_command cx;
          fp = fingerprint env (JObj
            [(''command_type'', JStr ''marker''), (''marker_type'', JStr marker_type)])
      in case scheduled_get cx c of
           None \<Rightarrow>
             (case derived_marker_value env marker_type c cx of
                Inl msg \<Rightarrow> (Raise (ValueError msg), cx)
              | Inr v \<Rightarrow>
                  (Suspend (NewCommands [RecordMarker
                     \<lparr>rm_command_id = c, rm_marker_type = marker_type, rm_value = v,
                      rm_fingerprint = fp\<rparr>]), cx))
         | Some scheduled \<Rightarrow>
             if ev_type scheduled \<noteq> MarkerRecorded
             then (Raise (NonDeterminismError c
                     (ExpectedKind (marker_type @ '' marker'') (ev_type scheduled))), cx)
             else if dget (ev_attributes scheduled) ''marker_type'' \<noteq> JStr marker_type
                \<or> dget (ev_attributes scheduled) ''fingerprint'' \<noteq> JStr fp
             then (Raise (NonDeterminismError c (CommandChanged marker_type)), cx)
             else (Return (clone_json (dget (ev_attributes scheduled) ''value'')), cx))"

text \<open>
  The three typed readers: what \<^verbatim>\<open>now\<close>, \<^verbatim>\<open>random\<close> and \<^verbatim>\<open>uuid\<close> do with the recorded value.
\<close>

definition read_marker ::
  "(json \<Rightarrow> divergence + 'a) \<Rightarrow> json outcome \<times> wcontext \<Rightarrow> 'a outcome \<times> wcontext" where
  "read_marker check r =
     (case r of
        (Return v, cx) \<Rightarrow>
          (case check v of
             Inl d \<Rightarrow> (Raise (NonDeterminismError (cx_next_command_id cx - 1) d), cx)
           | Inr x \<Rightarrow> (Return x, cx))
      | (Raise e, cx) \<Rightarrow> (Raise e, cx)
      | (Suspend s, cx) \<Rightarrow> (Suspend s, cx))"

definition check_now :: "pyenv \<Rightarrow> json \<Rightarrow> divergence + timestamp" where
  "check_now env v =
     (case v of
        JStr s \<Rightarrow>
          (case py_fromisoformat env s of
             None \<Rightarrow> Inl (BadMarkerValue ''now marker is not a timestamp'')
           | Some (t, aware) \<Rightarrow>
               if aware then Inr t else Inl (BadMarkerValue ''now marker has no timezone''))
      | _ \<Rightarrow> Inl (BadMarkerValue ''now marker is not a timestamp''))"

definition check_random :: "json \<Rightarrow> divergence + rat" where
  "check_random v =
     (case v of
        JFloat q \<Rightarrow> if 0 \<le> q \<and> q < 1 then Inr q
                    else Inl (BadMarkerValue ''random marker is invalid'')
      | _ \<Rightarrow> Inl (BadMarkerValue ''random marker is invalid''))"

definition check_uuid :: "pyenv \<Rightarrow> json \<Rightarrow> divergence + uuid" where
  "check_uuid env v =
     (case v of
        JStr s \<Rightarrow>
          (case py_parse_uuid env s of
             None \<Rightarrow> Inl (BadMarkerValue ''UUID marker is invalid'') | Some u \<Rightarrow> Inr u)
      | _ \<Rightarrow> Inl (BadMarkerValue ''UUID marker is invalid''))"

definition now_marker :: "pyenv \<Rightarrow> wcontext \<Rightarrow> timestamp outcome \<times> wcontext" where
  "now_marker env cx = read_marker (check_now env) (marker env ''now'' cx)"

definition random_marker :: "pyenv \<Rightarrow> wcontext \<Rightarrow> rat outcome \<times> wcontext" where
  "random_marker env cx = read_marker check_random (marker env ''random'' cx)"

definition uuid_marker :: "pyenv \<Rightarrow> wcontext \<Rightarrow> uuid outcome \<times> wcontext" where
  "uuid_marker env cx = read_marker (check_uuid env) (marker env ''uuid'' cx)"

section \<open>Activities\<close>

text \<open>\<^verbatim>\<open>ctx.activity(...)\<close> creates a call object in the store and returns its position.\<close>

definition new_activity_call ::
  "string \<Rightarrow> json list \<Rightarrow> dict \<Rightarrow> retry_policy option \<Rightarrow> interval option \<Rightarrow> interval option
    \<Rightarrow> interval option \<Rightarrow> wcontext \<Rightarrow> nat \<times> wcontext" where
  "new_activity_call definition args kwargs retry schedule_to_start start_to_close
     heartbeat_timeout cx =
     (length (cx_calls cx),
      cx\<lparr>cx_calls := cx_calls cx @
           [\<lparr>ac_context = cx_self cx, ac_definition = definition, ac_args = args,
             ac_kwargs = kwargs, ac_retry = retry, ac_schedule_to_start = schedule_to_start,
             ac_start_to_close = start_to_close, ac_heartbeat_timeout = heartbeat_timeout,
             ac_command_id = None\<rparr>]\<rparr>)"

definition not_positive :: "rat option \<Rightarrow> bool" where
  "not_positive s = (case s of None \<Rightarrow> False | Some x \<Rightarrow> x \<le> 0)"

text \<open>The three timeout checks, in the order of the source's loop.\<close>

definition timeout_error :: "rat option \<Rightarrow> rat option \<Rightarrow> rat option \<Rightarrow> string option" where
  "timeout_error s2s s2c hb =
     (if not_positive s2s then Some ''schedule_to_start must be positive''
      else if not_positive s2c then Some ''start_to_close must be positive''
      else if not_positive hb then Some ''heartbeat_timeout must be positive''
      else None)"

text \<open>
  The part of \<^verbatim>\<open>_evaluate_activity\<close> after the command id is fixed: identity, fingerprint, and
  the lookup in the history.
\<close>

definition resolve_activity ::
  "pyenv \<Rightarrow> activity_call \<Rightarrow> int \<Rightarrow> wcontext \<Rightarrow> json outcome" where
  "resolve_activity env call c cx =
     (let policy = (case ac_retry call of None \<Rightarrow> default_retry_policy | Some p \<Rightarrow> p);
          command_input =
            [(''args'', clone_json (JArr (ac_args call))),
             (''kwargs'', clone_json (JObj (ac_kwargs call)))];
          s2s = map_option (total_seconds env) (ac_schedule_to_start call);
          s2c = map_option (total_seconds env) (ac_start_to_close call);
          hb = map_option (total_seconds env) (ac_heartbeat_timeout call)
      in case timeout_error s2s s2c hb of
           Some msg \<Rightarrow> Raise (ValueError msg)
         | None \<Rightarrow>
             let fp = fingerprint env (JObj
                   [(''command_type'', JStr ''activity''),
                    (''activity_type'', JStr (ac_definition call)),
                    (''input'', JObj command_input),
                    (''retry_policy'', JObj (policy_to_json env policy)),
                    (''schedule_to_start_seconds'', opt_json JFloat s2s),
                    (''start_to_close_seconds'', opt_json JFloat s2c),
                    (''heartbeat_timeout_seconds'', opt_json JFloat hb)])
             in case scheduled_get cx c of
                  None \<Rightarrow>
                    Suspend (NewCommands [ScheduleActivity
                      \<lparr>sa_command_id = c,
                       sa_entity_id = py_uuid5 env (entity_name (cx_workflow_id cx) ''activity'' c),
                       sa_activity_type = ac_definition call,
                       sa_input = command_input,
                       sa_retry_policy = policy_to_json env policy,
                       sa_schedule_to_start_seconds = s2s,
                       sa_start_to_close_seconds = s2c,
                       sa_heartbeat_timeout_seconds = hb,
                       sa_fingerprint = fp\<rparr>])
                | Some scheduled \<Rightarrow>
                    if ev_type scheduled \<noteq> ActivityScheduled
                    then Raise (NonDeterminismError c
                           (ExpectedKind ''activity'' (ev_type scheduled)))
                    else if dget (ev_attributes scheduled) ''fingerprint'' \<noteq> JStr fp
                    then Raise (NonDeterminismError c (CommandChanged ''activity''))
                    else case ev_entity_id scheduled of
                           None \<Rightarrow>
                             Raise (NonDeterminismError c (NoRecordedIdentity ''activity''))
                         | Some e \<Rightarrow>
                             case hi_activity_terminal (cx_history cx) e of
                               None \<Rightarrow> Suspend Blocked
                             | Some terminal \<Rightarrow>
                                 if ev_type terminal = ActivityCompleted
                                 then Return (clone_json (dget (ev_attributes terminal) ''result''))
                                 else Raise (ActivityError (ac_definition call)
                                        (clone_json (dget (ev_attributes terminal) ''failure''))))"

text \<open>
  \<^verbatim>\<open>_evaluate_activity\<close> on the call object at position \<open>i\<close>: the first evaluation assigns the
  command id and stores it in the object.
\<close>

definition evaluate_activity :: "pyenv \<Rightarrow> nat \<Rightarrow> wcontext \<Rightarrow> json outcome \<times> wcontext" where
  "evaluate_activity env i cx =
     (if length (cx_calls cx) \<le> i then (Raise (UnboundName i), cx)
      else
        let call = cx_calls cx ! i
        in if ac_context call \<noteq> cx_self cx
           then (Raise (ValueError ''activity call belongs to a different workflow context''), cx)
           else case ac_command_id call of
                  Some c \<Rightarrow> (resolve_activity env call c cx, cx)
                | None \<Rightarrow>
                    let (c, cx) = allocate_command cx;
                        call = call\<lparr>ac_command_id := Some c\<rparr>;
                        cx = cx\<lparr>cx_calls := (cx_calls cx)[i := call]\<rparr>
                    in (resolve_activity env call c cx, cx))"

text \<open>
  The loop of \<^verbatim>\<open>gather\<close>: new commands and blocked calls are collected, any other exception leaves
  the loop at once.
\<close>

fun gather_loop ::
  "pyenv \<Rightarrow> nat list \<Rightarrow> json list \<Rightarrow> command list \<Rightarrow> bool \<Rightarrow> wcontext \<Rightarrow> json list outcome \<times> wcontext"
where
  "gather_loop env [] results missing blocked cx =
     (if missing \<noteq> [] then (Suspend (NewCommands missing), cx)
      else if blocked then (Suspend Blocked, cx)
      else (Return results, cx))"
| "gather_loop env (i # is) results missing blocked cx =
     (case evaluate_activity env i cx of
        (Return v, cx) \<Rightarrow> gather_loop env is (results @ [v]) missing blocked cx
      | (Raise e, cx) \<Rightarrow> (Raise e, cx)
      | (Suspend (NewCommands cs), cx) \<Rightarrow>
          gather_loop env is (results @ [JNull]) (missing @ cs) blocked cx
      | (Suspend Blocked, cx) \<Rightarrow> gather_loop env is (results @ [JNull]) missing True cx
      | (Suspend (ContinueAsNewRecorded w), cx) \<Rightarrow> (Suspend (ContinueAsNewRecorded w), cx))"

definition gather :: "pyenv \<Rightarrow> nat list \<Rightarrow> wcontext \<Rightarrow> json list outcome \<times> wcontext" where
  "gather env calls cx = (if calls = [] then (Return [], cx) else gather_loop env calls [] [] False cx)"

section \<open>Timers, signals and updates\<close>

definition sleep :: "pyenv \<Rightarrow> interval \<Rightarrow> wcontext \<Rightarrow> unit outcome \<times> wcontext" where
  "sleep env duration cx =
     (let (c, cx) = allocate_command cx;
          delay_seconds = total_seconds env duration
      in if delay_seconds < 0 then (Raise (ValueError ''sleep duration cannot be negative''), cx)
         else
           let fp = fingerprint env (JObj
                 [(''command_type'', JStr ''timer''), (''delay_seconds'', JFloat delay_seconds)])
           in case scheduled_get cx c of
                None \<Rightarrow>
                  (Suspend (NewCommands [ScheduleTimer
                     \<lparr>st_command_id = c,
                      st_entity_id = py_uuid5 env (entity_name (cx_workflow_id cx) ''timer'' c),
                      st_delay_seconds = delay_seconds, st_purpose = ''sleep'',
                      st_signal_name = None, st_fingerprint = fp\<rparr>]), cx)
              | Some scheduled \<Rightarrow>
                  if ev_type scheduled \<noteq> TimerStarted
                  then (Raise (NonDeterminismError c
                          (ExpectedKind ''timer'' (ev_type scheduled))), cx)
                  else if dget (ev_attributes scheduled) ''fingerprint'' \<noteq> JStr fp
                  then (Raise (NonDeterminismError c (CommandChanged ''timer'')), cx)
                  else case ev_entity_id scheduled of
                         None \<Rightarrow>
                           (Raise (NonDeterminismError c (NoRecordedIdentity ''timer'')), cx)
                       | Some e \<Rightarrow>
                           case hi_timer_terminal (cx_history cx) e of
                             None \<Rightarrow> (Suspend Blocked, cx)
                           | Some terminal \<Rightarrow>
                               if ev_type terminal = TimerCanceled
                               then (Raise (RuntimeError ''timer was canceled''), cx)
                               else (Return (), cx))"

text \<open>The earliest recorded signal of that name that has not been consumed.\<close>

definition matching_signal :: "string \<Rightarrow> wcontext \<Rightarrow> history_event option" where
  "matching_signal name cx =
     List.find (\<lambda>ev. ev_seq ev \<notin> cx_consumed_signal_seqs cx
         \<and> dget (ev_attributes ev) ''name'' = JStr name)
       (hi_signals (cx_history cx))"

definition consume_signal :: "history_event \<Rightarrow> wcontext \<Rightarrow> json outcome \<times> wcontext" where
  "consume_signal ev cx =
     (Return (clone_json (dget (ev_attributes ev) ''payload'')),
      cx\<lparr>cx_consumed_signal_seqs := insert (ev_seq ev) (cx_consumed_signal_seqs cx)\<rparr>)"

text \<open>
  The end of \<^verbatim>\<open>wait_signal\<close> with a timeout: the signal wins when the timer has not ended or has a
  larger sequence number; otherwise a fired timer times the wait out.
\<close>

definition signal_race ::
  "string \<Rightarrow> history_event option \<Rightarrow> history_event option \<Rightarrow> wcontext \<Rightarrow> json outcome \<times> wcontext"
where
  "signal_race name sig timer_terminal cx =
     (let wins = (case sig of
                    None \<Rightarrow> False
                  | Some ev \<Rightarrow>
                      (case timer_terminal of None \<Rightarrow> True | Some t \<Rightarrow> ev_seq ev < ev_seq t));
          fired = (case timer_terminal of None \<Rightarrow> False | Some t \<Rightarrow> ev_type t = TimerFired)
      in if wins then consume_signal (the sig) cx
         else if fired then (Raise (SignalTimeoutError name), cx)
         else (Suspend Blocked, cx))"

definition wait_signal ::
  "pyenv \<Rightarrow> string \<Rightarrow> interval option \<Rightarrow> wcontext \<Rightarrow> json outcome \<times> wcontext" where
  "wait_signal env name timeout cx =
     (if name = [] then (Raise (ValueError ''signal name cannot be empty''), cx)
      else
        let sig = matching_signal name cx
        in case timeout of
             None \<Rightarrow>
               (case sig of Some ev \<Rightarrow> consume_signal ev cx | None \<Rightarrow> (Suspend Blocked, cx))
           | Some t \<Rightarrow>
               let (c, cx) = allocate_command cx;
                   delay_seconds = total_seconds env t
               in if delay_seconds < 0
                  then (Raise (ValueError ''signal timeout cannot be negative''), cx)
                  else
                    let fp = fingerprint env (JObj
                          [(''command_type'', JStr ''signal_timeout''),
                           (''signal_name'', JStr name),
                           (''delay_seconds'', JFloat delay_seconds)])
                    in case scheduled_get cx c of
                         None \<Rightarrow>
                           (Suspend (NewCommands [ScheduleTimer
                              \<lparr>st_command_id = c,
                               st_entity_id =
                                 py_uuid5 env (entity_name (cx_workflow_id cx) ''signal-timeout'' c),
                               st_delay_seconds = delay_seconds,
                               st_purpose = ''signal_timeout'',
                               st_signal_name = Some name, st_fingerprint = fp\<rparr>]), cx)
                       | Some scheduled \<Rightarrow>
                           if ev_type scheduled \<noteq> TimerStarted
                           then (Raise (NonDeterminismError c
                                   (ExpectedKind ''signal timeout'' (ev_type scheduled))), cx)
                           else if dget (ev_attributes scheduled) ''fingerprint'' \<noteq> JStr fp
                           then (Raise (NonDeterminismError c (CommandChanged ''signal timeout'')), cx)
                           else case ev_entity_id scheduled of
                                  None \<Rightarrow>
                                    (Raise (NonDeterminismError c
                                       (NoRecordedIdentity ''signal timeout'')), cx)
                                | Some e \<Rightarrow>
                                    signal_race name sig (hi_timer_terminal (cx_history cx) e) cx)"

definition matching_update :: "string \<Rightarrow> wcontext \<Rightarrow> history_event option" where
  "matching_update name cx =
     List.find (\<lambda>ev. ev_seq ev \<notin> cx_consumed_update_seqs cx
         \<and> dget (ev_attributes ev) ''name'' = JStr name)
       (hi_updates (cx_history cx))"

definition wait_update :: "string \<Rightarrow> wcontext \<Rightarrow> workflow_update outcome \<times> wcontext" where
  "wait_update name cx =
     (if name = [] then (Raise (ValueError ''update name cannot be empty''), cx)
      else
        case matching_update name cx of
          None \<Rightarrow> (Suspend Blocked, cx)
        | Some ev \<Rightarrow>
            case dget (ev_attributes ev) ''update_id'' of
              JStr u \<Rightarrow>
                (Return \<lparr>wu_id = u, wu_name = name,
                         wu_payload = clone_json (dget (ev_attributes ev) ''payload'')\<rparr>,
                 cx\<lparr>cx_consumed_update_seqs := insert (ev_seq ev) (cx_consumed_update_seqs cx)\<rparr>)
            | _ \<Rightarrow> (Raise (NonDeterminismError (cx_next_command_id cx) UpdateWithoutIdentity), cx))"

definition resolve_update ::
  "pyenv \<Rightarrow> workflow_update \<Rightarrow> json \<Rightarrow> bool \<Rightarrow> wcontext \<Rightarrow> unit outcome \<times> wcontext" where
  "resolve_update env update outcome accepted cx =
     (let (c, cx) = allocate_command cx;
          detached_outcome = clone_json outcome;
          fp = fingerprint env (JObj
            [(''command_type'', JStr ''resolve_update''),
             (''update_id'', JStr (wu_id update)),
             (''accepted'', JBool accepted),
             (''outcome'', detached_outcome)])
      in case scheduled_get cx c of
           None \<Rightarrow>
             (Suspend (NewCommands [ResolveWorkflowUpdate
                \<lparr>ru_command_id = c, ru_update_id = wu_id update, ru_accepted = accepted,
                 ru_outcome = detached_outcome, ru_fingerprint = fp\<rparr>]), cx)
         | Some recorded \<Rightarrow>
             if ev_type recorded \<noteq> WorkflowUpdateResolved
             then (Raise (NonDeterminismError c
                     (ExpectedKind ''update resolution'' (ev_type recorded))), cx)
             else if dget (ev_attributes recorded) ''fingerprint'' \<noteq> JStr fp
             then (Raise (NonDeterminismError c (CommandChanged ''update resolution'')), cx)
             else (Return (), cx))"

end
