(* ===== verification/Py_Strings.thy ===== *)
theory Py_Strings
  imports Prelude
begin

text \<open>
  The functions of Python strings and integers that the parsers of the engine use: \<^verbatim>\<open>split\<close>,
  \<^verbatim>\<open>partition\<close>, \<^verbatim>\<open>strip\<close>, \<^verbatim>\<open>int\<close>, \<^verbatim>\<open>range\<close>, \<^verbatim>\<open>lower\<close> and \<^verbatim>\<open>isalnum\<close>. A character is a code point
  below 256.
\<close>

definition is_space :: "char \<Rightarrow> bool" where
  "is_space c \<longleftrightarrow> (let n = of_char c :: int in
     (9 \<le> n \<and> n \<le> 13) \<or> (28 \<le> n \<and> n \<le> 32) \<or> n = 133 \<or> n = 160)"

definition is_digit :: "char \<Rightarrow> bool" where
  "is_digit c \<longleftrightarrow> (let n = of_char c :: int in 48 \<le> n \<and> n \<le> 57)"

definition digit_value :: "char \<Rightarrow> int" where
  "digit_value c = of_char c - 48"

text \<open>\<^verbatim>\<open>s.split()\<close>: the maximal runs of characters that are not white space.\<close>

fun split_words :: "string \<Rightarrow> string \<Rightarrow> string list" where
  "split_words word [] = (if word = [] then [] else [word])"
| "split_words word (c # s) =
     (if is_space c then (if word = [] then split_words [] s else word # split_words [] s)
      else split_words (word @ [c]) s)"

definition str_split :: "string \<Rightarrow> string list" where
  "str_split s = split_words [] s"

text \<open>\<^verbatim>\<open>s.split(c)\<close>.\<close>

fun split_on :: "char \<Rightarrow> string \<Rightarrow> string list" where
  "split_on c [] = [[]]"
| "split_on c (x # s) =
     (if x = c then [] # split_on c s
      else case split_on c s of [] \<Rightarrow> [[x]] | w # ws \<Rightarrow> (x # w) # ws)"

text \<open>\<^verbatim>\<open>s.partition(c)\<close>: what precedes the first separator, whether there is one, and what follows.\<close>

definition partition_on :: "char \<Rightarrow> string \<Rightarrow> string \<times> bool \<times> string" where
  "partition_on c s =
     (let base = takeWhile (\<lambda>x. x \<noteq> c) s; rest = dropWhile (\<lambda>x. x \<noteq> c) s
      in (base, rest \<noteq> [], tl rest))"

text \<open>
  \<^verbatim>\<open>int(s)\<close>: surrounding white space, one sign, decimal digits with single underscores between them;
  more than 4300 digits are refused. \<open>None\<close> is \<^verbatim>\<open>ValueError\<close>.
\<close>

definition str_strip :: "string \<Rightarrow> string" where
  "str_strip s = rev (dropWhile is_space (rev (dropWhile is_space s)))"

fun read_digits :: "int \<Rightarrow> string \<Rightarrow> int option" where
  "read_digits n [] = Some n"
| "read_digits n (c # s) =
     (if is_digit c then read_digits (10 * n + digit_value c) s
      else if c = CHR ''_'' \<and> s \<noteq> [] \<and> is_digit (hd s) then read_digits n s
      else None)"

definition read_natural :: "string \<Rightarrow> int option" where
  "read_natural s =
     (if s = [] \<or> \<not> is_digit (hd s) \<or> 4300 < int (length (filter is_digit s)) then None
      else read_digits 0 s)"

definition int_of_string :: "string \<Rightarrow> int option" where
  "int_of_string s =
     (case str_strip s of
        [] \<Rightarrow> None
      | c # t \<Rightarrow> if c = CHR ''-'' then map_option uminus (read_natural t)
                else if c = CHR ''+'' then read_natural t
                else read_natural (c # t))"

text \<open>\<^verbatim>\<open>range(start, stop, step)\<close> for a positive step.\<close>

definition py_range :: "int \<Rightarrow> int \<Rightarrow> int \<Rightarrow> int list" where
  "py_range start stop step = map (\<lambda>k. start + k * step) [0..(stop - start - 1) div step]"

lemma set_py_range:
  assumes "0 < step"
  shows "set (py_range start stop step) = {v. start \<le> v \<and> v < stop \<and> step dvd v - start}"
proof (intro equalityI subsetI)
  fix v assume "v \<in> set (py_range start stop step)"
  then obtain k where v: "v = start + k * step" and k: "0 \<le> k" "k \<le> (stop - start - 1) div step"
    by (simp add: py_range_def image_iff) (meson atLeastAtMost_iff)
  have "k * step \<le> (stop - start - 1) div step * step"
    using k(2) assms by (intro mult_right_mono) auto
  moreover have "(stop - start - 1) div step * step \<le> stop - start - 1"
    using assms by (metis div_mult_mod_eq pos_mod_sign le_add_same_cancel1)
  moreover have "0 \<le> k * step" using k(1) assms by simp
  ultimately show "v \<in> {v. start \<le> v \<and> v < stop \<and> step dvd v - start}" by (simp add: v)
next
  fix v assume v: "v \<in> {v. start \<le> v \<and> v < stop \<and> step dvd v - start}"
  then obtain k where k: "v - start = k * step" by (metis dvdE mem_Collect_eq mult.commute)
  have "0 \<le> k * step" using v unfolding k[symmetric] by simp
  then have "0 \<le> k" using assms by (auto simp: zero_le_mult_iff)
  moreover have "k = (v - start) div step" using k assms by simp
  then have "k \<le> (stop - start - 1) div step" using v assms by (auto intro: zdiv_mono1)
  ultimately show "v \<in> set (py_range start stop step)"
    using k by (auto simp: py_range_def intro: image_eqI[of _ _ k])
qed

text \<open>
  \<^verbatim>\<open>str.isalnum\<close> of one character (the letters and the numeric characters of Latin-1) and
  \<^verbatim>\<open>str.lower\<close>.
\<close>

definition is_alnum :: "char \<Rightarrow> bool" where
  "is_alnum c \<longleftrightarrow> (let n = of_char c :: int in
     (48 \<le> n \<and> n \<le> 57) \<or> (65 \<le> n \<and> n \<le> 90) \<or> (97 \<le> n \<and> n \<le> 122)
     \<or> n \<in> {170, 178, 179, 181, 185, 186, 188, 189, 190}
     \<or> (192 \<le> n \<and> n \<le> 255 \<and> n \<noteq> 215 \<and> n \<noteq> 247))"

definition char_lower :: "char \<Rightarrow> char" where
  "char_lower c = (let n = of_char c :: int in
     if (65 \<le> n \<and> n \<le> 90) \<or> (192 \<le> n \<and> n \<le> 222 \<and> n \<noteq> 215) then char_of (n + 32) else c)"

definition str_lower :: "string \<Rightarrow> string" where
  "str_lower s = map char_lower s"

definition hex_char :: "char \<Rightarrow> bool" where
  "hex_char c \<longleftrightarrow> c \<in> set ''0123456789abcdef''"

lemma split_on_nonempty: "split_on c s \<noteq> []"
  by (induction s) (auto split: list.splits)

end
