(* ===== verification/Cron.thy ===== *)
theory Cron
  imports Py_Strings
begin

text \<open>
  \<^verbatim>\<open>engine/runtime/cron.py\<close>: five-field cron expressions and the search for the next matching minute.
  The time zone database behind \<^verbatim>\<open>ZoneInfo\<close> is the parameter
  \<open>zones\<close>: it maps a name to the local calendar of each instant, or to the exception that looking
  the name up raises.
\<close>

section \<open>Expressions\<close>

datatype cron_error =
    InvalidStep string
  | NonPositiveStep
  | InvalidRange string
  | InvalidValue string
  | OutsideBounds string int int
  | NotFiveFields
  | NaiveTimestamp
  | UnknownTimezone string
  | MalformedTimezone string
  | NoOccurrence

record cron_field =
  cf_values :: "int set"
  cf_wildcard :: bool

record cron_expression =
  ce_minute :: cron_field
  ce_hour :: cron_field
  ce_day_of_month :: cron_field
  ce_month :: cron_field
  ce_day_of_week :: cron_field

text \<open>The values of one comma-separated item of a field: the body of the loop of \<^verbatim>\<open>_field\<close>.\<close>

definition item_step :: "string \<Rightarrow> cron_error + int" where
  "item_step item =
     (let (base, separator, step_raw) = partition_on CHR ''/'' item
      in if \<not> separator then Inr 1
         else case int_of_string step_raw of None \<Rightarrow> Inl (InvalidStep item) | Some n \<Rightarrow> Inr n)"

definition item_bounds :: "int \<Rightarrow> int \<Rightarrow> string \<Rightarrow> cron_error + int \<times> int" where
  "item_bounds minimum maximum item =
     (let (base, separator, step_raw) = partition_on CHR ''/'' item
      in if base = ''*'' then Inr (minimum, maximum)
         else if CHR ''-'' \<in> set base
         then (let (start_raw, found, end_raw) = partition_on CHR ''-'' base
               in case (int_of_string start_raw, int_of_string end_raw) of
                    (Some a, Some b) \<Rightarrow> Inr (a, b)
                  | _ \<Rightarrow> Inl (InvalidRange item))
         else case int_of_string base of
                None \<Rightarrow> Inl (InvalidValue item)
              | Some a \<Rightarrow> Inr (a, a))"

definition field_item :: "int \<Rightarrow> int \<Rightarrow> string \<Rightarrow> int set \<Rightarrow> cron_error + int set" where
  "field_item minimum maximum item vs =
     bindR (item_step item) (\<lambda>step.
       if step < 1 then Inl NonPositiveStep
       else bindR (item_bounds minimum maximum item) (\<lambda>(start, end).
         if start < minimum \<or> end > maximum \<or> start > end
         then Inl (OutsideBounds item minimum maximum)
         else Inr (vs \<union> set (py_range start (end + 1) step))))"

definition cron_field_of :: "string \<Rightarrow> int \<Rightarrow> int \<Rightarrow> bool \<Rightarrow> cron_error + cron_field" where
  "cron_field_of raw minimum maximum sunday =
     bindR (foldR (field_item minimum maximum) (split_on CHR '','' raw) {}) (\<lambda>vs.
       Inr \<lparr>cf_values = (if sunday \<and> 7 \<in> vs then insert 0 (vs - {7}) else vs),
            cf_wildcard = (raw = ''*'')\<rparr>)"

fun parse_fields :: "string list \<Rightarrow> cron_error + cron_expression" where
  "parse_fields [f0, f1, f2, f3, f4] =
     bindR (cron_field_of f0 0 59 False) (\<lambda>minute.
     bindR (cron_field_of f1 0 23 False) (\<lambda>hour.
     bindR (cron_field_of f2 1 31 False) (\<lambda>day_of_month.
     bindR (cron_field_of f3 1 12 False) (\<lambda>month.
     bindR (cron_field_of f4 0 7 True) (\<lambda>day_of_week.
       Inr \<lparr>ce_minute = minute, ce_hour = hour, ce_day_of_month = day_of_month,
            ce_month = month, ce_day_of_week = day_of_week\<rparr>)))))"
| "parse_fields _ = Inl NotFiveFields"

definition parse_cron :: "string \<Rightarrow> cron_error + cron_expression" where
  "parse_cron expression = parse_fields (str_split expression)"

section \<open>Matching\<close>

text \<open>What \<^verbatim>\<open>candidate.astimezone(timezone)\<close> is asked for; \<^verbatim>\<open>weekday()\<close> counts from Monday.\<close>

record local_time =
  lo_minute :: int
  lo_hour :: int
  lo_day :: int
  lo_month :: int
  lo_weekday :: int

datatype zone_lookup = ZoneNotFound | ZoneKeyError | Zone "timestamp \<Rightarrow> local_time"

type_synonym zones = "string \<Rightarrow> zone_lookup"

datatype datetime = Naive int | Aware timestamp

definition matches :: "cron_expression \<Rightarrow> local_time \<Rightarrow> bool" where
  "matches parsed local =
     (if lo_minute local \<notin> cf_values (ce_minute parsed)
         \<or> lo_hour local \<notin> cf_values (ce_hour parsed) then False
      else if lo_month local \<notin> cf_values (ce_month parsed) then False
      else
        (let day_of_month = (lo_day local \<in> cf_values (ce_day_of_month parsed));
             cron_weekday = (lo_weekday local + 1) mod 7;
             day_of_week = (cron_weekday \<in> cf_values (ce_day_of_week parsed))
         in if cf_wildcard (ce_day_of_month parsed) then day_of_week
            else if cf_wildcard (ce_day_of_week parsed) then day_of_month
            else day_of_month \<or> day_of_week))"

abbreviation minute_us :: int where "minute_us \<equiv> 60000000"

text \<open>\<^verbatim>\<open>replace(second=0, microsecond=0)\<close> in UTC.\<close>

definition whole_minute :: "timestamp \<Rightarrow> timestamp" where
  "whole_minute t = t div minute_us * minute_us"

text \<open>The \<^verbatim>\<open>for\<close> loop over at most \<open>n\<close> minutes.\<close>

function search_minutes :: "(timestamp \<Rightarrow> bool) \<Rightarrow> int \<Rightarrow> timestamp \<Rightarrow> timestamp option" where
  "search_minutes p n candidate =
     (if n \<le> 0 then None
      else if p candidate then Some candidate
      else search_minutes p (n - 1) (candidate + minute_us))"
  by pat_completeness auto
termination by (relation "measure (\<lambda>(p, n, c). nat n)") auto

declare search_minutes.simps [simp del]

abbreviation five_years :: int where "five_years \<equiv> 60 * 24 * 366 * 5"

definition next_cron_time :: "zones \<Rightarrow> string \<Rightarrow> datetime \<Rightarrow> string \<Rightarrow> cron_error + timestamp" where
  "next_cron_time zones expression after timezone_name =
     (case after of
        Naive t \<Rightarrow> Inl NaiveTimestamp
      | Aware t \<Rightarrow>
          bindR (parse_cron expression) (\<lambda>parsed.
            case zones timezone_name of
              ZoneNotFound \<Rightarrow> Inl (UnknownTimezone timezone_name)
            | ZoneKeyError \<Rightarrow> Inl (MalformedTimezone timezone_name)
            | Zone timezone \<Rightarrow>
                (case search_minutes (\<lambda>c. matches parsed (timezone c)) five_years
                        (whole_minute t + minute_us) of
                   None \<Rightarrow> Inl NoOccurrence
                 | Some c \<Rightarrow> Inr c)))"

section \<open>The parser stays within its bounds\<close>

lemma field_item_bounds:
  assumes "field_item lo hi item vs = Inr vs'"
  shows "vs \<subseteq> vs'" and "vs' \<noteq> {}" and "vs' - vs \<subseteq> {lo..hi}"
proof -
  obtain step start stop where "1 \<le> step" and b: "lo \<le> start" "stop \<le> hi" "start \<le> stop"
    and vs': "vs' = vs \<union> set (py_range start (stop + 1) step)"
    using assms by (auto simp: field_item_def res_simps not_less)
  then have "set (py_range start (stop + 1) step) = {v. start \<le> v \<and> v < stop + 1 \<and> step dvd v - start}"
    by (intro set_py_range) simp
  with vs' b show "vs \<subseteq> vs'" "vs' \<noteq> {}" "vs' - vs \<subseteq> {lo..hi}" by auto
qed

lemma field_items_bounds:
  "foldR (field_item lo hi) items vs = Inr vs' \<Longrightarrow> vs \<subseteq> {lo..hi} \<Longrightarrow>
    vs' \<subseteq> {lo..hi} \<and> vs \<subseteq> vs' \<and> (items \<noteq> [] \<longrightarrow> vs' \<noteq> {})"
proof (induction items arbitrary: vs)
  case (Cons i items)
  then obtain v where v: "field_item lo hi i vs = Inr v" "foldR (field_item lo hi) items v = Inr vs'"
    by (auto simp: res_simps)
  with Cons.IH[OF v(2)] field_item_bounds[OF v(1)] Cons.prems(2) show ?case by blast
qed simp

lemma cron_field_bounds:
  assumes "cron_field_of raw lo hi sunday = Inr f"
  shows "cf_values f \<noteq> {}" and "sunday = False \<Longrightarrow> cf_values f \<subseteq> {lo..hi}"
    and "sunday \<Longrightarrow> cf_values f \<subseteq> insert 0 ({lo..hi} - {7})"
proof -
  obtain vs where vs: "foldR (field_item lo hi) (split_on CHR '','' raw) {} = Inr vs"
    and f: "cf_values f = (if sunday \<and> 7 \<in> vs then insert 0 (vs - {7}) else vs)"
    using assms by (auto simp: cron_field_of_def res_simps)
  have "vs \<subseteq> {lo..hi} \<and> vs \<noteq> {}"
    using field_items_bounds[OF vs] split_on_nonempty by auto
  with f show "cf_values f \<noteq> {}" "sunday = False \<Longrightarrow> cf_values f \<subseteq> {lo..hi}"
    "sunday \<Longrightarrow> cf_values f \<subseteq> insert 0 ({lo..hi} - {7})" by auto
qed

lemma parse_fields_cases:
  assumes "parse_fields fs = Inr e"
  obtains f0 f1 f2 f3 f4 where "fs = [f0, f1, f2, f3, f4]"
    and "cron_field_of f0 0 59 False = Inr (ce_minute e)"
    and "cron_field_of f1 0 23 False = Inr (ce_hour e)"
    and "cron_field_of f2 1 31 False = Inr (ce_day_of_month e)"
    and "cron_field_of f3 1 12 False = Inr (ce_month e)"
    and "cron_field_of f4 0 7 True = Inr (ce_day_of_week e)"
  using assms by (cases fs rule: parse_fields.cases) (auto simp: res_simps)

section \<open>The search finds the first match\<close>

lemma search_minutes_Some:
  "search_minutes p n c = Some r \<longleftrightarrow>
    (\<exists>k. 0 \<le> k \<and> k < n \<and> r = c + k * minute_us \<and> p r \<and> (\<forall>j. 0 \<le> j \<and> j < k \<longrightarrow> \<not> p (c + j * minute_us)))"
  (is "?l = (\<exists>k. ?R n c k)")
proof (induction p n c rule: search_minutes.induct)
  case (1 p n c)
  show ?case
  proof (cases "n \<le> 0 \<or> p c")
    case True
    then show ?thesis
    proof
      assume "n \<le> 0" then show ?thesis by (auto simp: search_minutes.simps[of p n c])
    next
      assume "p c"
      moreover have "k = 0" if "0 \<le> k" "\<forall>j. 0 \<le> j \<and> j < k \<longrightarrow> \<not> p (c + j * minute_us)" for k :: int
        using that(1) that(2)[rule_format, of 0] \<open>p c\<close> by (cases "k = 0") auto
      ultimately show ?thesis
        by (auto simp: search_minutes.simps[of p n c] intro: exI[of _ 0])
    qed
  next
    case False
    then have IH: "search_minutes p n c = Some r \<longleftrightarrow>
        (\<exists>k. 0 \<le> k \<and> k < n - 1 \<and> r = c + minute_us + k * minute_us \<and> p r
          \<and> (\<forall>j. 0 \<le> j \<and> j < k \<longrightarrow> \<not> p (c + minute_us + j * minute_us)))"
      using 1 by (simp add: search_minutes.simps[of p n c])
    also have "\<dots> \<longleftrightarrow> (\<exists>k. 0 \<le> k \<and> k < n \<and> r = c + k * minute_us \<and> p r
        \<and> (\<forall>j. 0 \<le> j \<and> j < k \<longrightarrow> \<not> p (c + j * minute_us)))" (is "?A \<longleftrightarrow> ?B")
    proof
      assume ?A
      then obtain k where k: "0 \<le> k" "k < n - 1" "r = c + minute_us + k * minute_us" "p r"
        "\<forall>j. 0 \<le> j \<and> j < k \<longrightarrow> \<not> p (c + minute_us + j * minute_us)" by blast
      have "\<not> p (c + j * minute_us)" if "0 \<le> j" "j < k + 1" for j
        using that k(5)[rule_format, of "j - 1"] False by (cases "j = 0") (auto simp: algebra_simps)
      with k show ?B by (intro exI[of _ "k + 1"]) (auto simp: algebra_simps)
    next
      assume ?B
      then obtain k where k: "0 \<le> k" "k < n" "r = c + k * minute_us" "p r"
        "\<forall>j. 0 \<le> j \<and> j < k \<longrightarrow> \<not> p (c + j * minute_us)" by blast
      have "k \<noteq> 0" using k False by auto
      moreover have "\<not> p (c + minute_us + j * minute_us)" if "0 \<le> j" "j < k - 1" for j
        using that k(5)[rule_format, of "j + 1"] by (simp add: algebra_simps)
      ultimately show ?A using k by (intro exI[of _ "k - 1"]) (auto simp: algebra_simps)
    qed
    finally show ?thesis .
  qed
qed

end
