(* ===== verification/Database.thy ===== *)
theory Database
  imports Context Cron
begin

text \<open>
  The PostgreSQL schema of \<^verbatim>\<open>migrations/*.sql\<close> and the SQL statements the engine issues. A table is
  a list of records in insertion order. \<^verbatim>\<open>INSERT\<close> checks the table's primary key, foreign keys,
  unique indexes and checks and fails with \<open>IntegrityError\<close>, \<^verbatim>\<open>UPDATE\<close> rewrites the rows that its
  \<^verbatim>\<open>WHERE\<close> clause selects, \<^verbatim>\<open>SELECT\<close> filters, sorts and takes. A transaction is a function from the
  database to an error (everything is rolled back) or to the new database and a result. What a
  transaction reads from outside the database is the record \<open>tx\<close>.
\<close>

section \<open>Rows\<close>

record definition_row =
  wd_workflow_type :: string
  wd_version :: int
  wd_code_hash :: string

datatype workflow_status = WfRunning | WfCompleted | WfFailed | WfTerminated

datatype task_status = TkPending | TkLeased | TkCompleted | TkDead

datatype task_type = WorkflowTask | ActivityTask | TimerTask

datatype update_status = UpPending | UpCompleted | UpRejected

record execution_row =
  ex_id :: uuid
  ex_workflow_type :: string
  ex_definition_version :: int
  ex_input :: json
  ex_status :: workflow_status
  ex_result :: "json option"
  ex_failure :: "json option"
  ex_next_seq :: int
  ex_created_at :: timestamp
  ex_closed_at :: "timestamp option"
  ex_queue_name :: string
  ex_cancellation_requested_at :: "timestamp option"
  ex_cancellation_reason :: "string option"
  ex_search_attributes :: dict
  ex_paused_at :: "timestamp option"
  ex_pause_reason :: "string option"
  ex_retry_of :: "uuid option"
  ex_schedule_id :: "uuid option"
  ex_scheduled_at :: "timestamp option"
  ex_parent_workflow_id :: "uuid option"
  ex_parent_command_id :: "int option"
  ex_parent_close_policy :: "string option"
  ex_continued_from :: "uuid option"
  ex_continued_to :: "uuid option"

record history_row =
  hr_workflow_id :: uuid
  hr_seq :: int
  hr_event_type :: event_type
  hr_command_id :: "int option"
  hr_entity_id :: "uuid option"
  hr_external_id :: "string option"
  hr_attributes :: dict
  hr_created_at :: timestamp

record task_row =
  tk_id :: uuid
  tk_workflow_id :: uuid
  tk_task_type :: task_type
  tk_queue_name :: string
  tk_entity_id :: "uuid option"
  tk_command_id :: "int option"
  tk_attempt :: int
  tk_input :: "json option"
  tk_status :: task_status
  tk_visible_at :: timestamp
  tk_schedule_to_start_deadline :: "timestamp option"
  tk_start_to_close_deadline :: "timestamp option"
  tk_heartbeat_timeout :: "interval option"
  tk_leased_at :: "timestamp option"
  tk_lease_token :: "uuid option"
  tk_lease_expires_at :: "timestamp option"
  tk_heartbeat_at :: "timestamp option"
  tk_heartbeat_details :: "json option"
  tk_created_at :: timestamp
  tk_completed_at :: "timestamp option"
  tk_start_to_close_timeout :: "interval option"
  tk_schedule_to_start_timeout :: "interval option"

record update_row =
  up_workflow_id :: uuid
  up_update_id :: string
  up_name :: string
  up_payload :: json
  up_status :: update_status
  up_result :: "json option"
  up_failure :: "json option"
  up_created_at :: timestamp
  up_completed_at :: "timestamp option"

record audit_context =
  au_request_id :: uuid
  au_actor_key_id :: string
  au_actor_role :: string
  au_action :: string

record audit_row =
  al_occurred_at :: timestamp
  al_context :: audit_context
  al_workflow_id :: "uuid option"
  al_accepted :: bool
  al_details :: json

record effect_row =
  ef_idempotency_key :: string
  ef_payload :: json
  ef_recorded_at :: timestamp

datatype overlap_policy = OverlapAllow | OverlapSkip | OverlapBufferOne

datatype occurrence_status = OcStarted | OcSkipped | OcBuffered

record schedule_row =
  sd_id :: uuid
  sd_name :: string
  sd_workflow_type :: string
  sd_definition_version :: int
  sd_input :: json
  sd_queue_name :: string
  sd_search_attributes :: dict
  sd_cron_expression :: string
  sd_timezone :: string
  sd_overlap_policy :: overlap_policy
  sd_next_run_at :: timestamp
  sd_last_run_at :: "timestamp option"
  sd_paused_at :: "timestamp option"
  sd_created_at :: timestamp
  sd_updated_at :: timestamp

record occurrence_row =
  oc_schedule_id :: uuid
  oc_scheduled_at :: timestamp
  oc_status :: occurrence_status
  oc_workflow_id :: "uuid option"
  oc_reason :: "string option"
  oc_created_at :: timestamp

record worker_row =
  wk_worker_id :: uuid
  wk_hostname :: string
  wk_process_id :: int
  wk_queue_name :: string
  wk_roles :: "string list"
  wk_started_at :: timestamp
  wk_last_seen_at :: timestamp
  wk_stopped_at :: "timestamp option"

record db =
  db_definitions :: "definition_row list"
  db_executions :: "execution_row list"
  db_history :: "history_row list"
  db_tasks :: "task_row list"
  db_updates :: "update_row list"
  db_effects :: "effect_row list"
  db_audit :: "audit_row list"
  db_schedules :: "schedule_row list"
  db_occurrences :: "occurrence_row list"
  db_workers :: "worker_row list"

definition empty_db :: db where
  "empty_db = \<lparr>db_definitions = [], db_executions = [], db_history = [], db_tasks = [],
     db_updates = [], db_effects = [], db_audit = [], db_schedules = [], db_occurrences = [],
     db_workers = []\<rparr>"

text \<open>
  What a transaction reads besides the tables: SQL \<^verbatim>\<open>now()\<close> (one value per transaction), the values
  that the calls of \<^verbatim>\<open>datetime.now(UTC)\<close> and \<^verbatim>\<open>uuid4()\<close> return, numbered in the order of the
  calls, \<^verbatim>\<open>random.random()\<close>, and the ids of the task and schedule rows that other transactions
  have locked (\<^verbatim>\<open>for update skip locked\<close> does not see them).
\<close>

record tx =
  tx_now :: timestamp
  tx_clock :: "nat \<Rightarrow> timestamp"
  tx_uuid :: "nat \<Rightarrow> uuid"
  tx_random :: rat
  tx_locked :: "uuid list"

section \<open>Errors\<close>

datatype db_error =
    BadValue string
  | BadType string
  | Overflow
  | TransitionError string
  | DefinitionNotRegisteredError string int
  | StoredDefinitionConflictError string int
  | TerminalWorkflowError uuid workflow_status
  | StaleLeaseError uuid
  | ActivityCancellationRequested uuid "string option"
  | IntegrityError string
  | RecursionError
  | CronError cron_error

type_synonym 'a txn = "db \<Rightarrow> db_error + db \<times> 'a"

text \<open>A value bound as \<^verbatim>\<open>jsonb\<close> and read back: the same value with keys in order.\<close>

definition jsonb_object :: "dict \<Rightarrow> dict" where
  "jsonb_object d = sort_key fst (map (map_prod id clone_json) d)"

lemma jsonb_object_clone: "JObj (jsonb_object d) = clone_json (JObj d)"
  by (simp add: jsonb_object_def)

text \<open>\<^verbatim>\<open>len(text.encode())\<close>.\<close>

definition utf8_length :: "string \<Rightarrow> int" where
  "utf8_length s = sum_list (map (\<lambda>c. if of_char c < (128::int) then 1 else 2) s)"

section \<open>Reading\<close>

definition find_execution :: "db \<Rightarrow> uuid \<Rightarrow> execution_row option" where
  "find_execution d w = List.find (\<lambda>e. ex_id e = w) (db_executions d)"

definition find_schedule :: "db \<Rightarrow> uuid \<Rightarrow> schedule_row option" where
  "find_schedule d i = List.find (\<lambda>s. sd_id s = i) (db_schedules d)"

definition find_task :: "db \<Rightarrow> uuid \<Rightarrow> task_row option" where
  "find_task d i = List.find (\<lambda>t. tk_id t = i) (db_tasks d)"

definition find_update :: "db \<Rightarrow> uuid \<Rightarrow> string \<Rightarrow> update_row option" where
  "find_update d w u = List.find (\<lambda>r. up_workflow_id r = w \<and> up_update_id r = u) (db_updates d)"

definition definition_exists :: "db \<Rightarrow> string \<Rightarrow> int \<Rightarrow> bool" where
  "definition_exists d n v =
     list_ex (\<lambda>r. wd_workflow_type r = n \<and> wd_version r = v) (db_definitions d)"

definition workflow_history :: "db \<Rightarrow> uuid \<Rightarrow> history_row list" where
  "workflow_history d w = filter (\<lambda>r. hr_workflow_id r = w) (db_history d)"

section \<open>Constraints\<close>

text \<open>The row checks of \<^verbatim>\<open>workflow_executions\<close> and \<^verbatim>\<open>tasks\<close>.\<close>

definition not_negative :: "int option \<Rightarrow> bool" where
  "not_negative c = (case c of None \<Rightarrow> False | Some n \<Rightarrow> 0 \<le> n)"

definition execution_check :: "execution_row \<Rightarrow> bool" where
  "execution_check e \<longleftrightarrow>
     0 < ex_next_seq e
     \<and> (case ex_status e of
          WfRunning \<Rightarrow> ex_closed_at e = None \<and> ex_result e = None \<and> ex_failure e = None
        | WfCompleted \<Rightarrow> ex_closed_at e \<noteq> None \<and> ex_failure e = None
        | _ \<Rightarrow> ex_closed_at e \<noteq> None \<and> ex_result e = None)
     \<and> ((ex_parent_workflow_id e = None \<and> ex_parent_command_id e = None
          \<and> ex_parent_close_policy e = None)
        \<or> (ex_parent_workflow_id e \<noteq> None
          \<and> not_negative (ex_parent_command_id e)
          \<and> ex_parent_close_policy e \<in> {Some ''terminate'', Some ''abandon''}))
     \<and> ex_continued_from e \<noteq> Some (ex_id e) \<and> ex_continued_to e \<noteq> Some (ex_id e)"

definition positive :: "interval option \<Rightarrow> bool" where
  "positive i = (case i of None \<Rightarrow> True | Some x \<Rightarrow> 0 < x)"

definition task_check :: "task_row \<Rightarrow> bool" where
  "task_check t \<longleftrightarrow>
     0 < tk_attempt t
     \<and> (case tk_status t of
          TkPending \<Rightarrow> tk_leased_at t = None \<and> tk_lease_token t = None
            \<and> tk_lease_expires_at t = None \<and> tk_completed_at t = None
        | TkLeased \<Rightarrow> tk_leased_at t \<noteq> None \<and> tk_lease_token t \<noteq> None
            \<and> tk_lease_expires_at t \<noteq> None \<and> tk_completed_at t = None
        | _ \<Rightarrow> tk_completed_at t \<noteq> None)
     \<and> (if tk_task_type t = WorkflowTask then tk_entity_id t = None \<and> tk_command_id t = None
        else tk_entity_id t \<noteq> None \<and> not_negative (tk_command_id t))
     \<and> positive (tk_heartbeat_timeout t) \<and> positive (tk_start_to_close_timeout t)
     \<and> positive (tk_schedule_to_start_timeout t)"

text \<open>The statement fails when any constraint of the list does not hold.\<close>

definition check_all :: "(string \<times> bool) list \<Rightarrow> 'a \<Rightarrow> db_error + 'a" where
  "check_all cs x =
     (case List.find (\<lambda>(n, b). \<not> b) cs of None \<Rightarrow> Inr x | Some (n, b) \<Rightarrow> Inl (IntegrityError n))"

lemma check_all_Inr [res_simps]:
  "check_all cs x = Inr y \<longleftrightarrow> y = x \<and> list_all snd cs"
proof (induction cs)
  case (Cons c cs)
  then show ?case by (cases c) (auto simp: check_all_def)
qed (auto simp: check_all_def)

section \<open>Writing\<close>

definition opt_exists :: "('a \<Rightarrow> bool) \<Rightarrow> 'a option \<Rightarrow> bool" where
  "opt_exists p x = (case x of None \<Rightarrow> True | Some v \<Rightarrow> p v)"

definition execution_exists :: "db \<Rightarrow> uuid \<Rightarrow> bool" where
  "execution_exists d w = list_ex (\<lambda>e. ex_id e = w) (db_executions d)"

definition schedule_exists :: "db \<Rightarrow> uuid \<Rightarrow> bool" where
  "schedule_exists d i = list_ex (\<lambda>s. sd_id s = i) (db_schedules d)"

definition insert_execution :: "pyenv \<Rightarrow> execution_row \<Rightarrow> db \<Rightarrow> db_error + db" where
  "insert_execution env e d =
     check_all
       [(''workflow_executions_pkey'', \<not> execution_exists d (ex_id e)),
        (''workflow_executions_definition_fkey'',
          definition_exists d (ex_workflow_type e) (ex_definition_version e)),
        (''workflow_executions_check'', execution_check e),
        (''search_attributes_are_bounded'',
          pg_column_size env (JObj (ex_search_attributes e)) \<le> 16384),
        (''workflow_executions_schedule_id_fkey'',
          opt_exists (schedule_exists d) (ex_schedule_id e)),
        (''workflow_executions_retry_of_fkey'', opt_exists (execution_exists d) (ex_retry_of e)),
        (''workflow_executions_parent_fkey'',
          opt_exists (execution_exists d) (ex_parent_workflow_id e)),
        (''workflow_executions_continued_from_fkey'',
          opt_exists (execution_exists d) (ex_continued_from e)),
        (''one_child_per_parent_command'',
          ex_parent_workflow_id e = None
          \<or> list_all (\<lambda>r. (ex_parent_workflow_id r, ex_parent_command_id r)
                 \<noteq> (ex_parent_workflow_id e, ex_parent_command_id e)) (db_executions d)),
        (''one_continuation_from_execution'',
          ex_continued_from e = None
          \<or> list_all (\<lambda>r. ex_continued_from r \<noteq> ex_continued_from e) (db_executions d))]
       (d\<lparr>db_executions := db_executions d @ [e]\<rparr>)"

definition is_command_event :: "event_type \<Rightarrow> bool" where
  "is_command_event t \<longleftrightarrow>
     t \<in> {ActivityScheduled, TimerStarted, MarkerRecorded, ChildWorkflowStarted,
          WorkflowUpdateResolved, WorkflowExecutionContinuedAsNew}"

definition insert_history :: "history_row \<Rightarrow> db \<Rightarrow> db_error + db" where
  "insert_history r d =
     check_all
       [(''history_events_workflow_id_fkey'', execution_exists d (hr_workflow_id r)),
        (''history_events_seq_check'', 0 < hr_seq r),
        (''history_events_command_id_check'', opt_exists (\<lambda>c. 0 \<le> c) (hr_command_id r)),
        (''history_events_pkey'',
          list_all (\<lambda>x. (hr_workflow_id x, hr_seq x) \<noteq> (hr_workflow_id r, hr_seq r))
            (db_history d)),
        (''one_scheduled_command'',
          hr_command_id r = None \<or> \<not> is_command_event (hr_event_type r)
          \<or> list_all (\<lambda>x. \<not> is_command_event (hr_event_type x)
                 \<or> (hr_workflow_id x, hr_command_id x) \<noteq> (hr_workflow_id r, hr_command_id r))
              (db_history d)),
        (''one_external_event'',
          hr_external_id r = None
          \<or> list_all (\<lambda>x. (hr_workflow_id x, hr_external_id x)
                 \<noteq> (hr_workflow_id r, hr_external_id r)) (db_history d))]
       (d\<lparr>db_history := db_history d @ [r]\<rparr>)"

definition insert_task :: "task_row \<Rightarrow> db \<Rightarrow> db_error + db" where
  "insert_task t d =
     check_all
       [(''tasks_pkey'', list_all (\<lambda>x. tk_id x \<noteq> tk_id t) (db_tasks d)),
        (''tasks_workflow_id_fkey'', execution_exists d (tk_workflow_id t)),
        (''tasks_check'', task_check t),
        (''one_entity_attempt'',
          tk_entity_id t = None
          \<or> list_all (\<lambda>x. (tk_workflow_id x, tk_task_type x, tk_entity_id x, tk_attempt x)
                 \<noteq> (tk_workflow_id t, tk_task_type t, tk_entity_id t, tk_attempt t))
              (db_tasks d))]
       (d\<lparr>db_tasks := db_tasks d @ [t]\<rparr>)"

definition insert_update :: "update_row \<Rightarrow> db \<Rightarrow> db_error + db" where
  "insert_update u d =
     check_all
       [(''workflow_updates_workflow_id_fkey'', execution_exists d (up_workflow_id u)),
        (''workflow_updates_pkey'', find_update d (up_workflow_id u) (up_update_id u) = None),
        (''workflow_updates_update_id_check'',
          1 \<le> length (up_update_id u) \<and> length (up_update_id u) \<le> 200),
        (''workflow_updates_name_check'', 1 \<le> length (up_name u) \<and> length (up_name u) \<le> 200)]
       (d\<lparr>db_updates := db_updates d @ [u]\<rparr>)"

text \<open>The tables of \<^verbatim>\<open>migrations/0012_durable_schedules.sql\<close>.\<close>

definition insert_schedule :: "pyenv \<Rightarrow> schedule_row \<Rightarrow> db \<Rightarrow> db_error + db" where
  "insert_schedule env s d =
     check_all
       [(''workflow_schedules_pkey'', \<not> schedule_exists d (sd_id s)),
        (''workflow_schedules_name_key'',
          list_all (\<lambda>r. sd_name r \<noteq> sd_name s) (db_schedules d)),
        (''workflow_schedules_definition_fkey'',
          definition_exists d (sd_workflow_type s) (sd_definition_version s)),
        (''workflow_schedules_name_check'',
          1 \<le> int (length (sd_name s)) \<and> int (length (sd_name s)) \<le> 200),
        (''workflow_schedules_queue_name_check'',
          1 \<le> int (length (sd_queue_name s)) \<and> int (length (sd_queue_name s)) \<le> 200),
        (''workflow_schedules_search_attributes_check'',
          pg_column_size env (JObj (sd_search_attributes s)) \<le> 16384)]
       (d\<lparr>db_schedules := db_schedules d @ [s]\<rparr>)"

definition occurrence_check :: "occurrence_row \<Rightarrow> bool" where
  "occurrence_check r \<longleftrightarrow> (oc_status r = OcStarted \<longleftrightarrow> oc_workflow_id r \<noteq> None)"

definition insert_occurrence :: "occurrence_row \<Rightarrow> db \<Rightarrow> db_error + db" where
  "insert_occurrence r d =
     check_all
       [(''schedule_occurrences_schedule_id_fkey'', schedule_exists d (oc_schedule_id r)),
        (''schedule_occurrences_workflow_id_fkey'',
          opt_exists (execution_exists d) (oc_workflow_id r)),
        (''schedule_occurrences_pkey'',
          list_all (\<lambda>o'. (oc_schedule_id o', oc_scheduled_at o')
              \<noteq> (oc_schedule_id r, oc_scheduled_at r)) (db_occurrences d)),
        (''schedule_occurrences_check'', occurrence_check r),
        (''one_buffered_occurrence_per_schedule'',
          oc_status r \<noteq> OcBuffered
          \<or> list_all (\<lambda>o'. oc_status o' \<noteq> OcBuffered \<or> oc_schedule_id o' \<noteq> oc_schedule_id r)
              (db_occurrences d))]
       (d\<lparr>db_occurrences := db_occurrences d @ [r]\<rparr>)"

definition update_schedule :: "uuid \<Rightarrow> (schedule_row \<Rightarrow> schedule_row) \<Rightarrow> db \<Rightarrow> db" where
  "update_schedule i f d =
     d\<lparr>db_schedules := map (\<lambda>s. if sd_id s = i then f s else s) (db_schedules d)\<rparr>"

definition update_occurrences ::
  "(occurrence_row \<Rightarrow> bool) \<Rightarrow> (occurrence_row \<Rightarrow> occurrence_row) \<Rightarrow> db \<Rightarrow> db" where
  "update_occurrences p f d =
     d\<lparr>db_occurrences := map (\<lambda>r. if p r then f r else r) (db_occurrences d)\<rparr>"

definition update_executions ::
  "(execution_row \<Rightarrow> bool) \<Rightarrow> (execution_row \<Rightarrow> execution_row) \<Rightarrow> db \<Rightarrow> db" where
  "update_executions p f d =
     d\<lparr>db_executions := map (\<lambda>e. if p e then f e else e) (db_executions d)\<rparr>"

definition update_tasks :: "(task_row \<Rightarrow> bool) \<Rightarrow> (task_row \<Rightarrow> task_row) \<Rightarrow> db \<Rightarrow> db" where
  "update_tasks p f d = d\<lparr>db_tasks := map (\<lambda>t. if p t then f t else t) (db_tasks d)\<rparr>"

definition update_updates :: "(update_row \<Rightarrow> bool) \<Rightarrow> (update_row \<Rightarrow> update_row) \<Rightarrow> db \<Rightarrow> db" where
  "update_updates p f d = d\<lparr>db_updates := map (\<lambda>u. if p u then f u else u) (db_updates d)\<rparr>"

text \<open>Every update of one execution is \<^verbatim>\<open>where id = $1\<close>.\<close>

definition update_execution :: "uuid \<Rightarrow> (execution_row \<Rightarrow> execution_row) \<Rightarrow> db \<Rightarrow> db" where
  "update_execution w f = update_executions (\<lambda>e. ex_id e = w) f"

text \<open>\<^verbatim>\<open>update workflow_executions set next_seq = $2 where id = $1\<close>.\<close>

definition set_next_seq :: "uuid \<Rightarrow> int \<Rightarrow> db \<Rightarrow> db" where
  "set_next_seq w n = update_execution w (\<lambda>e. e\<lparr>ex_next_seq := n\<rparr>)"

section \<open>Statements shared by the transitions\<close>

text \<open>
  \<^verbatim>\<open>insert into history_events (...) values (...)\<close>; the columns a statement does not name are null.
\<close>

definition history_entry ::
  "tx \<Rightarrow> uuid \<Rightarrow> int \<Rightarrow> event_type \<Rightarrow> int option \<Rightarrow> uuid option \<Rightarrow> string option \<Rightarrow> dict \<Rightarrow> history_row"
where
  "history_entry x w n ty c e ext attrs =
     \<lparr>hr_workflow_id = w, hr_seq = n, hr_event_type = ty, hr_command_id = c, hr_entity_id = e,
      hr_external_id = ext, hr_attributes = jsonb_object attrs, hr_created_at = tx_now x\<rparr>"

definition insert_event ::
  "tx \<Rightarrow> uuid \<Rightarrow> int \<Rightarrow> event_type \<Rightarrow> int option \<Rightarrow> uuid option \<Rightarrow> string option \<Rightarrow> dict \<Rightarrow> db
    \<Rightarrow> db_error + db" where
  "insert_event x w n ty c e ext attrs = insert_history (history_entry x w n ty c e ext attrs)"

text \<open>
  \<^verbatim>\<open>insert into tasks (id, workflow_id, task_type, queue_name) values ($1, $2, 'workflow', $3)\<close> with
  the column defaults.
\<close>

definition workflow_task :: "tx \<Rightarrow> uuid \<Rightarrow> uuid \<Rightarrow> string \<Rightarrow> task_row" where
  "workflow_task x i w q =
     \<lparr>tk_id = i, tk_workflow_id = w, tk_task_type = WorkflowTask, tk_queue_name = q,
      tk_entity_id = None, tk_command_id = None, tk_attempt = 1, tk_input = None,
      tk_status = TkPending, tk_visible_at = tx_now x, tk_schedule_to_start_deadline = None,
      tk_start_to_close_deadline = None, tk_heartbeat_timeout = None, tk_leased_at = None,
      tk_lease_token = None, tk_lease_expires_at = None, tk_heartbeat_at = None,
      tk_heartbeat_details = None, tk_created_at = tx_now x, tk_completed_at = None,
      tk_start_to_close_timeout = None, tk_schedule_to_start_timeout = None\<rparr>"

definition insert_workflow_task :: "tx \<Rightarrow> uuid \<Rightarrow> uuid \<Rightarrow> string \<Rightarrow> db \<Rightarrow> db_error + db" where
  "insert_workflow_task x i w q = insert_task (workflow_task x i w q)"

definition open_task :: "task_row \<Rightarrow> bool" where
  "open_task t \<longleftrightarrow> tk_status t \<in> {TkPending, TkLeased}"

text \<open>\<^verbatim>\<open>set status = ..., completed_at = now()\<close>.\<close>

definition finish_task :: "tx \<Rightarrow> task_status \<Rightarrow> task_row \<Rightarrow> task_row" where
  "finish_task x s t = t\<lparr>tk_status := s, tk_completed_at := Some (tx_now x)\<rparr>"

text \<open>
  \<^verbatim>\<open>update tasks set status = 'dead', completed_at = now() where workflow_id = $1 and status in
  ('pending', 'leased')\<close>, and the variant that spares the task being committed.
\<close>

definition kill_tasks :: "tx \<Rightarrow> uuid \<Rightarrow> db \<Rightarrow> db" where
  "kill_tasks x w =
     update_tasks (\<lambda>t. tk_workflow_id t = w \<and> open_task t) (finish_task x TkDead)"

definition kill_other_tasks :: "tx \<Rightarrow> uuid \<Rightarrow> uuid \<Rightarrow> db \<Rightarrow> db" where
  "kill_other_tasks x w i =
     update_tasks (\<lambda>t. tk_workflow_id t = w \<and> tk_id t \<noteq> i \<and> open_task t) (finish_task x TkDead)"

text \<open>\<^verbatim>\<open>record_api_audit\<close> of \<^verbatim>\<open>engine/persistence/audit.py\<close>.\<close>

definition record_api_audit ::
  "tx \<Rightarrow> audit_context option \<Rightarrow> uuid option \<Rightarrow> bool \<Rightarrow> json \<Rightarrow> db \<Rightarrow> db_error + db" where
  "record_api_audit x context w accepted details d =
     (case context of
        None \<Rightarrow> Inr d
      | Some a \<Rightarrow>
          check_all
            [(''api_audit_log_actor_role_check'',
               au_actor_role a \<in> {''viewer'', ''operator'', ''admin''}),
             (''api_audit_log_workflow_id_fkey'', opt_exists (execution_exists d) w)]
            (d\<lparr>db_audit := db_audit d @
               [\<lparr>al_occurred_at = tx_now x, al_context = a, al_workflow_id = w,
                 al_accepted = accepted, al_details = clone_json (clone_json details)\<rparr>]\<rparr>))"

text \<open>\<^verbatim>\<open>history_event_from_row\<close>.\<close>

definition history_event_from_row :: "history_row \<Rightarrow> history_event" where
  "history_event_from_row r =
     \<lparr>ev_seq = hr_seq r, ev_type = hr_event_type r, ev_attributes = hr_attributes r,
      ev_command_id = hr_command_id r, ev_entity_id = hr_entity_id r,
      ev_external_id = hr_external_id r\<rparr>"

end
