(* ===== verification/Leasing.thy ===== *)
theory Leasing
  imports Database
begin

text \<open>
  \<^verbatim>\<open>engine/persistence/leasing.py\<close>: task leases. A lease is a token and an expiry time on the task
  row; every later statement of the owner names the token, which is how a late owner is fenced
  off.
\<close>

section \<open>Operations\<close>

text \<open>\<^verbatim>\<open>LeasedTask\<close>.\<close>

record leased_task =
  lt_id :: uuid
  lt_workflow_id :: uuid
  lt_task_type :: task_type
  lt_queue_name :: string
  lt_entity_id :: "uuid option"
  lt_command_id :: "int option"
  lt_attempt :: int
  lt_input :: json
  lt_lease_token :: uuid
  lt_leased_at :: timestamp
  lt_lease_expires_at :: timestamp
  lt_start_to_close_deadline :: "timestamp option"

text \<open>
  \<^verbatim>\<open>id = $1 and status = 'leased' and lease_token = $2 and lease_expires_at > now()\<close>: the guard of
  every statement a lease owner issues.
\<close>

definition holds_lease :: "tx \<Rightarrow> uuid \<Rightarrow> uuid \<Rightarrow> task_row \<Rightarrow> bool" where
  "holds_lease x i token t \<longleftrightarrow>
     tk_id t = i \<and> tk_status t = TkLeased \<and> tk_lease_token t = Some token
     \<and> (case tk_lease_expires_at t of None \<Rightarrow> False | Some e \<Rightarrow> tx_now x < e)"

definition renew_lease :: "pyenv \<Rightarrow> tx \<Rightarrow> uuid \<Rightarrow> uuid \<Rightarrow> interval \<Rightarrow> timestamp txn" where
  "renew_lease env x task_id lease_token lease_duration d =
     (if total_seconds env lease_duration \<le> 0 then Inl (BadValue ''lease_duration must be positive'')
      else if \<not> list_ex (holds_lease x task_id lease_token) (db_tasks d)
      then Inl (StaleLeaseError task_id)
      else
        let expires_at = tx_now x + lease_duration
        in Inr (update_tasks (holds_lease x task_id lease_token)
                  (\<lambda>t. t\<lparr>tk_lease_expires_at := Some expires_at\<rparr>) d, expires_at))"

definition heartbeat_activity ::
  "pyenv \<Rightarrow> tx \<Rightarrow> uuid \<Rightarrow> uuid \<Rightarrow> json \<Rightarrow> interval \<Rightarrow> timestamp txn" where
  "heartbeat_activity env x task_id lease_token details lease_duration d =
     (if total_seconds env lease_duration \<le> 0 then Inl (BadValue ''lease_duration must be positive'')
      else
        let mine = (\<lambda>t. holds_lease x task_id lease_token t \<and> tk_task_type t = ActivityTask)
        in case List.find (\<lambda>t. mine t \<and> execution_exists d (tk_workflow_id t)) (db_tasks d) of
             None \<Rightarrow> Inl (StaleLeaseError task_id)
           | Some t \<Rightarrow>
               (case find_execution d (tk_workflow_id t) of
                  None \<Rightarrow> Inl (StaleLeaseError task_id)
                | Some e \<Rightarrow>
                    if ex_cancellation_requested_at e \<noteq> None
                    then Inl (ActivityCancellationRequested task_id (ex_cancellation_reason e))
                    else
                      let expires_at = tx_now x + lease_duration
                      in Inr (update_tasks mine
                                (\<lambda>t. t\<lparr>tk_heartbeat_at := Some (tx_now x),
                                       tk_heartbeat_details := Some (clone_json details),
                                       tk_lease_expires_at := Some expires_at\<rparr>) d, expires_at)))"

definition lease_expired :: "tx \<Rightarrow> task_row \<Rightarrow> bool" where
  "lease_expired x t = (case tk_lease_expires_at t of None \<Rightarrow> False | Some e \<Rightarrow> e \<le> tx_now x)"

definition reclaim_expired_workflow_tasks :: "tx \<Rightarrow> int \<Rightarrow> int txn" where
  "reclaim_expired_workflow_tasks x limit d =
     (if limit < 1 then Inl (BadValue ''limit must be at least 1'')
      else
        let expired = select_limit limit
              (\<lambda>t. tk_task_type t = WorkflowTask \<and> tk_status t = TkLeased \<and> lease_expired x t
                 \<and> tk_id t \<notin> set (tx_locked x)
                 \<and> (case find_execution d (tk_workflow_id t) of
                      None \<Rightarrow> False | Some e \<Rightarrow> ex_status e = WfRunning))
              (\<lambda>t. (the (tk_lease_expires_at t), tk_id t)) (db_tasks d);
            ids = map tk_id expired
        in Inr (update_tasks (\<lambda>t. tk_id t \<in> set ids)
                  (\<lambda>t. t\<lparr>tk_status := TkPending, tk_visible_at := tx_now x, tk_leased_at := None,
                         tk_lease_token := None, tk_lease_expires_at := None,
                         tk_start_to_close_deadline := None, tk_heartbeat_at := None,
                         tk_heartbeat_details := None\<rparr>) d,
                int (length expired)))"

definition release_workflow_task :: "pyenv \<Rightarrow> tx \<Rightarrow> leased_task \<Rightarrow> interval \<Rightarrow> unit txn" where
  "release_workflow_task env x task retry_delay d =
     (if lt_task_type task \<noteq> WorkflowTask
      then Inl (BadValue ''only workflow tasks can be released for version routing'')
      else if total_seconds env retry_delay < 0
      then Inl (BadValue ''retry_delay cannot be negative'')
      else
        let mine = holds_lease x (lt_id task) (lt_lease_token task)
        in if length (filter mine (db_tasks d)) \<noteq> 1 then Inl (StaleLeaseError (lt_id task))
           else Inr (update_tasks mine
                  (\<lambda>t. t\<lparr>tk_status := TkPending, tk_visible_at := tx_now x + retry_delay,
                         tk_leased_at := None, tk_lease_token := None,
                         tk_lease_expires_at := None\<rparr>) d, ()))"

text \<open>The rows that \<^verbatim>\<open>_lease_candidate\<close> may take.\<close>

definition leasable :: "tx \<Rightarrow> task_type \<Rightarrow> string \<Rightarrow> db \<Rightarrow> task_row \<Rightarrow> bool" where
  "leasable x task_type queue_name d t \<longleftrightarrow>
     tk_status t = TkPending \<and> tk_task_type t = task_type \<and> tk_queue_name t = queue_name
     \<and> tk_visible_at t \<le> tx_now x \<and> tk_id t \<notin> set (tx_locked x)
     \<and> (case find_execution d (tk_workflow_id t) of
          None \<Rightarrow> False
        | Some e \<Rightarrow> ex_status e = WfRunning \<and> ex_paused_at e = None
            \<and> (task_type \<noteq> ActivityTask \<or> ex_cancellation_requested_at e = None))"

definition lease_candidate :: "tx \<Rightarrow> task_type \<Rightarrow> string \<Rightarrow> db \<Rightarrow> task_row option" where
  "lease_candidate x task_type queue_name d =
     select_first (leasable x task_type queue_name d)
       (\<lambda>t. (tk_visible_at t, tk_created_at t, tk_id t)) (db_tasks d)"

definition take_lease :: "tx \<Rightarrow> uuid \<Rightarrow> interval \<Rightarrow> task_row \<Rightarrow> task_row" where
  "take_lease x token lease_duration t =
     t\<lparr>tk_status := TkLeased, tk_leased_at := Some (tx_now x), tk_lease_token := Some token,
       tk_lease_expires_at := Some (tx_now x + lease_duration),
       tk_start_to_close_deadline :=
         (if tk_task_type t = ActivityTask
          then Some (tx_now x + (case tk_start_to_close_timeout t of
                                   None \<Rightarrow> lease_duration | Some s \<Rightarrow> s))
          else None),
       tk_heartbeat_at :=
         (if tk_task_type t = ActivityTask \<and> tk_heartbeat_timeout t \<noteq> None
          then Some (tx_now x) else tk_heartbeat_at t)\<rparr>"

definition leased_task_of :: "tx \<Rightarrow> uuid \<Rightarrow> interval \<Rightarrow> task_row \<Rightarrow> leased_task" where
  "leased_task_of x token lease_duration t =
     \<lparr>lt_id = tk_id t, lt_workflow_id = tk_workflow_id t, lt_task_type = tk_task_type t,
      lt_queue_name = tk_queue_name t, lt_entity_id = tk_entity_id t,
      lt_command_id = tk_command_id t, lt_attempt = tk_attempt t,
      lt_input = (case tk_input t of None \<Rightarrow> JNull | Some v \<Rightarrow> v),
      lt_lease_token = token, lt_leased_at = tx_now x,
      lt_lease_expires_at = tx_now x + lease_duration,
      lt_start_to_close_deadline =
        tk_start_to_close_deadline (take_lease x token lease_duration t)\<rparr>"

definition lease_task ::
  "pyenv \<Rightarrow> tx \<Rightarrow> task_type \<Rightarrow> string \<Rightarrow> interval \<Rightarrow> leased_task option txn" where
  "lease_task env x task_type queue_name lease_duration d =
     (if queue_name = [] then Inl (BadValue ''queue_name cannot be empty'')
      else if total_seconds env lease_duration \<le> 0
      then Inl (BadValue ''lease_duration must be positive'')
      else
        let lease_token = tx_uuid x 0
        in case lease_candidate x task_type queue_name d of
             None \<Rightarrow> Inr (d, None)
           | Some candidate \<Rightarrow>
               let leased = update_tasks
                     (\<lambda>t. tk_id t = tk_id candidate \<and> tk_status t = TkPending)
                     (take_lease x lease_token lease_duration) d;
                   result = Some (leased_task_of x lease_token lease_duration candidate)
               in if task_type \<noteq> ActivityTask then Inr (leased, result)
                  else
                    case find_execution d (tk_workflow_id candidate) of
                      None \<Rightarrow> Inr (d, None)
                    | Some e \<Rightarrow>
                        if ex_status e \<noteq> WfRunning then Inr (d, None)
                        else
                          bindR (insert_event x (tk_workflow_id candidate) (ex_next_seq e)
                                   ActivityStarted None (tk_entity_id candidate) None
                                   [(''attempt'', JInt (tk_attempt candidate)),
                                    (''task_id'', JStr (uuid_str (tk_id candidate)))] leased)
                            (\<lambda>d. Inr (set_next_seq (tk_workflow_id candidate) (ex_next_seq e + 1) d,
                                      result)))"

end
