(* ===== verification/Context_Laws.thy ===== *)
theory Context_Laws
  imports Context
begin

text \<open>
  The contract that every awaited operation of the workflow context meets, as the locale
  \<open>context_operation\<close> with what replay derives from it, and its interpretation on each
  operation of \<^verbatim>\<open>engine/sdk/context.py\<close>. The central clause is that an answer read from a
  history is the same answer when the history has grown.
\<close>

section \<open>The contract of a context operation\<close>

text \<open>
  What replay relies on in every operation that workflow code awaits. The history is only read;
  command ids are allocated upwards; a new command has an id that the history does not hold and
  that this run has allocated; an answer is the same over a longer history (\<open>settled_grows\<close>);
  and a missing command is issued again, unchanged, as long as it has not been recorded
  (\<open>reissues\<close>).
\<close>

definition grow :: "history_index \<Rightarrow> wcontext \<Rightarrow> wcontext" where
  "grow ix cx = cx\<lparr>cx_history := ix\<rparr>"

fun settled :: "'a outcome \<Rightarrow> bool" where
  "settled (Suspend (NewCommands cs)) = False"
| "settled (Suspend Blocked) = False"
| "settled _ = True"

lemma settled_map_outcome [simp]: "settled (map_outcome f r) = settled r"
  by (cases r rule: settled.cases) simp_all

definition resume ::
  "'a outcome \<times> wcontext \<Rightarrow> (exn + 'a \<Rightarrow> wcontext \<Rightarrow> 'b outcome \<times> wcontext) \<Rightarrow> 'b outcome \<times> wcontext"
where
  "resume r k =
     (case r of
        (Return v, cx) \<Rightarrow> k (Inr v) cx
      | (Raise e, cx) \<Rightarrow> k (Inl e) cx
      | (Suspend s, cx) \<Rightarrow> (Suspend s, cx))"

lemma resume_simps [simp]:
  "resume (Return v, cx) k = k (Inr v) cx"
  "resume (Raise e, cx) k = k (Inl e) cx"
  "resume (Suspend s, cx) k = (Suspend s, cx)"
  by (simp_all add: resume_def)

text \<open>A property of whatever the operation's answer is handed to.\<close>

definition holds_after :: "'a outcome \<times> wcontext \<Rightarrow> (exn + 'a \<Rightarrow> wcontext \<Rightarrow> bool) \<Rightarrow> bool" where
  "holds_after r Q =
     (case r of
        (Return v, cx) \<Rightarrow> Q (Inr v) cx
      | (Raise e, cx) \<Rightarrow> Q (Inl e) cx
      | (Suspend s, cx) \<Rightarrow> True)"

lemma holds_after_simps [simp]:
  "holds_after (Return v, cx) Q = Q (Inr v) cx"
  "holds_after (Raise e, cx) Q = Q (Inl e) cx"
  "holds_after (Suspend s, cx) Q = True"
  by (simp_all add: holds_after_def)

definition new_commands_ok :: "wcontext \<Rightarrow> command list \<Rightarrow> wcontext \<Rightarrow> bool" where
  "new_commands_ok cx cs cx1 \<longleftrightarrow>
     cs \<noteq> []
     \<and> (\<forall>c\<in>set cs. scheduled_get cx (command_id c) = None \<and> command_id c < cx_next_command_id cx1)"

definition same_commands :: "history_index \<Rightarrow> history_index \<Rightarrow> bool" where
  "same_commands ix ix' \<longleftrightarrow> map_of (hi_scheduled ix') = map_of (hi_scheduled ix)"

text \<open>
  Ids stored in call objects were allocated by this context; the freshness of the commands that
  evaluating such a call issues rests on it.
\<close>

definition calls_ok :: "wcontext \<Rightarrow> bool" where
  "calls_ok cx \<longleftrightarrow>
     (\<forall>call\<in>set (cx_calls cx). \<forall>c. ac_command_id call = Some c \<longrightarrow> c < cx_next_command_id cx)"

locale context_operation =
  fixes op :: "wcontext \<Rightarrow> 'a outcome \<times> wcontext"
  assumes keeps_history: "op cx = (r, cx1) \<Longrightarrow> cx_history cx1 = cx_history cx"
    and ids_grow: "op cx = (r, cx1) \<Longrightarrow> cx_next_command_id cx \<le> cx_next_command_id cx1"
    and settled_grows: "op cx = (r, cx1) \<Longrightarrow> settled r \<Longrightarrow> index_le (cx_history cx) ix'
      \<Longrightarrow> op (grow ix' cx) = (r, grow ix' cx1)"
    and reissues: "op cx = (Suspend (NewCommands cs), cx1) \<Longrightarrow> index_le (cx_history cx) ix'
      \<Longrightarrow> same_commands (cx_history cx) ix'
      \<Longrightarrow> op (grow ix' cx) = (Suspend (NewCommands cs), grow ix' cx1)"
    and keeps_calls: "op cx = (r, cx1) \<Longrightarrow> calls_ok cx \<Longrightarrow> calls_ok cx1"
    and fresh_commands: "op cx = (Suspend (NewCommands cs), cx1) \<Longrightarrow> calls_ok cx
      \<Longrightarrow> new_commands_ok cx cs cx1"
begin

text \<open>Tagging the answer does not touch the contract.\<close>

lemma tagged: "context_operation (\<lambda>cx. map_prod (map_outcome f) id (op cx))"
proof (unfold_locales, goal_cases)
  case (3 cx r cx1 ix')
  then obtain q where q: "op cx = (q, cx1)" "r = map_outcome f q" by (cases "op cx") auto
  with 3 have "settled q" by simp
  with settled_grows[OF q(1) _ 3(3)] q(2) show ?case by simp
next
  case (4 cx cs cx1 ix')
  then have "op cx = (Suspend (NewCommands cs), cx1)"
    by (cases "op cx"; cases "fst (op cx)") auto
  from reissues[OF this 4(2,3)] show ?case by simp
next
  case (6 cx cs cx1)
  then have "op cx = (Suspend (NewCommands cs), cx1)"
    by (cases "op cx"; cases "fst (op cx)") auto
  from fresh_commands[OF this 6(2)] show ?case .
qed (auto simp: map_prod_def split: prod.splits dest: keeps_history ids_grow keeps_calls)

lemma resume_keeps_history:
  assumes "resume (op cx) k = (r, cx1)"
    and "\<And>a cx. k a cx = (r, cx1) \<Longrightarrow> cx_history cx1 = cx_history cx"
  shows "cx_history cx1 = cx_history cx"
  using assms keeps_history[of cx] by (cases "op cx"; cases "fst (op cx)") auto

lemma resume_fresh_commands:
  assumes "resume (op cx) k = (Suspend (NewCommands cs), cx1)" and "calls_ok cx"
    and "\<And>a cx. k a cx = (Suspend (NewCommands cs), cx1) \<Longrightarrow> calls_ok cx
      \<Longrightarrow> new_commands_ok cx cs cx1"
  shows "new_commands_ok cx cs cx1"
proof (cases "op cx")
  case (Pair q cx2)
  have "scheduled_get cx2 = scheduled_get cx"
    using keeps_history[OF Pair] by (simp add: scheduled_get_def fun_eq_iff)
  then have "new_commands_ok cx2 cs cx1 \<Longrightarrow> new_commands_ok cx cs cx1"
    by (simp add: new_commands_ok_def)
  with assms Pair fresh_commands keeps_calls[OF Pair] show ?thesis by (cases q) auto
qed

text \<open>Whatever does not wait for more history is answered again over a longer one.\<close>

lemma decision_grows:
  assumes "op cx = (r, cx1)" and "r \<noteq> Suspend Blocked" and "index_le (cx_history cx) ix'"
    and "same_commands (cx_history cx) ix'"
  shows "op (grow ix' cx) = (r, grow ix' cx1)"
  using assms settled_grows[OF assms(1) _ assms(3)] reissues[OF _ assms(3,4)]
  by (cases r rule: settled.cases) auto

lemma resume_decision_grows:
  assumes "resume (op cx) k = (r, cx1)" and "r \<noteq> Suspend Blocked"
    and "index_le (cx_history cx) ix'" and "same_commands (cx_history cx) ix'"
    and "holds_after (op cx) Q"
    and "\<And>a cx2. cx_history cx2 = cx_history cx \<Longrightarrow> Q a cx2 \<Longrightarrow> k a cx2 = (r, cx1)
      \<Longrightarrow> k a (grow ix' cx2) = (r, grow ix' cx1)"
  shows "resume (op (grow ix' cx)) k = (r, grow ix' cx1)"
proof (cases "op cx")
  case (Pair q cx2)
  then have "q \<noteq> Suspend Blocked" using assms(1,2) by auto
  from decision_grows[OF Pair this assms(3,4)] Pair assms(1,5,6) keeps_history[OF Pair] show ?thesis
    by (cases q) auto
qed

end

subsection \<open>Reading a grown history\<close>

lemma index_le_scheduled:
  "index_le (cx_history cx) ix' \<Longrightarrow> scheduled_get cx c = Some s \<Longrightarrow>
    scheduled_get (grow ix' cx) c = Some s"
  by (auto simp: index_le_def scheduled_get_def grow_def map_le_def dom_def)

lemma same_commands_scheduled:
  "same_commands (cx_history cx) ix' \<Longrightarrow> scheduled_get (grow ix' cx) c = scheduled_get cx c"
  by (simp add: same_commands_def scheduled_get_def grow_def)

lemma index_le_terminals:
  "index_le ix ix' \<Longrightarrow> hi_activity_terminal ix e = Some t \<Longrightarrow> hi_activity_terminal ix' e = Some t"
  "index_le ix ix' \<Longrightarrow> hi_timer_terminal ix e = Some t \<Longrightarrow> hi_timer_terminal ix' e = Some t"
  "index_le ix ix' \<Longrightarrow> hi_child_terminal ix e = Some t \<Longrightarrow> hi_child_terminal ix' e = Some t"
  by (auto simp: index_le_def map_le_def dom_def)

lemma grow_simps [simp]:
  "cx_history (grow ix cx) = ix"
  "cx_self (grow ix cx) = cx_self cx"
  "cx_workflow_id (grow ix cx) = cx_workflow_id cx"
  "cx_next_command_id (grow ix cx) = cx_next_command_id cx"
  "cx_consumed_signal_seqs (grow ix cx) = cx_consumed_signal_seqs cx"
  "cx_consumed_update_seqs (grow ix cx) = cx_consumed_update_seqs cx"
  "cx_calls (grow ix cx) = cx_calls cx"
  by (simp_all add: grow_def)

lemma allocate_grow [simp]:
  "allocate_command (grow ix cx) =
    (fst (allocate_command cx), grow ix (snd (allocate_command cx)))"
  by (simp add: allocate_command_def grow_def)

lemma allocate_simps [simp]:
  "cx_history (snd (allocate_command cx)) = cx_history cx"
  "cx_workflow_id (snd (allocate_command cx)) = cx_workflow_id cx"
  "cx_self (snd (allocate_command cx)) = cx_self cx"
  "cx_calls (snd (allocate_command cx)) = cx_calls cx"
  "cx_next_command_id (snd (allocate_command cx)) = cx_next_command_id cx + 1"
  "cx_consumed_signal_seqs (snd (allocate_command cx)) = cx_consumed_signal_seqs cx"
  "fst (allocate_command cx) = cx_next_command_id cx"
  by (simp_all add: allocate_command_def)

lemma scheduled_get_allocate [simp]:
  "scheduled_get (snd (allocate_command cx)) c = scheduled_get cx c"
  by (simp add: scheduled_get_def)

subsection \<open>The operations meet the contract\<close>

lemmas operation_simps =
  Let_def split_def new_commands_ok_def index_le_scheduled index_le_terminals
  same_commands_scheduled

lemma calls_ok_allocate [simp]: "calls_ok cx \<Longrightarrow> calls_ok (snd (allocate_command cx))"
  by (fastforce simp: calls_ok_def)

lemma calls_ok_consumed [simp]:
  "calls_ok (cx\<lparr>cx_consumed_signal_seqs := s\<rparr>) = calls_ok cx"
  "calls_ok (cx\<lparr>cx_consumed_update_seqs := s\<rparr>) = calls_ok cx"
  by (simp_all add: calls_ok_def)

lemma scheduled_get_calls [simp]:
  "scheduled_get (cx\<lparr>cx_calls := cs\<rparr>) c = scheduled_get cx c"
  by (simp add: scheduled_get_def)

lemma scheduled_get_grow_allocate [simp]:
  "scheduled_get (grow ix (snd (allocate_command cx))) c = scheduled_get (grow ix cx) c"
  by (simp add: scheduled_get_def)

lemma grow_calls [simp]: "(grow ix cx)\<lparr>cx_calls := cs\<rparr> = grow ix (cx\<lparr>cx_calls := cs\<rparr>)"
  by (simp add: grow_def)

interpretation sleep_op: context_operation "sleep env duration" for env duration
  by unfold_locales
    (auto simp: sleep_def operation_simps split: if_splits option.splits)

text \<open>Activities: the lookup for a fixed command id, then the call object.\<close>

lemma resolve_activity_settled:
  assumes "settled (resolve_activity env call c cx)" and "index_le (cx_history cx) ix'"
  shows "resolve_activity env call c (grow ix' cx) = resolve_activity env call c cx"
proof (cases "scheduled_get cx c")
  case None
  with assms(1) show ?thesis
    by (auto simp: resolve_activity_def Let_def split: option.splits)
next
  case (Some s)
  note s = index_le_scheduled[OF assms(2) Some] Some
  show ?thesis
  proof (cases "\<exists>e t. ev_entity_id s = Some e \<and> hi_activity_terminal (cx_history cx) e = Some t")
    case True
    then show ?thesis
      using s index_le_terminals(1)[OF assms(2)] by (auto simp: resolve_activity_def Let_def split: option.splits)
  next
    case False
    with assms(1) s show ?thesis
      by (auto simp: resolve_activity_def Let_def split: option.splits if_splits)
  qed
qed

lemma resolve_activity_new:
  assumes "resolve_activity env call c cx = Suspend (NewCommands cs)"
  shows "\<exists>a. cs = [ScheduleActivity a] \<and> sa_command_id a = c \<and> scheduled_get cx c = None"
    and "same_commands (cx_history cx) ix' \<Longrightarrow>
      resolve_activity env call c (grow ix' cx) = Suspend (NewCommands cs)"
  using assms
  by (auto simp: resolve_activity_def operation_simps split: option.splits if_splits)

lemma calls_ok_update:
  assumes "calls_ok cx" and "call = cx_calls cx ! i"
  shows "calls_ok ((snd (allocate_command cx))
    \<lparr>cx_calls := (cx_calls cx)[i := call\<lparr>ac_command_id := Some (cx_next_command_id cx)\<rparr>]\<rparr>)"
  using assms set_update_subset_insert[of "cx_calls cx" i]
  by (fastforce simp: calls_ok_def)

lemma calls_okD:
  "calls_ok cx \<Longrightarrow> \<not> length (cx_calls cx) \<le> i \<Longrightarrow> ac_command_id (cx_calls cx ! i) = Some c
    \<Longrightarrow> c < cx_next_command_id cx"
  by (meson calls_ok_def linorder_not_le nth_mem)

interpretation activity_op: context_operation "evaluate_activity env i" for env i
proof unfold_locales
  fix cx cx1 ix' cs and r :: "json outcome"
  let ?op = "evaluate_activity env i"
  show "?op cx = (r, cx1) \<Longrightarrow> cx_history cx1 = cx_history cx"
    by (auto simp: evaluate_activity_def Let_def split_def split: if_splits option.splits)
  show "?op cx = (r, cx1) \<Longrightarrow> cx_next_command_id cx \<le> cx_next_command_id cx1"
    by (auto simp: evaluate_activity_def Let_def split_def split: if_splits option.splits)
  show "?op cx = (r, cx1) \<Longrightarrow> settled r \<Longrightarrow> index_le (cx_history cx) ix'
      \<Longrightarrow> ?op (grow ix' cx) = (r, grow ix' cx1)"
    by (auto simp: evaluate_activity_def Let_def split_def resolve_activity_settled
        split: if_splits option.splits)
  show "?op cx = (Suspend (NewCommands cs), cx1) \<Longrightarrow> index_le (cx_history cx) ix'
      \<Longrightarrow> same_commands (cx_history cx) ix'
      \<Longrightarrow> ?op (grow ix' cx) = (Suspend (NewCommands cs), grow ix' cx1)"
    by (auto simp: evaluate_activity_def Let_def split_def resolve_activity_new(2)
        split: if_splits option.splits)
  show "?op cx = (r, cx1) \<Longrightarrow> calls_ok cx \<Longrightarrow> calls_ok cx1"
    by (auto simp: evaluate_activity_def Let_def split_def calls_ok_update
        split: if_splits option.splits)
  show "?op cx = (Suspend (NewCommands cs), cx1) \<Longrightarrow> calls_ok cx \<Longrightarrow> new_commands_ok cx cs cx1"
    by (auto simp: evaluate_activity_def Let_def split_def new_commands_ok_def
        split: if_splits option.splits dest!: resolve_activity_new(1) intro: calls_okD)
qed

lemma find_append:
  "List.find P (xs @ ys) = (case List.find P xs of None \<Rightarrow> List.find P ys | Some x \<Rightarrow> Some x)"
  by (induction xs) auto

lemma matching_grow:
  assumes "index_le (cx_history cx) ix'"
  shows "matching_signal name cx = Some ev \<Longrightarrow> matching_signal name (grow ix' cx) = Some ev"
    and "matching_update name cx = Some ev \<Longrightarrow> matching_update name (grow ix' cx) = Some ev"
  using assms
  by (auto simp: matching_signal_def matching_update_def index_le_def find_append)

lemma signal_race_grow:
  assumes le: "index_le (cx_history cx) ix'"
    and race: "signal_race name (matching_signal name cx) (hi_timer_terminal (cx_history cx) e) cx2
      = (r, cx1)" and "settled r"
  shows "signal_race name (matching_signal name (grow ix' cx)) (hi_timer_terminal ix' e) (grow ix' cx2)
      = (r, grow ix' cx1)"
proof -
  have t: "hi_timer_terminal (cx_history cx) e = Some t \<Longrightarrow> hi_timer_terminal ix' e = Some t" for t
    using index_le_terminals(2)[OF le] .
  have late_signal: "ev_seq t < ev_seq ev"
    if "matching_signal name cx = None" "matching_signal name (grow ix' cx) = Some ev"
      "hi_timer_terminal (cx_history cx) e = Some t" for ev t
  proof -
    obtain xs where xs: "hi_signals ix' = hi_signals (cx_history cx) @ xs"
      "\<forall>t\<in>ran (hi_timer_terminal (cx_history cx)). \<forall>x\<in>set xs. ev_seq t < ev_seq x"
      using le unfolding index_le_def by blast
    then have "ev \<in> set xs"
      using that(1,2) by (auto simp: matching_signal_def find_append find_Some_iff)
    with xs(2) that(3) show ?thesis by (auto simp: ran_def)
  qed
  have late_timer: "ev_seq ev < ev_seq t"
    if "matching_signal name cx = Some ev" "hi_timer_terminal (cx_history cx) e = None"
      "hi_timer_terminal ix' e = Some t" for ev t
  proof -
    have "ev \<in> set (hi_signals (cx_history cx))"
      using that(1) by (auto simp: matching_signal_def find_Some_iff)
    then show ?thesis using le that(2,3) unfolding index_le_def by blast
  qed
  show ?thesis
  proof (cases "hi_timer_terminal (cx_history cx) e")
    case None
    then obtain ev where ev: "matching_signal name cx = Some ev"
      using race \<open>settled r\<close> by (cases "matching_signal name cx") (auto simp: signal_race_def)
    with None race late_timer[OF ev None] matching_grow(1)[OF le ev] show ?thesis
      by (auto simp: signal_race_def consume_signal_def grow_def split: option.splits)
  next
    case (Some t)
    note t = t[OF Some]
    show ?thesis
    proof (cases "matching_signal name cx")
      case None
      with race Some \<open>settled r\<close> have "ev_type t = TimerFired" and "r = Raise (SignalTimeoutError name)"
        and "cx1 = cx2"
        by (auto simp: signal_race_def split: if_splits)
      moreover have "matching_signal name (grow ix' cx) = Some ev \<Longrightarrow> \<not> ev_seq ev < ev_seq t" for ev
        using late_signal[OF None _ Some] by fastforce
      ultimately show ?thesis
        using t by (auto simp: signal_race_def split: option.splits)
    next
      case (Some ev)
      with race t \<open>hi_timer_terminal (cx_history cx) e = Some t\<close> matching_grow(1)[OF le Some]
        \<open>settled r\<close>
      show ?thesis
        by (auto simp: signal_race_def consume_signal_def grow_def split: if_splits)
    qed
  qed
qed

interpretation wait_signal_op: context_operation "wait_signal env name timeout" for env name timeout
proof unfold_locales
  fix cx cx1 ix' cs and r :: "json outcome"
  let ?op = "wait_signal env name timeout"
  note defs = wait_signal_def signal_race_def consume_signal_def Let_def split_def
  have m: "matching_signal name (snd (allocate_command cx)) = matching_signal name cx" for cx
    by (simp add: matching_signal_def)
  show "?op cx = (r, cx1) \<Longrightarrow> cx_history cx1 = cx_history cx"
    by (auto simp: defs split: if_splits option.splits)
  show "?op cx = (r, cx1) \<Longrightarrow> cx_next_command_id cx \<le> cx_next_command_id cx1"
    by (auto simp: defs split: if_splits option.splits)
  show "?op cx = (r, cx1) \<Longrightarrow> calls_ok cx \<Longrightarrow> calls_ok cx1"
    by (auto simp: defs split: if_splits option.splits)
  show "?op cx = (Suspend (NewCommands cs), cx1) \<Longrightarrow> calls_ok cx \<Longrightarrow> new_commands_ok cx cs cx1"
    by (auto simp: defs new_commands_ok_def split: if_splits option.splits)
  show "?op cx = (Suspend (NewCommands cs), cx1) \<Longrightarrow> index_le (cx_history cx) ix'
      \<Longrightarrow> same_commands (cx_history cx) ix'
      \<Longrightarrow> ?op (grow ix' cx) = (Suspend (NewCommands cs), grow ix' cx1)"
    by (auto simp: defs same_commands_scheduled split: if_splits option.splits)
  assume op: "?op cx = (r, cx1)" and r: "settled r" and le: "index_le (cx_history cx) ix'"
  show "?op (grow ix' cx) = (r, grow ix' cx1)"
  proof (cases timeout)
    case None
    with op r matching_grow(1)[OF le] show ?thesis
      by (cases "matching_signal name cx")
        (auto simp: wait_signal_def consume_signal_def grow_def split: if_splits)
  next
    case (Some t)
    show ?thesis
    proof (cases "scheduled_get cx (cx_next_command_id cx)")
      case None
      with Some op r show ?thesis
        by (auto simp: wait_signal_def Let_def split_def split: if_splits)
    next
      case (Some s)
      note s = index_le_scheduled[OF le Some] Some
      show ?thesis
        using \<open>timeout = Some t\<close> op r s
          signal_race_grow[OF le, of name _ "snd (allocate_command cx)" r cx1]
        by (cases "ev_entity_id s")
          (auto simp: wait_signal_def Let_def split_def split: if_splits)
    qed
  qed
qed

interpretation wait_update_op: context_operation "wait_update name" for name
proof unfold_locales
  fix cx cx1 ix' cs and r :: "workflow_update outcome"
  let ?op = "wait_update name"
  show "?op cx = (r, cx1) \<Longrightarrow> cx_history cx1 = cx_history cx"
    "?op cx = (r, cx1) \<Longrightarrow> cx_next_command_id cx \<le> cx_next_command_id cx1"
    "?op cx = (r, cx1) \<Longrightarrow> calls_ok cx \<Longrightarrow> calls_ok cx1"
    "?op cx = (Suspend (NewCommands cs), cx1) \<Longrightarrow> calls_ok cx \<Longrightarrow> new_commands_ok cx cs cx1"
    "?op cx = (Suspend (NewCommands cs), cx1) \<Longrightarrow> index_le (cx_history cx) ix'
      \<Longrightarrow> same_commands (cx_history cx) ix'
      \<Longrightarrow> ?op (grow ix' cx) = (Suspend (NewCommands cs), grow ix' cx1)"
    by (auto simp: wait_update_def split: if_splits option.splits json.splits)
  assume op: "?op cx = (r, cx1)" and r: "settled r" and le: "index_le (cx_history cx) ix'"
  show "?op (grow ix' cx) = (r, grow ix' cx1)"
    using op r matching_grow(2)[OF le]
    by (cases "matching_update name cx")
      (auto simp: wait_update_def grow_def split: if_splits json.splits)
qed


interpretation continue_op: context_operation "continue_as_new env name version input queue_name"
  for env name version input queue_name
  by unfold_locales
    (auto simp: continue_as_new_def operation_simps split: if_splits option.splits)

interpretation child_op: context_operation "evaluate_child_workflow env call" for env call
  by unfold_locales
    (auto simp: evaluate_child_workflow_def operation_simps split: if_splits option.splits)

interpretation resolve_op: context_operation "resolve_update env update outcome accepted"
  for env update outcome accepted
  by unfold_locales
    (auto simp: resolve_update_def operation_simps split: if_splits option.splits)

text \<open>Markers: the recorded value, then one of the three readers.\<close>

definition known_marker :: "string \<Rightarrow> bool" where
  "known_marker t \<longleftrightarrow> t \<in> {''now'', ''random'', ''uuid''}"

lemma derived_known: "known_marker t \<Longrightarrow> derived_marker_value env t c cx \<noteq> Inl msg"
  by (auto simp: known_marker_def derived_marker_value_def Let_def)

lemma derived_grow:
  assumes "index_le (cx_history cx) ix'"
  shows "derived_marker_value env t c (grow ix' cx) = derived_marker_value env t c cx"
  using assms by (simp add: derived_marker_value_def index_le_def Let_def)

lemma derived_allocate [simp]:
  "derived_marker_value env t c (snd (allocate_command cx)) = derived_marker_value env t c cx"
  by (simp add: derived_marker_value_def Let_def)

lemma marker_operation:
  assumes "known_marker t"
  shows "context_operation (\<lambda>cx. read_marker check (marker env t cx))"
proof (unfold_locales, goal_cases)
  case (1 cx r cx1)
  then show ?case
    by (auto simp: read_marker_def marker_def Let_def split_def
        split: sum.splits option.splits if_splits)
next
  case (2 cx r cx1)
  then show ?case
    by (auto simp: read_marker_def marker_def Let_def split_def
        split: sum.splits option.splits if_splits)
next
  case (3 cx r cx1 ix')
  then show ?case
    by (auto simp: read_marker_def marker_def operation_simps derived_known[OF assms]
        split: sum.splits option.splits if_splits)
next
  case (4 cx cs cx1 ix')
  then show ?case
    by (auto simp: read_marker_def marker_def operation_simps derived_grow
        split: sum.splits option.splits if_splits)
next
  case (5 cx r cx1)
  then show ?case
    by (auto simp: read_marker_def marker_def operation_simps
        split: sum.splits option.splits if_splits)
next
  case (6 cx cs cx1)
  then show ?case
    by (auto simp: read_marker_def marker_def operation_simps
        split: sum.splits option.splits if_splits)
qed

interpretation now_op: context_operation "now_marker env" for env
  unfolding now_marker_def by (rule marker_operation) (simp add: known_marker_def)

interpretation random_op: context_operation "random_marker env" for env
  unfolding random_marker_def by (rule marker_operation) (simp add: known_marker_def)

interpretation uuid_op: context_operation "uuid_marker env" for env
  unfolding uuid_marker_def by (rule marker_operation) (simp add: known_marker_def)


subsection \<open>Gather\<close>

text \<open>
  \<^verbatim>\<open>gather\<close> meets the contract as long as it does not pass a call that is still running: when such a
  call ends, a longer history can raise another failure.
\<close>

lemma gather_loop_keeps:
  assumes "gather_loop env is rs ms b cx = (r, cx1)"
  shows "cx_history cx1 = cx_history cx" and "cx_next_command_id cx \<le> cx_next_command_id cx1"
    and "calls_ok cx \<Longrightarrow> calls_ok cx1"
proof -
  have "cx_history cx1 = cx_history cx \<and> cx_next_command_id cx \<le> cx_next_command_id cx1
      \<and> (calls_ok cx \<longrightarrow> calls_ok cx1)"
    using assms
  proof (induction "is" arbitrary: rs ms b cx)
    case Nil
    then show ?case by (auto split: if_splits)
  next
    case (Cons i "is")
    obtain q cx2 where q: "evaluate_activity env i cx = (q, cx2)" by force
    note keeps = activity_op.keeps_history[OF q] activity_op.ids_grow[OF q]
      activity_op.keeps_calls[OF q]
    consider rs' ms' b' where "gather_loop env is rs' ms' b' cx2 = (r, cx1)" | "cx1 = cx2"
      using Cons.prems q by (auto split: outcome.splits suspension.splits)
    then show ?case
    proof cases
      case 1
      from Cons.IH[OF this] keeps show ?thesis by auto
    next
      case 2
      with keeps show ?thesis by auto
    qed
  qed
  then show "cx_history cx1 = cx_history cx" and "cx_next_command_id cx \<le> cx_next_command_id cx1"
    and "calls_ok cx \<Longrightarrow> calls_ok cx1" by auto
qed

lemma evaluate_activity_new:
  "evaluate_activity env i cx = (Suspend (NewCommands cs), cx1) \<Longrightarrow> cs \<noteq> []"
  by (auto simp: evaluate_activity_def Let_def split_def split: if_splits option.splits
      dest!: resolve_activity_new(1))

lemma resolve_activity_not_continued:
  "resolve_activity env call c cx \<noteq> Suspend (ContinueAsNewRecorded w)"
  by (simp add: resolve_activity_def Let_def split: option.split)

lemma evaluate_activity_not_continued:
  "evaluate_activity env i cx \<noteq> (Suspend (ContinueAsNewRecorded w), cx1)"
  by (simp add: evaluate_activity_def resolve_activity_not_continued Let_def split_def
      split: option.split)

lemma gather_loop_not_continued:
  "gather_loop env is rs ms b cx \<noteq> (Suspend (ContinueAsNewRecorded w), cx1)"
proof (induction "is" arbitrary: rs ms b cx)
  case (Cons i "is")
  obtain q cx2 where q: "evaluate_activity env i cx = (q, cx2)" by force
  then have "q \<noteq> Suspend (ContinueAsNewRecorded u)" for u
    using evaluate_activity_not_continued[of env i cx u cx2] by auto
  with q Cons.IH show ?case by (cases q rule: settled.cases) simp_all
qed simp

text \<open>
  The loop waits when it passes a call that has been scheduled and has not ended. Unless it does, it
  ends in the same way over a longer history: returned, failed and new calls stay what they are.
\<close>

fun gather_waits :: "pyenv \<Rightarrow> nat list \<Rightarrow> wcontext \<Rightarrow> bool" where
  "gather_waits env [] cx = False"
| "gather_waits env (i # is) cx =
     (case evaluate_activity env i cx of
        (Raise e, cx) \<Rightarrow> False
      | (Suspend Blocked, cx) \<Rightarrow> True
      | (_, cx) \<Rightarrow> gather_waits env is cx)"

lemma gather_loop_grows:
  assumes "gather_loop env is rs ms b cx = (r, cx1)" and "\<not> gather_waits env is cx"
    and "index_le (cx_history cx) ix'" and "same_commands (cx_history cx) ix'"
  shows "gather_loop env is rs ms b (grow ix' cx) = (r, grow ix' cx1)"
  using assms
proof (induction "is" arbitrary: rs ms b cx)
  case Nil
  then show ?case by (auto split: if_splits)
next
  case (Cons i "is")
  obtain q cx2 where q: "evaluate_activity env i cx = (q, cx2)" by force
  then have "q \<noteq> Suspend Blocked" using Cons.prems(2) by auto
  note grown = activity_op.decision_grows[OF q this Cons.prems(3,4)]
  have kept: "cx_history cx2 = cx_history cx" by (rule activity_op.keeps_history[OF q])
  consider (new) cs where "q = Suspend (NewCommands cs)" | (answer) v where "q = Return v" | (failure) e where "q = Raise e"
    | (wait) "q = Suspend Blocked" | (continued) u where "q = Suspend (ContinueAsNewRecorded u)"
    by (cases q rule: settled.cases) auto
  then show ?case
  proof cases
    case new
    with q grown Cons.prems kept Cons.IH[of "rs @ [JNull]" "ms @ cs" b cx2] show ?thesis by simp
  next
    case answer
    with q grown Cons.prems kept Cons.IH[of "rs @ [v]" ms b cx2] show ?thesis by simp
  qed (use q grown Cons.prems in simp_all)
qed

lemma gather_loop_fresh:
  assumes "gather_loop env is rs ms b cx = (Suspend (NewCommands cs), cx1)" and "calls_ok cx"
    and "\<forall>c\<in>set ms. scheduled_get cx (command_id c) = None \<and> command_id c < cx_next_command_id cx"
  shows "new_commands_ok cx cs cx1"
  using assms
proof (induction "is" arbitrary: rs ms b cx)
  case Nil
  then show ?case by (auto simp: new_commands_ok_def split: if_splits)
next
  case (Cons i "is")
  obtain q cx2 where q: "evaluate_activity env i cx = (q, cx2)" by force
  have same: "scheduled_get cx2 = scheduled_get cx"
    using activity_op.keeps_history[OF q] by (simp add: scheduled_get_def fun_eq_iff)
  have ids: "cx_next_command_id cx \<le> cx_next_command_id cx2"
    by (rule activity_op.ids_grow[OF q])
  have ms: "\<forall>c\<in>set ms. scheduled_get cx2 (command_id c) = None
      \<and> command_id c < cx_next_command_id cx2"
    using Cons.prems(3) same ids by auto
  have new: "new_commands_ok cx2 cs cx1 \<Longrightarrow> new_commands_ok cx cs cx1"
    by (simp add: new_commands_ok_def same)
  note IH = Cons.IH[OF _ activity_op.keeps_calls[OF q Cons.prems(2)]]
  show ?case
  proof (cases "\<exists>cs'. q = Suspend (NewCommands cs')")
    case True
    then obtain cs' where cs': "q = Suspend (NewCommands cs')" by auto
    then have "new_commands_ok cx cs' cx2"
      using activity_op.fresh_commands[of env i cx cs' cx2] q Cons.prems(2) by simp
    then have "\<forall>c\<in>set (ms @ cs'). scheduled_get cx2 (command_id c) = None
        \<and> command_id c < cx_next_command_id cx2"
      using ms same by (auto simp: new_commands_ok_def)
    from IH[OF _ this] cs' q Cons.prems(1) show ?thesis by (intro new) simp
  next
    case False
    with q Cons.prems(1) IH[OF _ ms] show ?thesis
      by (intro new) (cases q; auto split: suspension.splits)
  qed
qed

lemma gather_keeps:
  assumes "gather env is cx = (r, cx1)"
  shows "cx_history cx1 = cx_history cx" and "cx_next_command_id cx \<le> cx_next_command_id cx1"
    and "calls_ok cx \<Longrightarrow> calls_ok cx1"
  using assms gather_loop_keeps[of env "is" "[]" "[]" False cx r cx1]
  by (auto simp: gather_def split: if_splits)

lemma gather_not_continued: "gather env is cx \<noteq> (Suspend (ContinueAsNewRecorded w), cx1)"
  by (simp add: gather_def gather_loop_not_continued)

lemma gather_grows:
  "gather env is cx = (r, cx1) \<Longrightarrow> \<not> gather_waits env is cx \<Longrightarrow> index_le (cx_history cx) ix' \<Longrightarrow>
    same_commands (cx_history cx) ix' \<Longrightarrow> gather env is (grow ix' cx) = (r, grow ix' cx1)"
  using gather_loop_grows[of env "is" "[]" "[]" False cx r cx1 ix'] by (auto simp: gather_def)

lemma gather_fresh:
  "gather env is cx = (Suspend (NewCommands cs), cx1) \<Longrightarrow> calls_ok cx \<Longrightarrow> new_commands_ok cx cs cx1"
  using gather_loop_fresh[of env "is" "[]" "[]" False cx cs cx1]
  by (auto simp: gather_def split: if_splits)

end
