(* ===== verification/Replay.thy ===== *)
theory Replay
  imports Context_Laws
begin

text \<open>
  \<^verbatim>\<open>engine/runtime/replay.py\<close>: running a workflow function against its committed history. The
  function is user code; it is modelled as the tree of the context operations it performs, each
  with the continuation that receives the operation's value or the exception it raised
  (\<open>prog\<close>), so that every deterministic Python coroutine that does not intercept
  \<^verbatim>\<open>BaseException\<close> is such a tree. \<open>replay_workflow\<close> is the function of that name. The theorems
  say what a history that grows does to a replay.
\<close>

section \<open>Workflow functions\<close>

text \<open>
  What workflow code can await, and the tagged answers. Awaiting \<open>ReqChild\<close> is
  \<^verbatim>\<open>await ctx.child_workflow(...)\<close>: creating the call object and evaluating it.
\<close>

datatype request =
    ReqActivity nat
  | ReqChild string int json "string option" string
  | ReqContinueAsNew string int json "string option"
  | ReqNow
  | ReqRandom
  | ReqUuid
  | ReqSleep interval
  | ReqWaitSignal string "interval option"
  | ReqWaitUpdate string
  | ReqResolveUpdate workflow_update json bool

datatype answer =
    AJson json | ATime timestamp | AFloat rat | AUuid uuid | AUpdate workflow_update | AUnit

datatype prog =
    Done json
  | Fail exn
  | NewActivity string "json list" dict "retry_policy option" "interval option"
      "interval option" "interval option" "nat \<Rightarrow> prog"
  | Await request "exn + answer \<Rightarrow> prog"
  | Gather "nat list" "exn + json list \<Rightarrow> prog"
  | CancellationRequested "bool \<Rightarrow> prog"

definition call_child ::
  "pyenv \<Rightarrow> string \<Rightarrow> int \<Rightarrow> json \<Rightarrow> string option \<Rightarrow> string \<Rightarrow> wcontext \<Rightarrow> json outcome \<times> wcontext" where
  "call_child env name version input queue_name policy cx =
     (case child_workflow name version input queue_name policy cx of
        Return call \<Rightarrow> evaluate_child_workflow env call cx
      | Raise e \<Rightarrow> (Raise e, cx)
      | Suspend s \<Rightarrow> (Suspend s, cx))"

abbreviation tag :: "('a \<Rightarrow> answer) \<Rightarrow> 'a outcome \<times> wcontext \<Rightarrow> answer outcome \<times> wcontext" where
  "tag f \<equiv> map_prod (map_outcome f) id"

fun perform :: "pyenv \<Rightarrow> request \<Rightarrow> wcontext \<Rightarrow> answer outcome \<times> wcontext" where
  "perform env (ReqActivity i) cx = tag AJson (evaluate_activity env i cx)"
| "perform env (ReqChild n v i q p) cx = tag AJson (call_child env n v i q p cx)"
| "perform env (ReqContinueAsNew n v i q) cx = tag (\<lambda>_. AUnit) (continue_as_new env n v i q cx)"
| "perform env ReqNow cx = tag ATime (now_marker env cx)"
| "perform env ReqRandom cx = tag AFloat (random_marker env cx)"
| "perform env ReqUuid cx = tag AUuid (uuid_marker env cx)"
| "perform env (ReqSleep d) cx = tag (\<lambda>_. AUnit) (sleep env d cx)"
| "perform env (ReqWaitSignal n t) cx = tag AJson (wait_signal env n t cx)"
| "perform env (ReqWaitUpdate n) cx = tag AUpdate (wait_update n cx)"
| "perform env (ReqResolveUpdate u out acc) cx = tag (\<lambda>_. AUnit) (resolve_update env u out acc cx)"

text \<open>Running the function: exceptions go to the continuation, suspensions end the run.\<close>

primrec run :: "pyenv \<Rightarrow> prog \<Rightarrow> wcontext \<Rightarrow> json outcome \<times> wcontext" where
  "run env (Done v) = (\<lambda>cx. (Return v, cx))"
| "run env (Fail e) = (\<lambda>cx. (Raise e, cx))"
| "run env (NewActivity d args kwargs retry s2s s2c hb k) =
     (\<lambda>cx. let (i, cx) = new_activity_call d args kwargs retry s2s s2c hb cx in run env (k i) cx)"
| "run env (Await req k) = (\<lambda>cx. resume (perform env req cx) (\<lambda>a. run env (k a)))"
| "run env (Gather is k) = (\<lambda>cx. resume (gather env is cx) (\<lambda>a. run env (k a)))"
| "run env (CancellationRequested k) = (\<lambda>cx. run env (k (cancellation_requested cx)) cx)"

section \<open>Replay\<close>

datatype replay_status = COMMANDS | BLOCKED | COMPLETED | FAILED

record replay_result =
  rr_status :: replay_status
  rr_commands :: "command list"
  rr_result :: json
  rr_failure :: json

text \<open>
  \<^verbatim>\<open>type(error).__name__\<close> and \<^verbatim>\<open>str(error)\<close>. A \<^verbatim>\<open>NonDeterminismError\<close> is never printed by
  replay, which raises it again.
\<close>

fun exn_name :: "exn \<Rightarrow> string" where
  "exn_name (ValueError m) = ''ValueError''"
| "exn_name (NonDeterminismError c d) = ''NonDeterminismError''"
| "exn_name (ActivityError t f) = ''ActivityError''"
| "exn_name (SignalTimeoutError n) = ''SignalTimeoutError''"
| "exn_name (ChildWorkflowError t f) = ''ChildWorkflowError''"
| "exn_name (RuntimeError m) = ''RuntimeError''"
| "exn_name (UnboundName i) = ''NameError''"
| "exn_name (UserError t m) = t"

fun exn_message :: "pyenv \<Rightarrow> exn \<Rightarrow> string" where
  "exn_message env (ValueError m) = m"
| "exn_message env (NonDeterminismError c d) = ''non-determinism at command '' @ int_str c"
| "exn_message env (ActivityError t f) =
     ''activity '' @ py_repr env (JStr t) @ '' failed: '' @ py_repr env f"
| "exn_message env (SignalTimeoutError n) =
     ''timed out waiting for signal '' @ py_repr env (JStr n)"
| "exn_message env (ChildWorkflowError t f) =
     ''child workflow '' @ py_repr env (JStr t) @ '' failed: '' @ py_repr env f"
| "exn_message env (RuntimeError m) = m"
| "exn_message env (UnboundName i) = ''name is not defined''"
| "exn_message env (UserError t m) = m"

text \<open>What \<^verbatim>\<open>replay_workflow\<close> itself may raise.\<close>

datatype replay_error = InvalidHistoryError invalid_history | Diverged int divergence

definition replay_workflow ::
  "pyenv \<Rightarrow> (json \<Rightarrow> prog) \<Rightarrow> uuid \<Rightarrow> json \<Rightarrow> history_event list \<Rightarrow> replay_error + replay_result" where
  "replay_workflow env function workflow_id workflow_input history =
     (case HistoryIndex history of
        Inl e \<Rightarrow> Inl (InvalidHistoryError e)
      | Inr index \<Rightarrow>
          let context = WorkflowContext 0 workflow_id index
          in case run env (function (clone_json workflow_input)) context of
               (Suspend (NewCommands cs), cx) \<Rightarrow>
                 Inr \<lparr>rr_status = COMMANDS, rr_commands = cs, rr_result = JNull, rr_failure = JNull\<rparr>
             | (Suspend Blocked, cx) \<Rightarrow>
                 Inr \<lparr>rr_status = BLOCKED, rr_commands = [], rr_result = JNull, rr_failure = JNull\<rparr>
             | (Suspend (ContinueAsNewRecorded w), cx) \<Rightarrow>
                 Inr \<lparr>rr_status = COMPLETED, rr_commands = [],
                      rr_result = JObj [(''continued_to'', JStr (uuid_str w))], rr_failure = JNull\<rparr>
             | (Raise (NonDeterminismError c d), cx) \<Rightarrow> Inl (Diverged c d)
             | (Raise e, cx) \<Rightarrow>
                 Inr \<lparr>rr_status = FAILED, rr_commands = [], rr_result = JNull,
                      rr_failure = JObj [(''type'', JStr (exn_name e)),
                                         (''message'', JStr (exn_message env e))]\<rparr>
             | (Return v, cx) \<Rightarrow>
                 (case first_unvisited_command index (cx_next_command_id cx) of
                    Some ev \<Rightarrow>
                      (case ev_command_id ev of
                         None \<Rightarrow> Inl (Diverged 0 UnvisitedWithoutId)
                       | Some c \<Rightarrow> Inl (Diverged c (UnvisitedCommand (ev_type ev))))
                  | None \<Rightarrow>
                      Inr \<lparr>rr_status = COMPLETED, rr_commands = [], rr_result = clone_json v,
                           rr_failure = JNull\<rparr>))"

section \<open>Replaying a longer history\<close>

lemma call_child_cases:
  obtains (bad) e where "\<And>cx. call_child env n v i q p cx = (Raise e, cx)"
  | (call) call where "\<And>cx. call_child env n v i q p cx =
      evaluate_child_workflow env (call\<lparr>cc_context := cx_self cx\<rparr>) cx"
proof (cases "p \<notin> {''terminate'', ''abandon''}")
  case True
  then show thesis by (intro bad) (simp add: call_child_def child_workflow_def)
next
  case policy: False
  show thesis
  proof (cases "q = Some []")
    case True
    with policy show thesis by (intro bad) (simp add: call_child_def child_workflow_def)
  next
    case False
    define call where "call = \<lparr>cc_context = 0, cc_workflow_type = n, cc_definition_version = v,
      cc_input = clone_json i, cc_queue_name = q, cc_parent_close_policy = p\<rparr>"
    with False policy show thesis
      by (intro call[of call]) (simp add: call_child_def child_workflow_def)
  qed
qed

interpretation call_child_op: context_operation "call_child env n v i q p" for env n v i q p
proof (cases rule: call_child_cases[of env n v i q p])
  case (bad e)
  then show "context_operation (call_child env n v i q p)"
    by unfold_locales auto
next
  case (call c)
  show "context_operation (call_child env n v i q p)"
    by unfold_locales
      (auto simp: call dest: child_op.keeps_history child_op.ids_grow child_op.settled_grows
        child_op.reissues child_op.keeps_calls child_op.fresh_commands)
qed

lemma perform_eqs:
  "perform env (ReqActivity a) = (\<lambda>cx. tag AJson (evaluate_activity env a cx))"
  "perform env (ReqChild n v i q p) = (\<lambda>cx. tag AJson (call_child env n v i q p cx))"
  "perform env (ReqContinueAsNew n v i q) = (\<lambda>cx. tag (\<lambda>_. AUnit) (continue_as_new env n v i q cx))"
  "perform env ReqNow = (\<lambda>cx. tag ATime (now_marker env cx))"
  "perform env ReqRandom = (\<lambda>cx. tag AFloat (random_marker env cx))"
  "perform env ReqUuid = (\<lambda>cx. tag AUuid (uuid_marker env cx))"
  "perform env (ReqSleep d) = (\<lambda>cx. tag (\<lambda>_. AUnit) (sleep env d cx))"
  "perform env (ReqWaitSignal n t) = (\<lambda>cx. tag AJson (wait_signal env n t cx))"
  "perform env (ReqWaitUpdate n) = (\<lambda>cx. tag AUpdate (wait_update n cx))"
  "perform env (ReqResolveUpdate u out acc) =
    (\<lambda>cx. tag (\<lambda>_. AUnit) (resolve_update env u out acc cx))"
  by (simp_all add: fun_eq_iff)

interpretation perform_op: context_operation "perform env req" for env req
  by (cases req)
    (simp_all only: perform_eqs activity_op.tagged call_child_op.tagged continue_op.tagged
      now_op.tagged random_op.tagged uuid_op.tagged sleep_op.tagged wait_signal_op.tagged
      wait_update_op.tagged resolve_op.tagged)

text \<open>
  \<open>steady\<close> runs the function alongside replay. It says that no \<^verbatim>\<open>gather\<close> on the way passed a call that was
  still running and then raised or asked for commands; and, when a request for cancellation may
  arrive (\<open>c\<close>), that the cancellation flag is read only after it has been set.
\<close>

primrec steady :: "bool \<Rightarrow> pyenv \<Rightarrow> prog \<Rightarrow> wcontext \<Rightarrow> bool" where
  "steady c env (Done v) = (\<lambda>cx. True)"
| "steady c env (Fail e) = (\<lambda>cx. True)"
| "steady c env (NewActivity d args kwargs retry s2s s2c hb k) =
     (\<lambda>cx. let (i, cx) = new_activity_call d args kwargs retry s2s s2c hb cx in steady c env (k i) cx)"
| "steady c env (Await req k) =
     (\<lambda>cx. holds_after (perform env req cx) (\<lambda>a. steady c env (k a)))"
| "steady c env (Gather is k) =
     (\<lambda>cx. (fst (gather env is cx) = Suspend Blocked \<or> \<not> gather_waits env is cx)
        \<and> holds_after (gather env is cx) (\<lambda>a. steady c env (k a)))"
| "steady c env (CancellationRequested k) =
     (\<lambda>cx. (c \<longrightarrow> cancellation_requested cx) \<and> steady c env (k (cancellation_requested cx)) cx)"

definition flag_kept :: "bool \<Rightarrow> history_index \<Rightarrow> history_index \<Rightarrow> bool" where
  "flag_kept c ix ix' \<longleftrightarrow>
     (hi_cancellation_requested ix \<noteq> None \<longrightarrow> hi_cancellation_requested ix' \<noteq> None)
     \<and> (\<not> c \<longrightarrow> hi_cancellation_requested ix' \<noteq> None \<longrightarrow> hi_cancellation_requested ix \<noteq> None)"

lemma cancellation_requested_grow:
  "flag_kept c (cx_history cx) ix' \<Longrightarrow> (c \<longrightarrow> cancellation_requested cx) \<Longrightarrow>
    cancellation_requested (grow ix' cx) = cancellation_requested cx"
  by (auto simp: cancellation_requested_def flag_kept_def)

lemma new_activity_call_grow [simp]:
  "new_activity_call d args kwargs retry s2s s2c hb (grow ix cx) =
    (fst (new_activity_call d args kwargs retry s2s s2c hb cx),
     grow ix (snd (new_activity_call d args kwargs retry s2s s2c hb cx)))"
  by (simp add: new_activity_call_def)

lemma new_activity_call_keeps [simp]:
  "cx_history (snd (new_activity_call d args kwargs retry s2s s2c hb cx)) = cx_history cx"
  "cx_next_command_id (snd (new_activity_call d args kwargs retry s2s s2c hb cx))
    = cx_next_command_id cx"
  "calls_ok cx \<Longrightarrow> calls_ok (snd (new_activity_call d args kwargs retry s2s s2c hb cx))"
  by (auto simp: new_activity_call_def calls_ok_def)

lemma run_decision_grows:
  assumes "run env p cx = (r, cx1)" and "r \<noteq> Suspend Blocked" and "steady c env p cx"
    and "index_le (cx_history cx) ix'" and "flag_kept c (cx_history cx) ix'"
    and "same_commands (cx_history cx) ix'"
  shows "run env p (grow ix' cx) = (r, grow ix' cx1)"
  using assms
proof (induction p arbitrary: cx)
  case (NewActivity d args kwargs retry s2s s2c hb k)
  then show ?case by (simp add: split_def Let_def)
next
  case (Await req k)
  show ?case unfolding run.simps
    by (rule perform_op.resume_decision_grows[where Q = "\<lambda>a. steady c env (k a)"])
      (use Await in auto)
next
  case (Gather "is" k)
  obtain q cx2 where q: "gather env is cx = (q, cx2)" by force
  then have "q \<noteq> Suspend Blocked" using Gather.prems(1,2) by auto
  then have "\<not> gather_waits env is cx" using Gather.prems(3) q by simp
  note grown = gather_grows[OF q this Gather.prems(4,6)]
  from q grown gather_keeps(1)[OF q] Gather show ?case by (cases q) simp_all
next
  case (CancellationRequested k)
  then show ?case using cancellation_requested_grow[of c cx ix'] by simp
qed simp_all

text \<open>New commands carry ids that the history does not hold and that this run has allocated.\<close>

lemma run_fresh_commands:
  assumes "run env p cx = (Suspend (NewCommands cs), cx1)" and "calls_ok cx"
  shows "new_commands_ok cx cs cx1"
  using assms
proof (induction p arbitrary: cx)
  case (NewActivity d args kwargs retry s2s s2c hb k)
  let ?cx = "snd (new_activity_call d args kwargs retry s2s s2c hb cx)"
  have "new_commands_ok ?cx cs cx1"
    using NewActivity.prems by (intro NewActivity.IH) (auto simp: split_def Let_def)
  then show ?case by (simp add: new_commands_ok_def scheduled_get_def)
next
  case (Await req k)
  show ?case
    by (rule perform_op.resume_fresh_commands[of env req cx "\<lambda>a. run env (k a)"])
      (use Await in auto)
next
  case (Gather "is" k)
  obtain q cx2 where q: "gather env is cx = (q, cx2)" by force
  have "scheduled_get cx2 = scheduled_get cx"
    using gather_keeps(1)[OF q] by (simp add: scheduled_get_def fun_eq_iff)
  then have "new_commands_ok cx2 cs cx1 \<Longrightarrow> new_commands_ok cx cs cx1"
    by (simp add: new_commands_ok_def)
  with q Gather gather_keeps(3)[OF q] gather_fresh[of env "is" cx cs cx1] show ?case
    by (cases q) auto
qed auto

section \<open>Decisions over a longer history\<close>

text \<open>
  Between the moment a worker reads a history and the moment it commits the decision, other
  transactions append events: signals, updates, results, timers, a request for cancellation. Only
  the commands of the workflow itself are left to its own commit (\<open>external_event\<close>).
\<close>

definition external_event :: "history_event \<Rightarrow> bool" where
  "external_event ev \<longleftrightarrow> \<not> is_schedule ev"

definition replay_steady ::
  "bool \<Rightarrow> pyenv \<Rightarrow> (json \<Rightarrow> prog) \<Rightarrow> uuid \<Rightarrow> json \<Rightarrow> history_event list \<Rightarrow> bool" where
  "replay_steady c env function workflow_id workflow_input history =
     (case HistoryIndex history of
        Inl e \<Rightarrow> False
      | Inr index \<Rightarrow>
          steady c env (function (clone_json workflow_input)) (WorkflowContext 0 workflow_id index))"

definition cancels :: "history_event list \<Rightarrow> bool" where
  "cancels evs = list_ex (\<lambda>ev. ev_type ev = WorkflowCancellationRequested) evs"

lemma keyed_none: "\<forall>ev\<in>set evs. \<not> P ev \<Longrightarrow> keyed P key evs = []"
  by (induction evs) (auto simp: keyed_def List.map_filter_def)

lemma external_events_index:
  assumes "HistoryIndex H = Inr ix" and "HistoryIndex (H @ later) = Inr ix'"
    and "\<forall>ev\<in>set later. external_event ev"
  shows "hi_scheduled ix' = hi_scheduled ix" and "same_commands ix ix'" and "flag_kept (cancels later) ix ix'"
proof -
  have ix: "ix = reference_index H H" "ix' = reference_index (H @ later) (H @ later)"
    using assms(1,2) by (simp_all add: HistoryIndex_iff)
  show sched: "hi_scheduled ix' = hi_scheduled ix"
    using assms(3) by (simp add: ix reference_index_def keyed_none external_event_def)
  then show "same_commands ix ix'" by (simp add: same_commands_def)
  show "flag_kept (cancels later) ix ix'"
    by (auto simp: ix reference_index_def flag_kept_def cancels_def list_ex_iff find_None_iff_set
        simp flip: not_None_eq)
qed

lemma WorkflowContext_grow: "WorkflowContext s w ix' = grow ix' (WorkflowContext s w ix)"
  by (simp add: WorkflowContext_def grow_def)

lemma cx_history_WorkflowContext [simp]: "cx_history (WorkflowContext s w ix) = ix"
  by (simp add: WorkflowContext_def)

lemma calls_ok_WorkflowContext [simp]: "calls_ok (WorkflowContext s w ix)"
  by (simp add: WorkflowContext_def calls_ok_def)

lemma replay_decision_stable:
  assumes "replay_steady (cancels later) env f w i H"
    and "\<forall>r. replay_workflow env f w i H = Inr r \<longrightarrow> rr_status r \<noteq> BLOCKED"
    and "valid_history (H @ later)" and "\<forall>ev\<in>set later. external_event ev"
  shows "replay_workflow env f w i (H @ later) = replay_workflow env f w i H"
proof -
  obtain ix where ix: "HistoryIndex H = Inr ix"
    and steady: "steady (cancels later) env (f (clone_json i)) (WorkflowContext 0 w ix)"
    using assms(1) by (auto simp: replay_steady_def split: sum.splits)
  obtain ix' where ix': "HistoryIndex (H @ later) = Inr ix'"
    using assms(3) by (simp add: HistoryIndex_iff)
  obtain r cx1 where run: "run env (f (clone_json i)) (WorkflowContext 0 w ix) = (r, cx1)" by force
  have le: "index_le ix ix'"
    using ix ix' HistoryIndex_mono[OF ix'] by (cases "H = []") (force simp: HistoryIndex_def)+
  have "r \<noteq> Suspend Blocked"
    using assms(2) run ix by (auto simp: replay_workflow_def)
  then have "run env (f (clone_json i)) (WorkflowContext 0 w ix') = (r, grow ix' cx1)"
    unfolding WorkflowContext_grow[of 0 w ix' ix]
    using run_decision_grows[OF run _ steady] external_events_index[OF ix ix' assms(4)]
      le by simp
  moreover have "first_unvisited_command ix' n = first_unvisited_command ix n" for n
    using external_events_index(1)[OF ix ix' assms(4)] by (simp add: first_unvisited_command_def)
  ultimately show ?thesis
    using ix ix' run by (cases r) (simp_all add: replay_workflow_def)
qed

lemma replay_commands_fresh:
  assumes "replay_workflow env f w i H = Inr r" and "rr_status r = COMMANDS"
  shows "rr_commands r \<noteq> [] \<and>
    (\<forall>c\<in>set (rr_commands r). \<forall>ev\<in>set H. is_schedule ev \<longrightarrow> ev_command_id ev \<noteq> Some (command_id c))"
proof -
  obtain ix where ix: "HistoryIndex H = Inr ix"
    using assms(1) by (auto simp: replay_workflow_def split: sum.splits)
  obtain q cx1 where run: "run env (f (clone_json i)) (WorkflowContext 0 w ix) = (q, cx1)" by force
  have "q = Suspend (NewCommands (rr_commands r))"
    using assms run ix
    by (auto simp: replay_workflow_def split: outcome.splits suspension.splits exn.splits option.splits)
  with run have "new_commands_ok (WorkflowContext 0 w ix) (rr_commands r) cx1"
    by (intro run_fresh_commands) auto
  moreover have "ix = reference_index H H" using ix by (simp add: HistoryIndex_iff)
  ultimately show ?thesis
    by (auto simp: new_commands_ok_def scheduled_get_def reference_index_def)
qed

lemma replay_completed_visits_all:
  assumes "replay_workflow env f w i H = Inr r" and "rr_status r = COMPLETED"
  obtains u cx where "run env (f (clone_json i)) (WorkflowContext 0 w (reference_index H H))
      = (Suspend (ContinueAsNewRecorded u), cx)"
  | v cx where "run env (f (clone_json i)) (WorkflowContext 0 w (reference_index H H)) = (Return v, cx)"
    "rr_result r = clone_json v"
    "\<forall>ev\<in>set H. is_schedule ev \<longrightarrow> (\<forall>c. ev_command_id ev = Some c \<longrightarrow> c < cx_next_command_id cx)"
proof -
  obtain ix where ix: "HistoryIndex H = Inr ix"
    using assms(1) by (auto simp: replay_workflow_def split: sum.splits)
  then have ref: "ix = reference_index H H" by (simp add: HistoryIndex_iff)
  obtain q cx1 where run: "run env (f (clone_json i)) (WorkflowContext 0 w ix) = (q, cx1)" by force
  show thesis
  proof (cases q)
    case (Return v)
    with run ix assms have "first_unvisited_command ix (cx_next_command_id cx1) = None"
      and "rr_result r = clone_json v"
      by (auto simp: replay_workflow_def split: option.splits)
    with that(2)[of v cx1] run ref Return first_unvisited_None[OF ix] show thesis by simp
  next
    case (Raise e)
    with run ix assms show thesis by (cases e) (auto simp: replay_workflow_def)
  next
    case (Suspend s)
    with run ix assms that(1) ref show thesis by (cases s) (auto simp: replay_workflow_def)
  qed
qed



end
