(* ===== verification/Transitions.thy ===== *)
theory Transitions
  imports Leasing Replay
begin

text \<open>
  \<^verbatim>\<open>engine/persistence/transitions.py\<close>: the state transitions of workflow executions. Every function
  that runs in one database transaction is one function of type \<open>'a txn\<close>, with the statements in
  source order. \<open>terminate_descendants\<close> recurses over the tree of child executions; its first
  argument bounds the depth of the recursion as Python's recursion limit does.
\<close>

section \<open>Definitions and starting\<close>

definition register_workflow_definition :: "string \<Rightarrow> int \<Rightarrow> string \<Rightarrow> unit txn" where
  "register_workflow_definition name version code_hash d =
     bindR (if definition_exists d name version then Inr d
            else check_all [(''workflow_definitions_version_check'', 0 < version)]
                   (d\<lparr>db_definitions := db_definitions d @
                      [\<lparr>wd_workflow_type = name, wd_version = version, wd_code_hash = code_hash\<rparr>]\<rparr>))
       (\<lambda>d. let stored_hash = map_option wd_code_hash
                  (List.find (\<lambda>r. wd_workflow_type r = name \<and> wd_version r = version)
                     (db_definitions d))
             in if stored_hash \<noteq> Some code_hash
                then Inl (StoredDefinitionConflictError name version) else Inr (d, ()))"

text \<open>The row of a new execution; the columns that a statement does not name are null.\<close>

definition new_execution ::
  "uuid \<Rightarrow> string \<Rightarrow> int \<Rightarrow> json \<Rightarrow> string \<Rightarrow> timestamp \<Rightarrow> dict \<Rightarrow> execution_row" where
  "new_execution w n v input q created attrs =
     \<lparr>ex_id = w, ex_workflow_type = n, ex_definition_version = v, ex_input = clone_json input,
      ex_status = WfRunning, ex_result = None, ex_failure = None, ex_next_seq = 2,
      ex_created_at = created, ex_closed_at = None, ex_queue_name = q,
      ex_cancellation_requested_at = None, ex_cancellation_reason = None,
      ex_search_attributes = jsonb_object attrs, ex_paused_at = None, ex_pause_reason = None,
      ex_retry_of = None, ex_schedule_id = None, ex_scheduled_at = None,
      ex_parent_workflow_id = None, ex_parent_command_id = None, ex_parent_close_policy = None,
      ex_continued_from = None, ex_continued_to = None\<rparr>"

text \<open>
  A new execution is always three statements: its row, its first event and its first task.
\<close>

definition create_execution ::
  "pyenv \<Rightarrow> tx \<Rightarrow> uuid \<Rightarrow> execution_row \<Rightarrow> dict \<Rightarrow> db \<Rightarrow> db_error + db" where
  "create_execution env x task_id e started_attributes d =
     bindR (insert_execution env e d) (\<lambda>d.
     bindR (insert_event x (ex_id e) 1 WorkflowExecutionStarted None None None
              started_attributes d) (\<lambda>d.
     insert_workflow_task x task_id (ex_id e) (ex_queue_name e) d))"

definition start_workflow ::
  "pyenv \<Rightarrow> tx \<Rightarrow> string \<Rightarrow> int \<Rightarrow> json \<Rightarrow> string \<Rightarrow> uuid option \<Rightarrow> dict \<Rightarrow> uuid option
    \<Rightarrow> audit_context option \<Rightarrow> uuid txn" where
  "start_workflow env x workflow_type definition_version workflow_input queue_name workflow_id
      search_attributes retry_of audit d =
     (if workflow_type = [] then Inl (BadValue ''workflow_type cannot be empty'')
      else if definition_version < 1 then Inl (BadValue ''definition_version must be at least 1'')
      else if queue_name = [] then Inl (BadValue ''queue_name cannot be empty'')
      else
        let execution_id = (case workflow_id of Some w \<Rightarrow> w | None \<Rightarrow> tx_uuid x 0);
            started_at = tx_clock x 0;
            task_id = tx_uuid x 1
        in if 16000 < utf8_length (canonical_json env (JObj search_attributes))
           then Inl (BadValue ''search_attributes cannot exceed 16 KB'')
           else if \<not> definition_exists d workflow_type definition_version
           then Inl (DefinitionNotRegisteredError workflow_type definition_version)
           else
             bindR (create_execution env x task_id
                      ((new_execution execution_id workflow_type definition_version workflow_input
                          queue_name started_at search_attributes)\<lparr>ex_retry_of := retry_of\<rparr>)
                      [(''workflow_type'', JStr workflow_type),
                       (''definition_version'', JInt definition_version),
                       (''input'', workflow_input),
                       (''search_attributes'', JObj search_attributes),
                       (''started_at'', JStr (py_isoformat env started_at))] d) (\<lambda>d.
             bindR (record_api_audit x audit (Some execution_id) True
                      (JObj [(''workflow_type'', JStr workflow_type),
                             (''definition_version'', JInt definition_version),
                             (''queue_name'', JStr queue_name),
                             (''search_attributes'', JObj search_attributes),
                             (''retry_of'', opt_json (\<lambda>u. JStr (uuid_str u)) retry_of)]) d) (\<lambda>d.
             Inr (d, execution_id))))"

section \<open>Control operations\<close>

definition reason_json :: "string option \<Rightarrow> json" where
  "reason_json reason = opt_json JStr reason"

text \<open>The audit record of a duplicate request: nothing else changes and the call returns false.\<close>

definition duplicate_request ::
  "tx \<Rightarrow> audit_context option \<Rightarrow> uuid \<Rightarrow> string option \<Rightarrow> bool txn" where
  "duplicate_request x audit w reason d =
     bindR (record_api_audit x audit (Some w) False
              (JObj [(''reason'', reason_json reason), (''duplicate'', JBool True)]) d)
       (\<lambda>d. Inr (d, False))"

definition pause_workflow ::
  "tx \<Rightarrow> uuid \<Rightarrow> string option \<Rightarrow> audit_context option \<Rightarrow> bool txn" where
  "pause_workflow x w reason audit d =
     (case find_execution d w of
        None \<Rightarrow> Inl (TransitionError ''workflow does not exist'')
      | Some e \<Rightarrow>
          if ex_status e \<noteq> WfRunning then Inl (TerminalWorkflowError w (ex_status e))
          else if ex_paused_at e \<noteq> None then duplicate_request x audit w reason d
          else
            let next_seq = ex_next_seq e
            in bindR (insert_event x w next_seq WorkflowExecutionPaused None None None
                        [(''reason'', reason_json reason)] d) (\<lambda>d.
               bindR (record_api_audit x audit (Some w) True
                        (JObj [(''reason'', reason_json reason)])
                        (update_execution w
                          (\<lambda>e. e\<lparr>ex_paused_at := Some (tx_now x), ex_pause_reason := reason,
                                 ex_next_seq := next_seq + 1\<rparr>) d)) (\<lambda>d.
               Inr (d, True))))"

definition resume_workflow ::
  "pyenv \<Rightarrow> tx \<Rightarrow> uuid \<Rightarrow> string option \<Rightarrow> audit_context option \<Rightarrow> bool txn" where
  "resume_workflow env x w reason audit d =
     (case find_execution d w of
        None \<Rightarrow> Inl (TransitionError ''workflow does not exist'')
      | Some e \<Rightarrow>
          if ex_status e \<noteq> WfRunning then Inl (TerminalWorkflowError w (ex_status e))
          else
            case ex_paused_at e of
              None \<Rightarrow> duplicate_request x audit w reason d
            | Some paused_at \<Rightarrow>
                let next_seq = ex_next_seq e;
                    shift = tx_now x - paused_at;
                    d = update_tasks (\<lambda>t. tk_workflow_id t = w \<and> tk_status t = TkPending)
                          (\<lambda>t. t\<lparr>tk_visible_at := tk_visible_at t + shift,
                                 tk_schedule_to_start_deadline :=
                                   map_option (\<lambda>s. s + shift) (tk_schedule_to_start_deadline t)\<rparr>) d
                in bindR (insert_event x w next_seq WorkflowExecutionResumed None None None
                            [(''reason'', reason_json reason),
                             (''paused_at'', JStr (py_isoformat env paused_at))] d) (\<lambda>d.
                   bindR (record_api_audit x audit (Some w) True
                            (JObj [(''reason'', reason_json reason)])
                            (update_execution w
                              (\<lambda>e. e\<lparr>ex_paused_at := None, ex_pause_reason := None,
                                     ex_next_seq := next_seq + 1\<rparr>) d)) (\<lambda>d.
                   Inr (d, True))))"

text \<open>
  \<^verbatim>\<open>retry_workflow\<close> reads the closed execution outside a transaction and then starts a new one:
  \<open>d0\<close> is the database that the read sees.
\<close>

definition retry_workflow ::
  "pyenv \<Rightarrow> tx \<Rightarrow> uuid \<Rightarrow> audit_context option \<Rightarrow> db \<Rightarrow> uuid txn" where
  "retry_workflow env x w audit d0 d =
     (case find_execution d0 w of
        None \<Rightarrow> Inl (TransitionError ''workflow does not exist'')
      | Some e \<Rightarrow>
          if ex_status e \<notin> {WfFailed, WfTerminated}
          then Inl (TransitionError ''only failed or terminated workflows can be retried'')
          else
            start_workflow env x (ex_workflow_type e) (ex_definition_version e) (ex_input e)
              (ex_queue_name e) None
              (dict_merge (ex_search_attributes e) [(''dwe.retry_of'', JStr (uuid_str w))])
              (Some w) audit d)"

definition update_search_attributes ::
  "pyenv \<Rightarrow> tx \<Rightarrow> uuid \<Rightarrow> dict \<Rightarrow> string list \<Rightarrow> audit_context option \<Rightarrow> dict txn" where
  "update_search_attributes env x w attributes unset audit d =
     (let detached = jsonb_object attributes
      in if list_ex (\<lambda>k. k = [] \<or> 200 < length k) (map fst detached @ unset)
         then Inl (BadValue ''search attribute keys must contain 1 to 200 characters'')
         else
           case find_execution d w of
             None \<Rightarrow> Inl (TransitionError ''workflow does not exist'')
           | Some e \<Rightarrow>
               let merged = fold dict_pop unset (dict_merge (ex_search_attributes e) detached)
               in if 16000 < utf8_length (canonical_json env (JObj merged))
                  then Inl (BadValue ''search_attributes cannot exceed 16 KB'')
                  else
                    bindR (check_all
                             [(''search_attributes_are_bounded'',
                                pg_column_size env (JObj (jsonb_object merged)) \<le> 16384)]
                             (update_execution w
                               (\<lambda>e. e\<lparr>ex_search_attributes := jsonb_object merged\<rparr>) d)) (\<lambda>d.
                    bindR (record_api_audit x audit (Some w) True
                             (JObj [(''set'', JObj detached), (''unset'', JArr (map JStr unset))]) d)
                      (\<lambda>d. Inr (d, merged))))"

section \<open>Closing\<close>

text \<open>One iteration of the loop of \<^verbatim>\<open>_cancel_pending_timers\<close>; the state carries \<^verbatim>\<open>next_seq\<close>.\<close>

definition cancel_timer ::
  "tx \<Rightarrow> uuid \<Rightarrow> string \<Rightarrow> task_row \<Rightarrow> db \<times> int \<Rightarrow> db_error + db \<times> int" where
  "cancel_timer x w reason timer s =
     (let (d, next_seq) = s;
          hit = (\<lambda>t. tk_id t = tk_id timer \<and> tk_status t = TkPending)
      in if length (filter hit (db_tasks d)) \<noteq> 1
         then Inr (update_tasks hit (finish_task x TkDead) d, next_seq)
         else
           bindR (insert_event x w next_seq TimerCanceled None (tk_entity_id timer) None
                    [(''reason'', JStr reason)] (update_tasks hit (finish_task x TkDead) d))
             (\<lambda>d. Inr (d, next_seq + 1)))"

definition pending_timers :: "uuid \<Rightarrow> db \<Rightarrow> task_row list" where
  "pending_timers w d =
     sort_key (\<lambda>t. (the (tk_command_id t), tk_id t))
       (filter (\<lambda>t. tk_workflow_id t = w \<and> tk_task_type t = TimerTask \<and> tk_status t = TkPending)
         (db_tasks d))"

definition cancel_pending_timers :: "tx \<Rightarrow> uuid \<Rightarrow> int \<Rightarrow> string \<Rightarrow> db \<Rightarrow> db_error + db \<times> int" where
  "cancel_pending_timers x w next_seq reason d =
     foldR (cancel_timer x w reason) (pending_timers w d) (d, next_seq)"

definition reject_pending_updates :: "tx \<Rightarrow> uuid \<Rightarrow> string \<Rightarrow> db \<Rightarrow> db" where
  "reject_pending_updates x w reason =
     update_updates (\<lambda>u. up_workflow_id u = w \<and> up_status u = UpPending)
       (\<lambda>u. u\<lparr>up_status := UpRejected,
              up_failure := Some (JObj (jsonb_object
                [(''type'', JStr ''WorkflowClosed''), (''message'', JStr reason)])),
              up_completed_at := Some (tx_now x)\<rparr>)"

definition running_children :: "uuid \<Rightarrow> db \<Rightarrow> execution_row list" where
  "running_children parent d =
     sort_key (\<lambda>e. (ex_created_at e, ex_id e))
       (filter (\<lambda>e. ex_parent_workflow_id e = Some parent
            \<and> ex_parent_close_policy e = Some ''terminate'' \<and> ex_status e = WfRunning)
         (db_executions d))"

text \<open>The statements that close one child, after its own descendants.\<close>

definition terminate_child :: "tx \<Rightarrow> execution_row \<Rightarrow> db \<Rightarrow> db_error + db" where
  "terminate_child x child d =
     bindR (insert_event x (ex_id child) (ex_next_seq child) WorkflowExecutionTerminated
              None None None
              [(''reason'', JStr ''parent workflow closed''),
               (''cause'', JStr ''parent_close_policy'')] d) (\<lambda>d.
     Inr (reject_pending_updates x (ex_id child) ''parent workflow closed''
       (kill_tasks x (ex_id child)
         (update_execution (ex_id child)
           (\<lambda>e. e\<lparr>ex_status := WfTerminated, ex_next_seq := ex_next_seq child + 1,
                  ex_closed_at := Some (tx_now x),
                  ex_failure := Some (JObj [(''reason'', JStr ''parent workflow closed'')])\<rparr>) d))))"

primrec terminate_descendants :: "nat \<Rightarrow> tx \<Rightarrow> uuid \<Rightarrow> db \<Rightarrow> db_error + db" where
  "terminate_descendants 0 = (\<lambda>x parent d. Inl RecursionError)"
| "terminate_descendants (Suc depth) = (\<lambda>x parent d.
     foldR (\<lambda>child d. bindR (terminate_descendants depth x (ex_id child) d) (terminate_child x child))
       (running_children parent d) d)"

text \<open>\<^verbatim>\<open>_notify_parent_of_child_terminal\<close>; the event type is chosen from the child's final status.\<close>

fun child_event_type :: "workflow_status \<Rightarrow> event_type" where
  "child_event_type WfCompleted = ChildWorkflowCompleted"
| "child_event_type WfFailed = ChildWorkflowFailed"
| "child_event_type _ = ChildWorkflowTerminated"

definition notify_parent_of_child_terminal ::
  "tx \<Rightarrow> uuid \<Rightarrow> uuid \<Rightarrow> uuid option \<Rightarrow> workflow_status \<Rightarrow> json \<Rightarrow> db \<Rightarrow> db_error + db" where
  "notify_parent_of_child_terminal x task_id child parent status payload d =
     (case parent of
        None \<Rightarrow> Inr d
      | Some p \<Rightarrow>
          case find_execution d p of
            None \<Rightarrow> Inr d
          | Some e \<Rightarrow>
              if ex_status e \<noteq> WfRunning then Inr d
              else
                bindR (insert_event x p (ex_next_seq e) (child_event_type status) None (Some child)
                         None [(if status = WfCompleted then ''result'' else ''failure'', payload)] d)
                  (\<lambda>d. insert_workflow_task x task_id p (ex_queue_name e)
                         (set_next_seq p (ex_next_seq e + 1) d)))"

definition terminate_workflow ::
  "nat \<Rightarrow> tx \<Rightarrow> uuid \<Rightarrow> string option \<Rightarrow> audit_context option \<Rightarrow> bool txn" where
  "terminate_workflow depth x w reason audit d =
     (case find_execution d w of
        None \<Rightarrow> Inl (TransitionError ''workflow does not exist'')
      | Some e \<Rightarrow>
          if ex_status e = WfTerminated then duplicate_request x audit w reason d
          else if ex_status e \<noteq> WfRunning then Inl (TerminalWorkflowError w (ex_status e))
          else
            bindR (terminate_descendants depth x w d) (\<lambda>d.
            bindR (cancel_pending_timers x w (ex_next_seq e) ''workflow terminated''
                     (reject_pending_updates x w ''workflow terminated'' d)) (\<lambda>(d, next_seq).
            bindR (insert_event x w next_seq WorkflowExecutionTerminated None None None
                     [(''reason'', reason_json reason)] d) (\<lambda>d.
            bindR (notify_parent_of_child_terminal x (tx_uuid x 0) w (ex_parent_workflow_id e)
                     WfTerminated (JObj [(''reason'', reason_json reason)])
                     (kill_tasks x w
                       (update_execution w
                         (\<lambda>e. e\<lparr>ex_status := WfTerminated, ex_next_seq := next_seq + 1,
                                ex_closed_at := Some (tx_now x)\<rparr>) d))) (\<lambda>d.
            bindR (record_api_audit x audit (Some w) True
                     (JObj [(''reason'', reason_json reason)]) d) (\<lambda>d.
            Inr (d, True)))))))"

definition request_workflow_cancellation ::
  "tx \<Rightarrow> uuid \<Rightarrow> string option \<Rightarrow> audit_context option \<Rightarrow> bool txn" where
  "request_workflow_cancellation x w reason audit d =
     (case find_execution d w of
        None \<Rightarrow> Inl (TransitionError ''workflow does not exist'')
      | Some e \<Rightarrow>
          if ex_status e \<noteq> WfRunning then Inl (TerminalWorkflowError w (ex_status e))
          else if ex_cancellation_requested_at e \<noteq> None then duplicate_request x audit w reason d
          else
            let next_seq = ex_next_seq e
            in bindR (insert_event x w next_seq WorkflowCancellationRequested None None None
                        [(''reason'', reason_json reason)] d) (\<lambda>d.
               bindR (insert_workflow_task x (tx_uuid x 0) w (ex_queue_name e)
                        (update_tasks (\<lambda>t. tk_workflow_id t = w \<and> tk_task_type t = ActivityTask
                              \<and> tk_status t = TkPending) (finish_task x TkDead)
                          (update_execution w
                            (\<lambda>e. e\<lparr>ex_cancellation_requested_at := Some (tx_now x),
                                   ex_cancellation_reason := reason,
                                   ex_next_seq := next_seq + 1\<rparr>) d))) (\<lambda>d.
               bindR (record_api_audit x audit (Some w) True
                        (JObj [(''reason'', reason_json reason)]) d) (\<lambda>d.
               Inr (d, True)))))"

end
