(* ===== verification/Schedules.thy ===== *)
theory Schedules
  imports Transitions
begin

text \<open>
  \<^verbatim>\<open>engine/persistence/schedules.py\<close>: durable cron schedules and the occurrences they start. The
  dataclasses \<^verbatim>\<open>WorkflowSchedule\<close> and \<^verbatim>\<open>ScheduleOccurrence\<close> have the columns of their tables, so a
  row stands for both. Text is ordered by code points, as a database with collation C orders it.
\<close>

definition cron_txn :: "cron_error + 'a \<Rightarrow> db_error + 'a" where
  "cron_txn r = map_sum CronError id r"

definition create_schedule ::
  "pyenv \<Rightarrow> zones \<Rightarrow> tx \<Rightarrow> string \<Rightarrow> string \<Rightarrow> int \<Rightarrow> json \<Rightarrow> string \<Rightarrow> string \<Rightarrow> string \<Rightarrow> dict
    \<Rightarrow> overlap_policy \<Rightarrow> timestamp option \<Rightarrow> audit_context option \<Rightarrow> schedule_row txn" where
  "create_schedule env zones x name workflow_type definition_version workflow_input cron_expression
      timezone queue_name search_attributes overlap_policy clock_time audit d =
     (if name = [] \<or> 200 < int (length name)
      then Inl (BadValue ''schedule name must contain 1 to 200 characters'')
      else if queue_name = [] \<or> 200 < int (length queue_name)
      then Inl (BadValue ''queue_name must contain 1 to 200 characters'')
      else if definition_version < 1 then Inl (BadValue ''definition_version must be at least 1'')
      else
        bindR (cron_txn (parse_cron cron_expression)) (\<lambda>_.
        let now = (case clock_time of Some t \<Rightarrow> t | None \<Rightarrow> tx_clock x 0)
        in bindR (cron_txn (next_cron_time zones cron_expression (Aware now) timezone)) (\<lambda>next_run_at.
        if 14000 < utf8_length (canonical_json env (JObj search_attributes))
        then Inl (BadValue ''schedule search_attributes cannot exceed 14 KB'')
        else if \<not> definition_exists d workflow_type definition_version
        then Inl (DefinitionNotRegisteredError workflow_type definition_version)
        else
          let schedule_id = tx_uuid x 0;
              row = \<lparr>sd_id = schedule_id, sd_name = name, sd_workflow_type = workflow_type,
                     sd_definition_version = definition_version,
                     sd_input = clone_json workflow_input, sd_queue_name = queue_name,
                     sd_search_attributes = jsonb_object search_attributes,
                     sd_cron_expression = cron_expression, sd_timezone = timezone,
                     sd_overlap_policy = overlap_policy, sd_next_run_at = next_run_at,
                     sd_last_run_at = None, sd_paused_at = None, sd_created_at = now,
                     sd_updated_at = now\<rparr>
          in bindR (insert_schedule env row d) (\<lambda>d.
             bindR (record_api_audit x audit None True
                      (JObj [(''schedule_id'', JStr (uuid_str schedule_id)), (''name'', JStr name)]) d) (\<lambda>d.
             Inr (d, row))))))"

definition list_schedules :: "db \<Rightarrow> schedule_row list" where
  "list_schedules d = sort_key (\<lambda>s. (sd_name s, sd_id s)) (db_schedules d)"

definition list_schedule_occurrences :: "uuid \<Rightarrow> int \<Rightarrow> db \<Rightarrow> db_error + occurrence_row list" where
  "list_schedule_occurrences schedule_id limit d =
     (if limit < 1 \<or> limit > 1000 then Inl (BadValue ''limit must be between 1 and 1000'')
      else Inr (select_limit limit (\<lambda>r. oc_schedule_id r = schedule_id)
                  (\<lambda>r. - oc_scheduled_at r) (db_occurrences d)))"

definition set_schedule_paused ::
  "zones \<Rightarrow> tx \<Rightarrow> uuid \<Rightarrow> bool \<Rightarrow> timestamp option \<Rightarrow> audit_context option \<Rightarrow> bool txn" where
  "set_schedule_paused zones x schedule_id paused clock_time audit d =
     (let now = (case clock_time of Some t \<Rightarrow> t | None \<Rightarrow> tx_clock x 0)
      in case find_schedule d schedule_id of
           None \<Rightarrow> Inl (TransitionError ''schedule does not exist'')
         | Some row \<Rightarrow>
             if (sd_paused_at row \<noteq> None) = paused
             then bindR (record_api_audit x audit None False
                    (JObj [(''schedule_id'', JStr (uuid_str schedule_id)),
                           (''duplicate'', JBool True)]) d) (\<lambda>d. Inr (d, False))
             else
               bindR (if paused then Inr (sd_next_run_at row)
                      else cron_txn (next_cron_time zones (sd_cron_expression row) (Aware now)
                             (sd_timezone row))) (\<lambda>next_run_at.
               bindR (record_api_audit x audit None True
                        (JObj [(''schedule_id'', JStr (uuid_str schedule_id)),
                               (''paused'', JBool paused)])
                        (update_schedule schedule_id
                          (\<lambda>s. s\<lparr>sd_paused_at := (if paused then Some now else None),
                                 sd_next_run_at := next_run_at, sd_updated_at := now\<rparr>) d)) (\<lambda>d.
               Inr (d, True))))"

text \<open>
  \<^verbatim>\<open>_start_occurrence\<close>. The numbers \<open>i\<close> and \<open>j\<close> count the calls of \<^verbatim>\<open>uuid4()\<close> and \<^verbatim>\<open>datetime.now\<close> that the
  transaction has made before this one.
\<close>

definition occurrence_attributes :: "pyenv \<Rightarrow> schedule_row \<Rightarrow> timestamp \<Rightarrow> dict" where
  "occurrence_attributes env schedule scheduled_at =
     dict_merge (sd_search_attributes schedule)
       [(''dwe.schedule_id'', JStr (uuid_str (sd_id schedule))),
        (''dwe.schedule_name'', JStr (sd_name schedule)),
        (''dwe.scheduled_at'', JStr (py_isoformat env scheduled_at))]"

definition occurrence_execution ::
  "pyenv \<Rightarrow> uuid \<Rightarrow> timestamp \<Rightarrow> schedule_row \<Rightarrow> timestamp \<Rightarrow> execution_row" where
  "occurrence_execution env workflow_id started_at schedule scheduled_at =
     (new_execution workflow_id (sd_workflow_type schedule) (sd_definition_version schedule)
        (sd_input schedule) (sd_queue_name schedule) started_at
        (occurrence_attributes env schedule scheduled_at))
     \<lparr>ex_schedule_id := Some (sd_id schedule), ex_scheduled_at := Some scheduled_at\<rparr>"

definition record_occurrence ::
  "tx \<Rightarrow> uuid \<Rightarrow> timestamp \<Rightarrow> uuid \<Rightarrow> bool \<Rightarrow> db \<Rightarrow> db_error + db" where
  "record_occurrence x schedule_id scheduled_at workflow_id buffered d =
     (if buffered
      then Inr (update_occurrences
             (\<lambda>r. oc_schedule_id r = schedule_id \<and> oc_scheduled_at r = scheduled_at
                  \<and> oc_status r = OcBuffered)
             (\<lambda>r. r\<lparr>oc_status := OcStarted, oc_workflow_id := Some workflow_id,
                    oc_reason := None\<rparr>) d)
      else insert_occurrence
             \<lparr>oc_schedule_id = schedule_id, oc_scheduled_at = scheduled_at, oc_status = OcStarted,
              oc_workflow_id = Some workflow_id, oc_reason = None, oc_created_at = tx_now x\<rparr> d)"

definition start_occurrence ::
  "pyenv \<Rightarrow> tx \<Rightarrow> nat \<Rightarrow> nat \<Rightarrow> schedule_row \<Rightarrow> timestamp \<Rightarrow> bool \<Rightarrow> db \<Rightarrow> db_error + db" where
  "start_occurrence env x i j schedule scheduled_at buffered d =
     (let workflow_id = tx_uuid x i; started_at = tx_clock x j; task_id = tx_uuid x (i + 1)
      in bindR (create_execution env x task_id
                  (occurrence_execution env workflow_id started_at schedule scheduled_at)
                  [(''workflow_type'', JStr (sd_workflow_type schedule)),
                   (''definition_version'', JInt (sd_definition_version schedule)),
                   (''input'', sd_input schedule),
                   (''search_attributes'', JObj (occurrence_attributes env schedule scheduled_at)),
                   (''started_at'', JStr (py_isoformat env started_at)),
                   (''schedule_id'', JStr (uuid_str (sd_id schedule))),
                   (''scheduled_at'', JStr (py_isoformat env scheduled_at))] d)
           (record_occurrence x (sd_id schedule) scheduled_at workflow_id buffered))"

text \<open>The rows that the two queries of \<^verbatim>\<open>materialize_due_schedule\<close> select.\<close>

definition schedule_active :: "db \<Rightarrow> uuid \<Rightarrow> bool" where
  "schedule_active d i =
     list_ex (\<lambda>e. ex_schedule_id e = Some i \<and> ex_status e = WfRunning) (db_executions d)"

definition occurrence_join :: "db \<Rightarrow> (schedule_row \<times> occurrence_row) list" where
  "occurrence_join d =
     concat (map (\<lambda>r. map (\<lambda>s. (s, r)) (filter (\<lambda>s. sd_id s = oc_schedule_id r) (db_schedules d)))
       (db_occurrences d))"

definition buffered_candidate :: "tx \<Rightarrow> db \<Rightarrow> (schedule_row \<times> occurrence_row) option" where
  "buffered_candidate x d =
     select_first
       (\<lambda>(s, r). oc_status r = OcBuffered \<and> sd_paused_at s = None
          \<and> \<not> schedule_active d (sd_id s) \<and> sd_id s \<notin> set (tx_locked x))
       (\<lambda>(s, r). (oc_scheduled_at r, sd_id s)) (occurrence_join d)"

definition due_schedule :: "tx \<Rightarrow> timestamp \<Rightarrow> db \<Rightarrow> schedule_row option" where
  "due_schedule x now d =
     select_first
       (\<lambda>s. sd_paused_at s = None \<and> sd_next_run_at s \<le> now \<and> sd_id s \<notin> set (tx_locked x))
       (\<lambda>s. (sd_next_run_at s, sd_id s)) (db_schedules d)"

definition already_buffered :: "db \<Rightarrow> uuid \<Rightarrow> bool" where
  "already_buffered d i =
     list_ex (\<lambda>r. oc_schedule_id r = i \<and> oc_status r = OcBuffered) (db_occurrences d)"

text \<open>What happens to one due occurrence: recorded as skipped or buffered, or started.\<close>

definition overlapped_occurrence :: "tx \<Rightarrow> schedule_row \<Rightarrow> db \<Rightarrow> occurrence_row" where
  "overlapped_occurrence x s d =
     (let buffer = sd_overlap_policy s = OverlapBufferOne \<and> \<not> already_buffered d (sd_id s)
      in \<lparr>oc_schedule_id = sd_id s, oc_scheduled_at = sd_next_run_at s,
          oc_status = (if buffer then OcBuffered else OcSkipped), oc_workflow_id = None,
          oc_reason = Some (if buffer then ''waiting for active execution''
                            else ''overlap policy skipped active occurrence''),
          oc_created_at = tx_now x\<rparr>)"

definition materialize_occurrence ::
  "pyenv \<Rightarrow> tx \<Rightarrow> nat \<Rightarrow> schedule_row \<Rightarrow> db \<Rightarrow> db_error + db" where
  "materialize_occurrence env x j s d =
     (if schedule_active d (sd_id s) \<and> sd_overlap_policy s \<noteq> OverlapAllow
      then insert_occurrence (overlapped_occurrence x s d) d
      else start_occurrence env x 0 j s (sd_next_run_at s) False d)"

definition materialize_due_schedule ::
  "pyenv \<Rightarrow> zones \<Rightarrow> tx \<Rightarrow> timestamp option \<Rightarrow> bool txn" where
  "materialize_due_schedule env zones x clock_time d =
     (let now = (case clock_time of Some t \<Rightarrow> t | None \<Rightarrow> tx_clock x 0);
          j = (case clock_time of Some t \<Rightarrow> 0 | None \<Rightarrow> 1)
      in case buffered_candidate x d of
           Some (s, r) \<Rightarrow>
             bindR (start_occurrence env x 0 j s (oc_scheduled_at r) True d) (\<lambda>d. Inr (d, True))
         | None \<Rightarrow>
             (case due_schedule x now d of
                None \<Rightarrow> Inr (d, False)
              | Some s \<Rightarrow>
                  bindR (cron_txn (next_cron_time zones (sd_cron_expression s)
                           (Aware (sd_next_run_at s)) (sd_timezone s))) (\<lambda>next_run_at.
                  bindR (materialize_occurrence env x j s d) (\<lambda>d.
                  Inr (update_schedule (sd_id s)
                         (\<lambda>r. r\<lparr>sd_next_run_at := next_run_at,
                                sd_last_run_at := Some (sd_next_run_at s),
                                sd_updated_at := now\<rparr>) d, True)))))"

text \<open>The loop that collects the occurrences to start again, and the loop that starts them.\<close>

function backfill_times ::
  "(timestamp \<Rightarrow> db_error + timestamp) \<Rightarrow> int \<Rightarrow> timestamp \<Rightarrow> timestamp list \<Rightarrow> timestamp
    \<Rightarrow> db_error + timestamp list" where
  "backfill_times next_time limit end_at occurrences cursor =
     bindR (next_time cursor) (\<lambda>candidate.
       if candidate > end_at then Inr occurrences
       else if int (length (occurrences @ [candidate])) > limit
       then Inl (BadValue ''backfill exceeds the occurrence limit'')
       else backfill_times next_time limit end_at (occurrences @ [candidate]) candidate)"
  by pat_completeness auto
termination
  by (relation "measure (\<lambda>(n, limit, e, os, c). nat (limit + 1 - int (length os)))") auto

declare backfill_times.simps [simp del]

definition occurrence_exists :: "db \<Rightarrow> uuid \<Rightarrow> timestamp \<Rightarrow> bool" where
  "occurrence_exists d i t =
     list_ex (\<lambda>r. oc_schedule_id r = i \<and> oc_scheduled_at r = t) (db_occurrences d)"

definition backfill_one ::
  "pyenv \<Rightarrow> tx \<Rightarrow> schedule_row \<Rightarrow> timestamp \<Rightarrow> db \<times> nat \<Rightarrow> db_error + db \<times> nat" where
  "backfill_one env x s scheduled_at = (\<lambda>(d, started).
     if occurrence_exists d (sd_id s) scheduled_at then Inr (d, started)
     else bindR (start_occurrence env x (2 * started) started s scheduled_at False d)
            (\<lambda>d. Inr (d, started + 1)))"

fun aware :: "datetime \<Rightarrow> timestamp option" where
  "aware (Naive t) = None"
| "aware (Aware t) = Some t"

definition backfill_schedule ::
  "pyenv \<Rightarrow> zones \<Rightarrow> tx \<Rightarrow> uuid \<Rightarrow> datetime \<Rightarrow> datetime \<Rightarrow> int \<Rightarrow> audit_context option \<Rightarrow> nat txn" where
  "backfill_schedule env zones x schedule_id start_at end_at limit audit d =
     (case (aware start_at, aware end_at) of
        (Some start, Some stop) \<Rightarrow>
          if stop < start then Inl (BadValue ''backfill end_at must not precede start_at'')
          else if limit < 1 \<or> limit > 100
          then Inl (BadValue ''backfill limit must be between 1 and 100'')
          else
            (case find_schedule d schedule_id of
               None \<Rightarrow> Inl (TransitionError ''schedule does not exist'')
             | Some row \<Rightarrow>
                 bindR (backfill_times
                          (\<lambda>c. cron_txn (next_cron_time zones (sd_cron_expression row) (Aware c)
                             (sd_timezone row))) limit stop [] (start - minute_us)) (\<lambda>occurrences.
                 bindR (foldR (backfill_one env x row) occurrences (d, 0)) (\<lambda>(d, started).
                 bindR (record_api_audit x audit None True
                          (JObj [(''schedule_id'', JStr (uuid_str schedule_id)),
                                 (''start_at'', JStr (py_isoformat env start)),
                                 (''end_at'', JStr (py_isoformat env stop)),
                                 (''started'', JInt (int started))]) d) (\<lambda>d.
                 Inr (d, started)))))
      | _ \<Rightarrow> Inl (BadValue ''backfill timestamps must be timezone aware''))"

end
