(* ===== verification/Signals.thy ===== *)
theory Signals
  imports Transitions
begin

text \<open>
  \<^verbatim>\<open>engine/persistence/signals.py\<close>, \<^verbatim>\<open>engine/persistence/updates.py\<close> and
  \<^verbatim>\<open>engine/persistence/effects.py\<close>: requests from outside that are deduplicated by an identifier
  the caller chooses.
\<close>

section \<open>Signals\<close>

definition external_id_used :: "db \<Rightarrow> uuid \<Rightarrow> string \<Rightarrow> bool" where
  "external_id_used d w i =
     list_ex (\<lambda>r. hr_workflow_id r = w \<and> hr_external_id r = Some i) (db_history d)"

definition send_signal ::
  "tx \<Rightarrow> uuid \<Rightarrow> string \<Rightarrow> string \<Rightarrow> json \<Rightarrow> audit_context option \<Rightarrow> bool txn" where
  "send_signal x w signal_id name payload audit d =
     (if signal_id = [] then Inl (BadValue ''signal_id cannot be empty'')
      else if name = [] then Inl (BadValue ''signal name cannot be empty'')
      else
        case find_execution d w of
          None \<Rightarrow> Inl (TransitionError ''workflow does not exist'')
        | Some e \<Rightarrow>
            if external_id_used d w signal_id
            then bindR (record_api_audit x audit (Some w) False
                   (JObj [(''signal_id'', JStr signal_id), (''name'', JStr name),
                          (''duplicate'', JBool True)]) d) (\<lambda>d. Inr (d, False))
            else if ex_status e \<noteq> WfRunning then Inl (TerminalWorkflowError w (ex_status e))
            else
              bindR (insert_event x w (ex_next_seq e) SignalReceived None None (Some signal_id)
                       [(''name'', JStr name), (''payload'', clone_json payload)] d) (\<lambda>d.
              bindR (insert_workflow_task x (tx_uuid x 0) w (ex_queue_name e) d) (\<lambda>d.
              bindR (record_api_audit x audit (Some w) True
                       (JObj [(''signal_id'', JStr signal_id), (''name'', JStr name)])
                       (set_next_seq w (ex_next_seq e + 1) d)) (\<lambda>d.
              Inr (d, True)))))"

section \<open>Updates\<close>

definition send_update ::
  "tx \<Rightarrow> uuid \<Rightarrow> string \<Rightarrow> string \<Rightarrow> json \<Rightarrow> audit_context option \<Rightarrow> (update_row \<times> bool) txn" where
  "send_update x w update_id name payload audit d =
     (if update_id = [] \<or> 200 < length update_id
      then Inl (BadValue ''update_id must contain 1 to 200 characters'')
      else if name = [] \<or> 200 < length name
      then Inl (BadValue ''update name must contain 1 to 200 characters'')
      else
        case find_execution d w of
          None \<Rightarrow> Inl (TransitionError ''workflow does not exist'')
        | Some e \<Rightarrow>
            case find_update d w update_id of
              Some existing \<Rightarrow>
                bindR (record_api_audit x audit (Some w) False
                         (JObj [(''update_id'', JStr update_id), (''name'', JStr name),
                                (''duplicate'', JBool True)]) d) (\<lambda>d. Inr (d, (existing, False)))
            | None \<Rightarrow>
                if ex_status e \<noteq> WfRunning then Inl (TerminalWorkflowError w (ex_status e))
                else
                  let row = \<lparr>up_workflow_id = w, up_update_id = update_id, up_name = name,
                        up_payload = clone_json payload, up_status = UpPending, up_result = None,
                        up_failure = None, up_created_at = tx_now x, up_completed_at = None\<rparr>
                  in bindR (insert_update row d) (\<lambda>d.
                     bindR (insert_event x w (ex_next_seq e) WorkflowUpdateReceived None None
                              (Some (''update:'' @ update_id))
                              [(''update_id'', JStr update_id), (''name'', JStr name),
                               (''payload'', clone_json payload)] d) (\<lambda>d.
                     bindR (insert_workflow_task x (tx_uuid x 0) w (ex_queue_name e) d) (\<lambda>d.
                     bindR (record_api_audit x audit (Some w) True
                              (JObj [(''update_id'', JStr update_id), (''name'', JStr name)])
                              (set_next_seq w (ex_next_seq e + 1) d)) (\<lambda>d.
                     Inr (d, (row, True)))))))"

definition get_update :: "db \<Rightarrow> uuid \<Rightarrow> string \<Rightarrow> update_row option" where
  "get_update d w update_id = find_update d w update_id"

text \<open>
  \<^verbatim>\<open>order by created_at desc, update_id limit $2\<close>.
\<close>

definition list_updates :: "db \<Rightarrow> uuid \<Rightarrow> int \<Rightarrow> db_error + update_row list" where
  "list_updates d w limit =
     (if limit < 1 \<or> 1000 < limit then Inl (BadValue ''limit must be between 1 and 1000'')
      else Inr (select_limit limit (\<lambda>u. up_workflow_id u = w)
                  (\<lambda>u. (- up_created_at u, up_update_id u)) (db_updates d)))"

section \<open>The effect ledger\<close>

definition record_idempotent_effect :: "tx \<Rightarrow> string \<Rightarrow> json \<Rightarrow> bool txn" where
  "record_idempotent_effect x idempotency_key payload d =
     (if idempotency_key = [] then Inl (BadValue ''idempotency_key cannot be empty'')
      else if list_ex (\<lambda>r. ef_idempotency_key r = idempotency_key) (db_effects d)
      then Inr (d, False)
      else Inr (d\<lparr>db_effects := db_effects d @
             [\<lparr>ef_idempotency_key = idempotency_key, ef_payload = clone_json (clone_json payload),
               ef_recorded_at = tx_now x\<rparr>]\<rparr>, True))"

end
