(* ===== verification/Operations.thy ===== *)
theory Operations
  imports Database
begin

text \<open>
  \<^verbatim>\<open>engine/persistence/operations.py\<close>: worker heartbeats, the dead-letter list and the operational
  gauges. The host name and the process id are arguments; a gauge is the integer its float denotes.
\<close>

section \<open>Worker heartbeats\<close>

text \<open>
  \<^verbatim>\<open>insert ... on conflict (worker_id) do update\<close>: the checks of the proposed row come first, then
  either the row of the worker is refreshed or a new one is inserted.
\<close>

definition worker_seen :: "tx \<Rightarrow> uuid \<Rightarrow> timestamp option \<Rightarrow> worker_row \<Rightarrow> worker_row" where
  "worker_seen x worker_id stopped r =
     (if wk_worker_id r = worker_id
      then r\<lparr>wk_last_seen_at := tx_now x, wk_stopped_at := stopped\<rparr> else r)"

definition new_worker :: "tx \<Rightarrow> uuid \<Rightarrow> string \<Rightarrow> int \<Rightarrow> string \<Rightarrow> string list \<Rightarrow> worker_row" where
  "new_worker x worker_id hostname process_id queue_name roles =
     \<lparr>wk_worker_id = worker_id, wk_hostname = hostname, wk_process_id = process_id,
      wk_queue_name = queue_name, wk_roles = roles, wk_started_at = tx_now x,
      wk_last_seen_at = tx_now x, wk_stopped_at = None\<rparr>"

definition heartbeat_worker ::
  "tx \<Rightarrow> uuid \<Rightarrow> string \<Rightarrow> int \<Rightarrow> string \<Rightarrow> string list \<Rightarrow> unit txn" where
  "heartbeat_worker x worker_id hostname process_id queue_name roles d =
     bindR (check_all
              [(''worker_heartbeats_process_id_check'', 0 < process_id),
               (''worker_heartbeats_roles_check'', roles \<noteq> [])]
              (if list_ex (\<lambda>r. wk_worker_id r = worker_id) (db_workers d)
               then d\<lparr>db_workers := map (worker_seen x worker_id None) (db_workers d)\<rparr>
               else d\<lparr>db_workers := db_workers d @
                      [new_worker x worker_id hostname process_id queue_name roles]\<rparr>))
       (\<lambda>d. Inr (d, ()))"

definition stop_worker :: "tx \<Rightarrow> uuid \<Rightarrow> unit txn" where
  "stop_worker x worker_id d =
     Inr (d\<lparr>db_workers := map (worker_seen x worker_id (Some (tx_now x))) (db_workers d)\<rparr>, ())"

definition worker_healthy :: "tx \<Rightarrow> int \<Rightarrow> worker_row \<Rightarrow> bool" where
  "worker_healthy x stale_after_seconds r \<longleftrightarrow>
     wk_stopped_at r = None \<and> wk_last_seen_at r > tx_now x - stale_after_seconds * 1000000"

record worker_heartbeat =
  wh_row :: worker_row
  wh_healthy :: bool

definition list_worker_heartbeats :: "tx \<Rightarrow> int \<Rightarrow> db \<Rightarrow> worker_heartbeat list" where
  "list_worker_heartbeats x stale_after_seconds d =
     map (\<lambda>r. \<lparr>wh_row = r, wh_healthy = worker_healthy x stale_after_seconds r\<rparr>)
       (sort_key (\<lambda>r. - wk_started_at r) (db_workers d))"

section \<open>Dead tasks\<close>

record dead_task =
  dt_id :: uuid
  dt_workflow_id :: uuid
  dt_workflow_type :: string
  dt_task_type :: task_type
  dt_queue_name :: string
  dt_entity_id :: "uuid option"
  dt_command_id :: "int option"
  dt_attempt :: int
  dt_input :: json
  dt_outcome :: json
  dt_created_at :: timestamp
  dt_completed_at :: "timestamp option"

text \<open>The lateral subquery: the newest failing event of the task's entity, or of its workflow.\<close>

definition dead_task_outcome :: "db \<Rightarrow> task_row \<Rightarrow> json" where
  "dead_task_outcome d t =
     (case select_first
        (\<lambda>h. hr_workflow_id h = tk_workflow_id t
           \<and> (tk_entity_id t = None \<or> hr_entity_id h = tk_entity_id t)
           \<and> hr_event_type h \<in> {ActivityFailed, ActivityTimedOut, TimerCanceled,
                WorkflowExecutionFailed, WorkflowExecutionTerminated})
        (\<lambda>h. - hr_seq h) (db_history d) of
        None \<Rightarrow> JNull
      | Some h \<Rightarrow> JObj (hr_attributes h))"

definition dead_task_of :: "db \<Rightarrow> task_row \<times> execution_row \<Rightarrow> dead_task" where
  "dead_task_of d = (\<lambda>(t, e).
     \<lparr>dt_id = tk_id t, dt_workflow_id = tk_workflow_id t, dt_workflow_type = ex_workflow_type e,
      dt_task_type = tk_task_type t, dt_queue_name = tk_queue_name t,
      dt_entity_id = tk_entity_id t, dt_command_id = tk_command_id t, dt_attempt = tk_attempt t,
      dt_input = opt_json id (tk_input t), dt_outcome = dead_task_outcome d t,
      dt_created_at = tk_created_at t, dt_completed_at = tk_completed_at t\<rparr>)"

text \<open>\<^verbatim>\<open>order by completed_at desc, id\<close>; a completion time is never null in a dead row.\<close>

definition dead_task_order :: "task_row \<times> execution_row \<Rightarrow> int \<times> uuid" where
  "dead_task_order = (\<lambda>(t, e). (case tk_completed_at t of None \<Rightarrow> 0 | Some c \<Rightarrow> - c, tk_id t))"

definition task_execution_join :: "db \<Rightarrow> (task_row \<times> execution_row) list" where
  "task_execution_join d =
     concat (map (\<lambda>t. map (\<lambda>e. (t, e)) (filter (\<lambda>e. ex_id e = tk_workflow_id t) (db_executions d)))
       (db_tasks d))"

definition list_dead_tasks :: "int \<Rightarrow> db \<Rightarrow> db_error + dead_task list" where
  "list_dead_tasks limit d =
     (if limit < 1 \<or> limit > 1000 then Inl (BadValue ''limit must be between 1 and 1000'')
      else Inr (map (dead_task_of d)
             (select_limit limit (\<lambda>(t, e). tk_status t = TkDead) dead_task_order
               (task_execution_join d))))"

section \<open>Gauges\<close>

definition count_where :: "('a \<Rightarrow> bool) \<Rightarrow> 'a list \<Rightarrow> int" where
  "count_where p xs = int (length (filter p xs))"

definition get_operational_gauges :: "tx \<Rightarrow> int \<Rightarrow> db \<Rightarrow> (string \<times> int) list" where
  "get_operational_gauges x stale_after_seconds d =
     [(''dwe_tasks_pending'', count_where (\<lambda>t. tk_status t = TkPending) (db_tasks d)),
      (''dwe_tasks_leased'', count_where (\<lambda>t. tk_status t = TkLeased) (db_tasks d)),
      (''dwe_tasks_dead'', count_where (\<lambda>t. tk_status t = TkDead) (db_tasks d)),
      (''dwe_workflows_running'', count_where (\<lambda>e. ex_status e = WfRunning) (db_executions d)),
      (''dwe_workflows_paused'',
        count_where (\<lambda>e. ex_status e = WfRunning \<and> ex_paused_at e \<noteq> None) (db_executions d)),
      (''dwe_workers_healthy'', count_where (worker_healthy x stale_after_seconds) (db_workers d))]"

section \<open>Laws\<close>

lemma worker_seen_id [simp]: "wk_worker_id (worker_seen x w s r) = wk_worker_id r"
  by (simp add: worker_seen_def)

lemma worker_seen_hit [simp]:
  "wk_worker_id r = w \<Longrightarrow> wk_last_seen_at (worker_seen x w s r) = tx_now x"
  "wk_worker_id r = w \<Longrightarrow> wk_stopped_at (worker_seen x w s r) = s"
  by (simp_all add: worker_seen_def)

lemma worker_seen_ids: "map wk_worker_id (map (worker_seen x w s) rs) = map wk_worker_id rs"
  by simp

lemma new_worker_simps [simp]:
  "wk_worker_id (new_worker x w h p q roles) = w" "wk_last_seen_at (new_worker x w h p q roles) = tx_now x"
  "wk_stopped_at (new_worker x w h p q roles) = None"
  by (simp_all add: new_worker_def)

lemma heartbeat_worker_Inr:
  assumes "heartbeat_worker x w h p q roles d = Inr (d', u)"
  shows "d' = d\<lparr>db_workers := (if w \<in> wk_worker_id ` set (db_workers d)
      then map (worker_seen x w None) (db_workers d)
      else db_workers d @ [new_worker x w h p q roles])\<rparr>"
proof -
  have "list_ex (\<lambda>r. wk_worker_id r = w) (db_workers d) \<longleftrightarrow> w \<in> wk_worker_id ` set (db_workers d)"
    by (auto simp: list_ex_iff)
  then show ?thesis using assms by (auto simp: heartbeat_worker_def res_simps split: if_splits)
qed

text \<open>Every worker has one row, and a heartbeat leaves its row seen now and not stopped.\<close>

lemma heartbeat_worker_ids:
  assumes "heartbeat_worker x w h p q roles d = Inr (d', u)" and "distinct (map wk_worker_id (db_workers d))"
  shows "distinct (map wk_worker_id (db_workers d'))"
  using assms(2) unfolding heartbeat_worker_Inr[OF assms(1)]
  by (simp add: worker_seen_ids del: map_map)

lemma worker_seen_row:
  assumes "r \<in> set (map (worker_seen x w s) rs)" and "wk_worker_id r = w"
  shows "wk_last_seen_at r = tx_now x" and "wk_stopped_at r = s"
proof -
  obtain r0 where "r = worker_seen x w s r0" using assms(1) by auto
  moreover from this have "wk_worker_id r0 = w" using assms(2) by simp
  ultimately show "wk_last_seen_at r = tx_now x" "wk_stopped_at r = s" by simp_all
qed

lemma heartbeat_worker_seen:
  assumes "heartbeat_worker x w h p q roles d = Inr (d', u)"
  shows "\<exists>r\<in>set (db_workers d'). wk_worker_id r = w"
    and "\<And>r. r \<in> set (db_workers d') \<Longrightarrow> wk_worker_id r = w \<Longrightarrow>
      wk_last_seen_at r = tx_now x \<and> wk_stopped_at r = None"
proof -
  note d' = heartbeat_worker_Inr[OF assms]
  show "\<exists>r\<in>set (db_workers d'). wk_worker_id r = w" by (subst d') auto
  fix r assume r: "r \<in> set (db_workers d')" "wk_worker_id r = w"
  show "wk_last_seen_at r = tx_now x \<and> wk_stopped_at r = None"
  proof (cases "w \<in> wk_worker_id ` set (db_workers d)")
    case True
    then have "r \<in> set (map (worker_seen x w None) (db_workers d))" using r(1) by (subst (asm) d') simp
    from worker_seen_row[OF this r(2)] show ?thesis by simp
  next
    case False
    then have "r = new_worker x w h p q roles" using r by (subst (asm) d') auto
    then show ?thesis by (simp only: new_worker_simps simp_thms)
  qed
qed

lemma stop_worker_stopped:
  assumes "stop_worker x w d = Inr (d', u)" and "r \<in> set (db_workers d')" and "wk_worker_id r = w"
  shows "wk_stopped_at r = Some (tx_now x)"
  by (rule worker_seen_row(2)[OF _ assms(3)]) (use assms(1,2) in \<open>auto simp: stop_worker_def\<close>)

text \<open>The counts of a partition add up.\<close>

lemma count_where_split: "count_where p xs = count_where (\<lambda>x. p x \<and> q x) xs + count_where (\<lambda>x. p x \<and> \<not> q x) xs"
  by (induction xs) (auto simp: count_where_def)

lemma count_where_all: "count_where (\<lambda>x. True) xs = int (length xs)"
  by (simp add: count_where_def)

lemma count_where_mono: "(\<And>x. p x \<Longrightarrow> q x) \<Longrightarrow> count_where p xs \<le> count_where q xs"
  by (induction xs) (auto simp: count_where_def)

end
