(* ===== verification/Queries.thy ===== *)
theory Queries
  imports Operations
begin

text \<open>
  \<^verbatim>\<open>engine/persistence/queries.py\<close>: read-only queries on executions and histories. The dataclass
  \<^verbatim>\<open>ExecutionSummary\<close> has the columns of \<^verbatim>\<open>workflow_executions\<close>, so a row stands for it, with null
  JSON columns read as \<^verbatim>\<open>None\<close>.
\<close>

section \<open>Executions\<close>

text \<open>
  What the search statement computes in PostgreSQL: \<open>pg_ilike s q\<close> is
  \<^verbatim>\<open>s ilike '%' || q || '%'\<close>, \<open>pg_jsonb_text\<close> the cast of a \<^verbatim>\<open>jsonb\<close> value to text, and
  \<open>pg_contains\<close> the containment operator on \<^verbatim>\<open>jsonb\<close>.
\<close>

record pg_search =
  pg_ilike :: "string \<Rightarrow> string \<Rightarrow> bool"
  pg_jsonb_text :: "dict \<Rightarrow> string"
  pg_contains :: "dict \<Rightarrow> dict \<Rightarrow> bool"

fun status_text :: "workflow_status \<Rightarrow> string" where
  "status_text WfRunning = ''running''"
| "status_text WfCompleted = ''completed''"
| "status_text WfFailed = ''failed''"
| "status_text WfTerminated = ''terminated''"

definition status_selected :: "string option \<Rightarrow> execution_row \<Rightarrow> bool" where
  "status_selected status e =
     (case status of
        None \<Rightarrow> True
      | Some s \<Rightarrow> (s = ''attention'' \<and> ex_status e \<in> {WfFailed, WfTerminated})
          \<or> status_text (ex_status e) = s)"

definition text_selected :: "pg_search \<Rightarrow> string option \<Rightarrow> execution_row \<Rightarrow> bool" where
  "text_selected pg query e =
     (case query of
        None \<Rightarrow> True
      | Some q \<Rightarrow> pg_ilike pg (uuid_str (ex_id e)) q \<or> pg_ilike pg (ex_workflow_type e) q
          \<or> pg_ilike pg (ex_queue_name e) q
          \<or> pg_ilike pg (pg_jsonb_text pg (ex_search_attributes e)) q)"

definition opt_equal :: "'a option \<Rightarrow> 'a \<Rightarrow> bool" where
  "opt_equal x v = (case x of None \<Rightarrow> True | Some y \<Rightarrow> v = y)"

definition list_executions ::
  "pg_search \<Rightarrow> string option \<Rightarrow> string option \<Rightarrow> string option \<Rightarrow> string option \<Rightarrow> dict \<Rightarrow> int \<Rightarrow> db
    \<Rightarrow> db_error + execution_row list" where
  "list_executions pg status workflow_type queue_name query search_attributes limit d =
     (if limit < 1 \<or> limit > 1000 then Inl (BadValue ''limit must be between 1 and 1000'')
      else Inr (select_limit limit
             (\<lambda>e. status_selected status e \<and> opt_equal workflow_type (ex_workflow_type e)
                \<and> opt_equal queue_name (ex_queue_name e) \<and> text_selected pg query e
                \<and> pg_contains pg (ex_search_attributes e) search_attributes)
             (\<lambda>e. (- ex_created_at e, ex_id e)) (db_executions d)))"

definition get_execution :: "uuid \<Rightarrow> db \<Rightarrow> execution_row option" where
  "get_execution w d = find_execution d w"

record execution_stats =
  es_total :: int
  es_running :: int
  es_completed :: int
  es_failed :: int
  es_terminated :: int

definition get_execution_stats :: "db \<Rightarrow> execution_stats" where
  "get_execution_stats d =
     \<lparr>es_total = int (length (db_executions d)),
      es_running = count_where (\<lambda>e. ex_status e = WfRunning) (db_executions d),
      es_completed = count_where (\<lambda>e. ex_status e = WfCompleted) (db_executions d),
      es_failed = count_where (\<lambda>e. ex_status e = WfFailed) (db_executions d),
      es_terminated = count_where (\<lambda>e. ex_status e = WfTerminated) (db_executions d)\<rparr>"

section \<open>The continuation chain\<close>

text \<open>
  The two recursive common table expressions. An id selects at most one row, so each of them
  follows one link at a time; both stop after 999 steps.
\<close>

function chain_root :: "db \<Rightarrow> int \<Rightarrow> execution_row \<Rightarrow> execution_row" where
  "chain_root d depth e =
     (if \<not> depth < 999 then e
      else case ex_continued_from e of
             None \<Rightarrow> e
           | Some p \<Rightarrow>
               (case find_execution d p of
                  None \<Rightarrow> e
                | Some previous \<Rightarrow> chain_root d (depth + 1) previous))"
  by pat_completeness auto
termination by (relation "measure (\<lambda>(d, n, e). nat (999 - n))") auto

function chain_from :: "db \<Rightarrow> int \<Rightarrow> execution_row \<Rightarrow> execution_row list" where
  "chain_from d chain_index e =
     e # (if \<not> chain_index < 999 then []
          else case ex_continued_to e of
                 None \<Rightarrow> []
               | Some n \<Rightarrow>
                   (case find_execution d n of
                      None \<Rightarrow> []
                    | Some following \<Rightarrow> chain_from d (chain_index + 1) following))"
  by pat_completeness auto
termination by (relation "measure (\<lambda>(d, n, e). nat (999 - n))") auto

declare chain_root.simps [simp del] chain_from.simps [simp del]

definition get_continuation_chain :: "uuid \<Rightarrow> db \<Rightarrow> execution_row list" where
  "get_continuation_chain w d =
     (case find_execution d w of
        None \<Rightarrow> []
      | Some e \<Rightarrow> chain_from d 0 (chain_root d 0 e))"

section \<open>Histories\<close>

record history_record =
  rc_seq :: int
  rc_event_type :: event_type
  rc_command_id :: "int option"
  rc_entity_id :: "uuid option"
  rc_external_id :: "string option"
  rc_attributes :: dict
  rc_created_at :: timestamp

definition history_record_of :: "history_row \<Rightarrow> history_record" where
  "history_record_of r =
     \<lparr>rc_seq = hr_seq r, rc_event_type = hr_event_type r, rc_command_id = hr_command_id r,
      rc_entity_id = hr_entity_id r, rc_external_id = hr_external_id r,
      rc_attributes = hr_attributes r, rc_created_at = hr_created_at r\<rparr>"

definition get_history :: "uuid \<Rightarrow> db \<Rightarrow> history_record list" where
  "get_history w d =
     map history_record_of (sort_key hr_seq (filter (\<lambda>r. hr_workflow_id r = w) (db_history d)))"

record history_page =
  pg_items :: "history_record list"
  pg_next_after_seq :: "int option"

definition get_history_page :: "uuid \<Rightarrow> int \<Rightarrow> int \<Rightarrow> db \<Rightarrow> db_error + history_page" where
  "get_history_page w after_seq limit d =
     (if after_seq < 0 then Inl (BadValue ''after_seq cannot be negative'')
      else if limit < 1 \<or> limit > 1000 then Inl (BadValue ''limit must be between 1 and 1000'')
      else
        let rows = select_limit (limit + 1) (\<lambda>r. hr_workflow_id r = w \<and> hr_seq r > after_seq) hr_seq
                     (db_history d);
            has_more = int (length rows) > limit;
            items = map history_record_of (take (nat limit) rows)
        in Inr \<lparr>pg_items = items,
                pg_next_after_seq =
                  (if has_more \<and> items \<noteq> [] then Some (rc_seq (last items)) else None)\<rparr>)"

definition get_history_tail :: "uuid \<Rightarrow> int \<Rightarrow> db \<Rightarrow> db_error + history_record list" where
  "get_history_tail w limit d =
     (if limit < 1 \<or> limit > 1000 then Inl (BadValue ''limit must be between 1 and 1000'')
      else Inr (rev (map history_record_of
             (select_limit limit (\<lambda>r. hr_workflow_id r = w) (\<lambda>r. - hr_seq r) (db_history d)))))"

end
