(* ===== verification/Replay_Debugger.thy ===== *)
theory Replay_Debugger
  imports History "HOL-Library.Sublist"
begin

text \<open>
  \<^verbatim>\<open>engine/runtime/replay_debugger.py\<close>: the frames that the debugger shows for a history, and the
  comparison of the command streams of two runs. An event type is printed by its name.
\<close>

section \<open>Labels\<close>

fun event_name :: "event_type \<Rightarrow> string" where
  "event_name WorkflowExecutionStarted = ''WorkflowExecutionStarted''"
| "event_name ActivityScheduled = ''ActivityScheduled''"
| "event_name ActivityStarted = ''ActivityStarted''"
| "event_name ActivityCompleted = ''ActivityCompleted''"
| "event_name ActivityFailed = ''ActivityFailed''"
| "event_name ActivityTimedOut = ''ActivityTimedOut''"
| "event_name TimerStarted = ''TimerStarted''"
| "event_name TimerFired = ''TimerFired''"
| "event_name TimerCanceled = ''TimerCanceled''"
| "event_name MarkerRecorded = ''MarkerRecorded''"
| "event_name SignalReceived = ''SignalReceived''"
| "event_name ChildWorkflowStarted = ''ChildWorkflowStarted''"
| "event_name ChildWorkflowCompleted = ''ChildWorkflowCompleted''"
| "event_name ChildWorkflowFailed = ''ChildWorkflowFailed''"
| "event_name ChildWorkflowTerminated = ''ChildWorkflowTerminated''"
| "event_name WorkflowUpdateReceived = ''WorkflowUpdateReceived''"
| "event_name WorkflowUpdateResolved = ''WorkflowUpdateResolved''"
| "event_name WorkflowCancellationRequested = ''WorkflowCancellationRequested''"
| "event_name WorkflowExecutionPaused = ''WorkflowExecutionPaused''"
| "event_name WorkflowExecutionResumed = ''WorkflowExecutionResumed''"
| "event_name WorkflowExecutionContinuedAsNew = ''WorkflowExecutionContinuedAsNew''"
| "event_name WorkflowExecutionCompleted = ''WorkflowExecutionCompleted''"
| "event_name WorkflowExecutionFailed = ''WorkflowExecutionFailed''"
| "event_name WorkflowExecutionTerminated = ''WorkflowExecutionTerminated''"

fun nonempty_string :: "json \<Rightarrow> string option" where
  "nonempty_string (JStr (c # s)) = Some (c # s)"
| "nonempty_string _ = None"

fun first_label :: "dict \<Rightarrow> string list \<Rightarrow> string option" where
  "first_label attributes [] = None"
| "first_label attributes (key # keys) =
     (case nonempty_string (dget attributes key) of
        Some v \<Rightarrow> Some v
      | None \<Rightarrow> first_label attributes keys)"

definition event_label :: "history_event \<Rightarrow> string" where
  "event_label event =
     (case first_label (ev_attributes event)
        [''activity_type'', ''workflow_type'', ''purpose'', ''marker_type'', ''name''] of
        Some v \<Rightarrow> v
      | None \<Rightarrow> event_name (ev_type event))"

fun schedule_kind :: "event_type \<Rightarrow> string option" where
  "schedule_kind ActivityScheduled = Some ''activity''"
| "schedule_kind TimerStarted = Some ''timer''"
| "schedule_kind ChildWorkflowStarted = Some ''child''"
| "schedule_kind _ = None"

text \<open>\<^verbatim>\<open>_TERMINAL_ENTITY_EVENTS\<close>: true for success, false for failure.\<close>

fun entity_outcome :: "event_type \<Rightarrow> bool option" where
  "entity_outcome ActivityCompleted = Some True"
| "entity_outcome ActivityFailed = Some False"
| "entity_outcome ActivityTimedOut = Some False"
| "entity_outcome TimerFired = Some True"
| "entity_outcome TimerCanceled = Some False"
| "entity_outcome ChildWorkflowCompleted = Some True"
| "entity_outcome ChildWorkflowFailed = Some False"
| "entity_outcome ChildWorkflowTerminated = Some False"
| "entity_outcome _ = None"

fun workflow_outcome :: "event_type \<Rightarrow> string option" where
  "workflow_outcome WorkflowExecutionCompleted = Some ''completed''"
| "workflow_outcome WorkflowExecutionFailed = Some ''failed''"
| "workflow_outcome WorkflowExecutionTerminated = Some ''terminated''"
| "workflow_outcome _ = None"

definition event_category :: "event_type \<Rightarrow> string" where
  "event_category t =
     (if t \<in> set SCHEDULE_EVENT_TYPES then ''command''
      else if workflow_outcome t \<noteq> None then ''terminal''
      else if entity_outcome t \<noteq> None then ''outcome''
      else if t \<in> {SignalReceived, WorkflowUpdateReceived, WorkflowCancellationRequested}
      then ''external''
      else if t \<in> {WorkflowExecutionPaused, WorkflowExecutionResumed} then ''control''
      else ''lifecycle'')"

definition event_summary :: "history_event \<Rightarrow> string" where
  "event_summary event =
     (let label = event_label event in
      case ev_type event of
        WorkflowExecutionStarted \<Rightarrow> ''Started '' @ label
      | ActivityScheduled \<Rightarrow> ''Scheduled activity '' @ label
      | ActivityCompleted \<Rightarrow> ''Activity returned a durable result''
      | ActivityFailed \<Rightarrow> ''Activity attempt failed''
      | ActivityTimedOut \<Rightarrow> ''Activity attempt timed out''
      | TimerStarted \<Rightarrow> ''Started timer '' @ label
      | TimerFired \<Rightarrow> ''Timer deadline became durable''
      | TimerCanceled \<Rightarrow> ''Timer was canceled''
      | SignalReceived \<Rightarrow> ''Received signal '' @ label
      | ChildWorkflowStarted \<Rightarrow> ''Started child workflow '' @ label
      | ChildWorkflowCompleted \<Rightarrow> ''Child workflow completed''
      | ChildWorkflowFailed \<Rightarrow> ''Child workflow failed''
      | ChildWorkflowTerminated \<Rightarrow> ''Child workflow was terminated''
      | WorkflowUpdateReceived \<Rightarrow> ''Received update '' @ label
      | WorkflowUpdateResolved \<Rightarrow> ''Workflow update was resolved''
      | MarkerRecorded \<Rightarrow> ''Recorded deterministic '' @ label @ '' value''
      | WorkflowExecutionContinuedAsNew \<Rightarrow> ''Continued as '' @ label
      | WorkflowExecutionCompleted \<Rightarrow> ''Workflow completed''
      | WorkflowExecutionFailed \<Rightarrow> ''Workflow failed''
      | WorkflowExecutionTerminated \<Rightarrow> ''Workflow terminated''
      | WorkflowCancellationRequested \<Rightarrow> ''Cancellation was requested''
      | WorkflowExecutionPaused \<Rightarrow> ''Dispatch and deadlines were paused''
      | WorkflowExecutionResumed \<Rightarrow> ''Dispatch and deadlines resumed''
      | t \<Rightarrow> event_name t)"

section \<open>Frames\<close>

record active_entity =
  ae_entity_id :: string
  ae_kind :: string
  ae_label :: string
  ae_scheduled_seq :: int
  ae_status :: string

record replay_snapshot =
  sn_commands :: int
  sn_waiting_entities :: int
  sn_succeeded_entities :: int
  sn_failed_entities :: int
  sn_signals_received :: int
  sn_pending_updates :: int
  sn_terminal_status :: "string option"
  sn_active_entities :: "active_entity list"

record replay_frame =
  fr_index :: int
  fr_seq :: int
  fr_event_type :: event_type
  fr_category :: string
  fr_summary :: string
  fr_command_id :: "int option"
  fr_entity_id :: "string option"
  fr_caused_by_seq :: "int option"
  fr_snapshot :: replay_snapshot

text \<open>The local variables of the loop of \<^verbatim>\<open>build_replay_trace\<close>.\<close>

record trace_state =
  tr_entities :: "(string \<times> active_entity) list"
  tr_commands :: int
  tr_succeeded :: int
  tr_failed :: int
  tr_signals :: int
  tr_pending_updates :: "string list"
  tr_terminal_status :: "string option"

definition empty_trace :: trace_state where
  "empty_trace = \<lparr>tr_entities = [], tr_commands = 0, tr_succeeded = 0, tr_failed = 0,
     tr_signals = 0, tr_pending_updates = [], tr_terminal_status = None\<rparr>"

definition trace_schedule :: "history_event \<Rightarrow> trace_state \<Rightarrow> trace_state" where
  "trace_schedule event s =
     (let s = (if ev_type event \<in> set SCHEDULE_EVENT_TYPES
               then s\<lparr>tr_commands := tr_commands s + 1\<rparr> else s)
      in case (schedule_kind (ev_type event), ev_entity_id event) of
           (Some kind, Some e) \<Rightarrow>
             s\<lparr>tr_entities := AList.update (uuid_str e)
                 \<lparr>ae_entity_id = uuid_str e, ae_kind = kind, ae_label = event_label event,
                  ae_scheduled_seq = ev_seq event, ae_status = ''waiting''\<rparr> (tr_entities s)\<rparr>
         | _ \<Rightarrow>
             if ev_type event \<in> {MarkerRecorded, WorkflowUpdateResolved,
                  WorkflowExecutionContinuedAsNew}
             then s\<lparr>tr_succeeded := tr_succeeded s + 1\<rparr> else s)"

definition event_final :: "history_event \<Rightarrow> bool" where
  "event_final event \<longleftrightarrow>
     ev_type event = ActivityCompleted
     \<or> truthy (dget_or (ev_attributes event) ''final'' (JBool True))"

text \<open>The entity that an event is the outcome of, if it is still active.\<close>

definition ended_entity :: "history_event \<Rightarrow> trace_state \<Rightarrow> (active_entity \<times> bool) option" where
  "ended_entity event s =
     (case (entity_outcome (ev_type event), ev_entity_id event) of
        (Some success, Some e) \<Rightarrow>
          map_option (\<lambda>entity. (entity, success)) (map_of (tr_entities s) (uuid_str e))
      | _ \<Rightarrow> None)"

definition trace_outcome :: "history_event \<Rightarrow> trace_state \<Rightarrow> trace_state \<times> int option" where
  "trace_outcome event s =
     (case (ended_entity event s, ev_entity_id event) of
        (Some (entity, success), Some e) \<Rightarrow>
          (if event_final event
           then (let s = s\<lparr>tr_entities := AList.delete (uuid_str e) (tr_entities s)\<rparr>
                 in if success then s\<lparr>tr_succeeded := tr_succeeded s + 1\<rparr>
                    else s\<lparr>tr_failed := tr_failed s + 1\<rparr>)
           else s\<lparr>tr_entities := AList.update (uuid_str e) (entity\<lparr>ae_status := ''retrying''\<rparr>)
                    (tr_entities s)\<rparr>,
           Some (ae_scheduled_seq entity))
      | _ \<Rightarrow> (s, None))"

fun json_string :: "json \<Rightarrow> string option" where
  "json_string (JStr s) = Some s"
| "json_string _ = None"

definition trace_messages :: "history_event \<Rightarrow> trace_state \<Rightarrow> trace_state" where
  "trace_messages event s =
     (let update_id = json_string (dget (ev_attributes event) ''update_id'');
          s = (if ev_type event = SignalReceived then s\<lparr>tr_signals := tr_signals s + 1\<rparr>
               else if ev_type event = WorkflowUpdateReceived
               then (case update_id of
                       Some u \<Rightarrow> s\<lparr>tr_pending_updates := List.insert u (tr_pending_updates s)\<rparr>
                     | None \<Rightarrow> s)
               else if ev_type event = WorkflowUpdateResolved
               then (case update_id of
                       Some u \<Rightarrow> s\<lparr>tr_pending_updates := removeAll u (tr_pending_updates s)\<rparr>
                     | None \<Rightarrow> s)
               else s)
      in case workflow_outcome (ev_type event) of
           Some t \<Rightarrow> s\<lparr>tr_terminal_status := Some t\<rparr>
         | None \<Rightarrow> s)"

definition trace_event :: "history_event \<Rightarrow> trace_state \<Rightarrow> trace_state \<times> int option" where
  "trace_event event s =
     (let (s, caused_by_seq) = trace_outcome event (trace_schedule event s)
      in (trace_messages event s, caused_by_seq))"

definition trace_snapshot :: "trace_state \<Rightarrow> replay_snapshot" where
  "trace_snapshot s =
     \<lparr>sn_commands = tr_commands s, sn_waiting_entities = int (length (tr_entities s)),
      sn_succeeded_entities = tr_succeeded s, sn_failed_entities = tr_failed s,
      sn_signals_received = tr_signals s,
      sn_pending_updates = int (length (tr_pending_updates s)),
      sn_terminal_status = tr_terminal_status s,
      sn_active_entities =
        take 20 (sort_key ae_scheduled_seq (map snd (tr_entities s)))\<rparr>"

definition trace_frame :: "int \<Rightarrow> history_event \<Rightarrow> int option \<Rightarrow> trace_state \<Rightarrow> replay_frame" where
  "trace_frame index event caused_by_seq s =
     \<lparr>fr_index = index, fr_seq = ev_seq event, fr_event_type = ev_type event,
      fr_category = event_category (ev_type event), fr_summary = event_summary event,
      fr_command_id = ev_command_id event,
      fr_entity_id = map_option uuid_str (ev_entity_id event),
      fr_caused_by_seq = caused_by_seq, fr_snapshot = trace_snapshot s\<rparr>"

fun trace_loop :: "int \<Rightarrow> trace_state \<Rightarrow> history_event list \<Rightarrow> replay_frame list" where
  "trace_loop index s [] = []"
| "trace_loop index s (event # events) =
     (let (s, caused_by_seq) = trace_event event s
      in trace_frame index event caused_by_seq s # trace_loop (index + 1) s events)"

definition build_replay_trace :: "history_event list \<Rightarrow> replay_frame list" where
  "build_replay_trace events = trace_loop 0 empty_trace events"

section \<open>Comparison\<close>

record trace_divergence =
  dv_command_index :: int
  dv_reason :: string
  dv_left_seq :: "int option"
  dv_left_event_type :: "event_type option"
  dv_left_fingerprint :: "string option"
  dv_right_seq :: "int option"
  dv_right_event_type :: "event_type option"
  dv_right_fingerprint :: "string option"

record history_comparison =
  hc_compatible :: bool
  hc_matched_commands :: int
  hc_left_commands :: int
  hc_right_commands :: int
  hc_divergence :: "trace_divergence option"

definition command_signature :: "history_event \<Rightarrow> event_type \<times> int option \<times> string option" where
  "command_signature event =
     (ev_type event, ev_command_id event, json_string (dget (ev_attributes event) ''fingerprint''))"

definition event_fingerprint :: "history_event \<Rightarrow> string option" where
  "event_fingerprint event = snd (snd (command_signature event))"

definition command_events :: "history_event list \<Rightarrow> history_event list" where
  "command_events h = filter (\<lambda>ev. ev_type ev \<in> set SCHEDULE_EVENT_TYPES) h"

text \<open>The first pair of commands with different signatures.\<close>

fun first_mismatch ::
  "int \<Rightarrow> (history_event \<times> history_event) list \<Rightarrow> (int \<times> history_event \<times> history_event) option" where
  "first_mismatch matched [] = None"
| "first_mismatch matched ((l, r) # pairs) =
     (if command_signature l \<noteq> command_signature r then Some (matched, l, r)
      else first_mismatch (matched + 1) pairs)"

definition divergence ::
  "int \<Rightarrow> string \<Rightarrow> history_event option \<Rightarrow> history_event option \<Rightarrow> trace_divergence" where
  "divergence index reason l r =
     \<lparr>dv_command_index = index, dv_reason = reason,
      dv_left_seq = map_option ev_seq l, dv_left_event_type = map_option ev_type l,
      dv_left_fingerprint = Option.bind l event_fingerprint,
      dv_right_seq = map_option ev_seq r, dv_right_event_type = map_option ev_type r,
      dv_right_fingerprint = Option.bind r event_fingerprint\<rparr>"

definition nth_option :: "'a list \<Rightarrow> nat \<Rightarrow> 'a option" where
  "nth_option xs n = (if n < length xs then Some (xs ! n) else None)"

definition compare_command_histories ::
  "history_event list \<Rightarrow> history_event list \<Rightarrow> history_comparison" where
  "compare_command_histories left right =
     (let ls = command_events left; rs = command_events right;
          common = min (length ls) (length rs);
          result = (\<lambda>ok matched dv.
            \<lparr>hc_compatible = ok, hc_matched_commands = matched,
             hc_left_commands = int (length ls), hc_right_commands = int (length rs),
             hc_divergence = dv\<rparr>)
      in case first_mismatch 0 (zip ls rs) of
           Some (matched, l, r) \<Rightarrow>
             result False matched (Some (divergence matched
               ''command type, ordinal, or fingerprint differs'' (Some l) (Some r)))
         | None \<Rightarrow>
             if length ls \<noteq> length rs
             then result False (int common) (Some (divergence (int common)
                    ''one command stream ended before the other''
                    (nth_option ls common) (nth_option rs common)))
             else result True (int common) None)"

section \<open>The comparison finds the longest common prefix\<close>

lemma first_mismatch_None:
  "first_mismatch n ps = None \<longleftrightarrow> (\<forall>(l, r)\<in>set ps. command_signature l = command_signature r)"
  by (induction n ps rule: first_mismatch.induct) auto

lemma first_mismatch_Some:
  "first_mismatch n (zip ls rs) = Some (m, l, r) \<Longrightarrow>
    m = n + int (length (longest_common_prefix (map command_signature ls) (map command_signature rs)))
    \<and> command_signature l \<noteq> command_signature r"
proof (induction ls arbitrary: n rs)
  case (Cons a ls)
  then show ?case by (cases rs) (auto dest: Cons.IH split: if_splits)
qed simp

lemma zip_equal_prefix:
  "\<forall>(l, r)\<in>set (zip ls rs). command_signature l = command_signature r \<Longrightarrow>
    longest_common_prefix (map command_signature ls) (map command_signature rs)
      = take (min (length ls) (length rs)) (map command_signature ls)"
proof (induction ls arbitrary: rs)
  case (Cons a ls)
  then show ?case by (cases rs) auto
qed simp

lemma signatures_equal_iff:
  "map command_signature ls = map command_signature rs \<longleftrightarrow>
    length ls = length rs \<and> (\<forall>(l, r)\<in>set (zip ls rs). command_signature l = command_signature r)"
  by (induction ls rs rule: list_induct2') auto

lemma compare_matched:
  "hc_matched_commands (compare_command_histories left right) =
    int (length (longest_common_prefix (map command_signature (command_events left))
      (map command_signature (command_events right))))"
proof (cases "first_mismatch 0 (zip (command_events left) (command_events right))")
  case None
  from zip_equal_prefix[OF None[THEN first_mismatch_None[THEN iffD1]]] None show ?thesis
    by (simp add: compare_command_histories_def Let_def)
next
  case (Some p)
  then obtain m l r where "p = (m, l, r)" by (cases p)
  with Some first_mismatch_Some[of 0 _ _ m l r] show ?thesis
    by (simp add: compare_command_histories_def Let_def)
qed

lemma compare_compatible:
  "hc_compatible (compare_command_histories left right) \<longleftrightarrow>
    map command_signature (command_events left) = map command_signature (command_events right)"
  unfolding signatures_equal_iff first_mismatch_None[of 0, symmetric]
  by (auto simp: compare_command_histories_def Let_def split: option.splits)

section \<open>Every command is accounted for\<close>

text \<open>
  The ids of the entities that a history schedules, as the debugger keys them.
\<close>

definition scheduled_entity :: "history_event \<Rightarrow> string option" where
  "scheduled_entity ev =
     (if schedule_kind (ev_type ev) = None then None else map_option uuid_str (ev_entity_id ev))"

definition trace_balanced :: "trace_state \<Rightarrow> bool" where
  "trace_balanced s \<longleftrightarrow>
     distinct (map fst (tr_entities s))
     \<and> tr_commands s = int (length (tr_entities s)) + tr_succeeded s + tr_failed s"

lemma length_update_new: "k \<notin> set (map fst xs) \<Longrightarrow> AList.update k v xs = xs @ [(k, v)]"
  by (induction xs) auto

lemma length_update_old: "k \<in> set (map fst xs) \<Longrightarrow> length (AList.update k v xs) = length xs"
  by (induction xs) auto

lemma length_delete:
  assumes "distinct (map fst xs)" and "k \<in> set (map fst xs)"
  shows "length xs = Suc (length (AList.delete k xs))"
proof -
  have "length (AList.delete k xs) = length (removeAll k (map fst xs))"
    by (metis AList.delete_keys length_map)
  also have "\<dots> = length xs - 1"
    using assms by (simp add: distinct_remove1_removeAll[symmetric] length_remove1)
  finally show ?thesis using assms(2) by (cases xs) auto
qed

lemma trace_schedule_balanced:
  assumes "trace_balanced s" and "scheduled_entity ev \<noteq> None \<or> schedule_kind (ev_type ev) = None"
    and "\<And>k. scheduled_entity ev = Some k \<Longrightarrow> k \<notin> set (map fst (tr_entities s))"
  shows "trace_balanced (trace_schedule ev s)"
  using assms
  by (cases "ev_type ev")
    (auto simp: trace_schedule_def trace_balanced_def SCHEDULE_EVENT_TYPES_def Let_def length_update_new
      scheduled_entity_def split: option.splits)

lemma trace_outcome_balanced:
  assumes "trace_balanced s"
  shows "trace_balanced (fst (trace_outcome ev s))"
proof (cases "\<exists>entity success e. ended_entity ev s = Some (entity, success) \<and> ev_entity_id ev = Some e")
  case True
  then obtain entity success e where 1: "ended_entity ev s = Some (entity, success)" "ev_entity_id ev = Some e"
    by blast
  then have "uuid_str e \<in> set (map fst (tr_entities s))"
    by (auto simp: ended_entity_def split: option.splits dest!: map_of_SomeD)
      (metis fst_conv image_eqI)
  with assms 1 length_delete[of "tr_entities s" "uuid_str e"] show ?thesis
    by (auto simp: trace_outcome_def trace_balanced_def Let_def length_update_old AList.distinct_update
        AList.distinct_delete)
next
  case False
  then have "trace_outcome ev s = (s, None)" by (auto simp: trace_outcome_def split: option.splits)
  with assms show ?thesis by simp
qed

lemma trace_messages_balanced [simp]: "trace_balanced (trace_messages ev s) = trace_balanced s"
  by (auto simp: trace_messages_def trace_balanced_def Let_def split: option.splits)

lemma trace_messages_entities [simp]: "tr_entities (trace_messages ev s) = tr_entities s"
  by (auto simp: trace_messages_def Let_def split: option.splits)

text \<open>The active entities are among those scheduled so far.\<close>

lemma trace_event_keys:
  "set (map fst (tr_entities (fst (trace_event ev s)))) \<subseteq>
    set (map fst (tr_entities s)) \<union> (case scheduled_entity ev of None \<Rightarrow> {} | Some k \<Rightarrow> {k})"
proof -
  have 1: "set (map fst (tr_entities (trace_schedule ev s))) \<subseteq>
      set (map fst (tr_entities s)) \<union> (case scheduled_entity ev of None \<Rightarrow> {} | Some k \<Rightarrow> {k})"
    by (auto simp: trace_schedule_def Let_def AList.dom_update scheduled_entity_def split: option.splits)
  have 2: "set (map fst (tr_entities (fst (trace_outcome ev s')))) \<subseteq> set (map fst (tr_entities s'))" for s'
    by (auto simp: trace_outcome_def ended_entity_def Let_def AList.delete_eq AList.dom_update split: option.splits
        dest!: map_of_SomeD intro: rev_image_eqI)
  show ?thesis using 1 2[of "trace_schedule ev s"] by (auto simp: trace_event_def split_beta)
qed

lemma trace_event_balanced:
  assumes "trace_balanced s" and "scheduled_entity ev \<noteq> None \<or> schedule_kind (ev_type ev) = None"
    and "\<And>k. scheduled_entity ev = Some k \<Longrightarrow> k \<notin> set (map fst (tr_entities s))"
  shows "trace_balanced (fst (trace_event ev s))"
  using trace_outcome_balanced[OF trace_schedule_balanced[OF assms]]
  by (simp add: trace_event_def split_beta)

lemma trace_loop_balanced:
  assumes "trace_balanced s" and "\<forall>ev\<in>set evs. scheduled_entity ev \<noteq> None \<or> schedule_kind (ev_type ev) = None"
    and "distinct (List.map_filter scheduled_entity evs)"
    and "set (map fst (tr_entities s)) \<inter> set (List.map_filter scheduled_entity evs) = {}"
    and "fr \<in> set (trace_loop i s evs)"
  shows "sn_commands (fr_snapshot fr) = sn_waiting_entities (fr_snapshot fr)
    + sn_succeeded_entities (fr_snapshot fr) + sn_failed_entities (fr_snapshot fr)"
  using assms
proof (induction evs arbitrary: i s)
  case (Cons ev evs)
  let ?s = "fst (trace_event ev s)"
  have new: "k \<notin> set (map fst (tr_entities s))" "k \<notin> set (List.map_filter scheduled_entity evs)"
    if "scheduled_entity ev = Some k" for k
    using Cons.prems(3,4) that by (auto simp: List.map_filter_simps)
  have s: "trace_balanced ?s"
    by (rule trace_event_balanced) (use Cons.prems(1,2) new in auto)
  have disj: "set (map fst (tr_entities ?s)) \<inter> set (List.map_filter scheduled_entity evs) = {}"
  proof (cases "scheduled_entity ev")
    case None
    with trace_event_keys[of ev s] Cons.prems(4) show ?thesis by (simp add: List.map_filter_simps) blast
  next
    case (Some k)
    with trace_event_keys[of ev s] Cons.prems(4) new(2)[OF Some] show ?thesis
      by (simp add: List.map_filter_simps) blast
  qed
  have rest: "distinct (List.map_filter scheduled_entity evs)"
    using Cons.prems(3) by (simp add: List.map_filter_simps split: option.splits)
  consider "fr_snapshot fr = trace_snapshot ?s" | "fr \<in> set (trace_loop (i + 1) ?s evs)"
    using Cons.prems(5) by (auto simp: split_beta trace_frame_def)
  then show ?case
  proof cases
    case 1
    with s show ?thesis by (simp add: trace_snapshot_def trace_balanced_def)
  next
    case 2
    with Cons.IH[OF s _ rest disj] Cons.prems(2) show ?thesis by simp
  qed
qed simp

lemma trace_loop_events:
  "map fr_seq (trace_loop i s evs) = map ev_seq evs \<and> map fr_event_type (trace_loop i s evs) = map ev_type evs
    \<and> map fr_index (trace_loop i s evs) = [i..i + int (length evs) - 1]"
proof (induction evs arbitrary: i s)
  case (Cons ev evs)
  from Cons[of "i + 1" "fst (trace_event ev s)"] show ?case
    by (simp add: split_beta trace_frame_def upto_rec1 algebra_simps)
qed simp

end
