(* ===== verification/Security.thy ===== *)
theory Security
  imports Py_Strings Serialization
begin

text \<open>
  \<^verbatim>\<open>engine/config.py\<close> and \<^verbatim>\<open>engine/api/security.py\<close>: configuration from the environment, API keys and
  roles, bearer authentication, the rate limiter and the limit on request bodies. The process
  environment is an association list, reading a secret file is a parameter; the monotonic clock
  counts seconds as rationals. An HTTP exception is its status code.
\<close>

section \<open>Configuration\<close>

datatype config_error =
    Ambiguous string
  | CannotRead string
  | Missing string
  | NotInteger string
  | NotNumeric string
  | NotPositive string
  | PoolSizes
  | BadAuthMode
  | BadKeyFormat
  | BadKeyId
  | BadKeyRole
  | BadKeyDigest
  | KeysWhileDisabled
  | NoKeys
  | DuplicateKeyId
  | DuplicateDigest

type_synonym environ = "(string \<times> string) list"

text \<open>\<open>read_file\<close> is \<^verbatim>\<open>Path(name).read_text()\<close>, \<open>None\<close> for \<^verbatim>\<open>OSError\<close>.\<close>

definition secret_value ::
  "environ \<Rightarrow> (string \<Rightarrow> string option) \<Rightarrow> string \<Rightarrow> bool \<Rightarrow> config_error + string option" where
  "secret_value environ read_file name required =
     (let direct = map_of environ name; file_name = map_of environ (name @ ''_FILE'')
      in if direct \<noteq> None \<and> file_name \<noteq> None then Inl (Ambiguous name)
         else
           bindR (case file_name of
                    Some f \<Rightarrow>
                      (case read_file f of
                         None \<Rightarrow> Inl (CannotRead name)
                       | Some text \<Rightarrow> Inr (Some (str_strip text)))
                  | None \<Rightarrow> Inr (map_option str_strip direct)) (\<lambda>value.
           if required \<and> (value = None \<or> value = Some []) then Inl (Missing name) else Inr value))"

definition positive_int :: "environ \<Rightarrow> string \<Rightarrow> int \<Rightarrow> config_error + int" where
  "positive_int environ name dflt =
     (let raw = (case map_of environ name of Some r \<Rightarrow> r | None \<Rightarrow> int_str dflt)
      in case int_of_string raw of
           None \<Rightarrow> Inl (NotInteger name)
         | Some v \<Rightarrow> if v < 1 then Inl (NotPositive name) else Inr v)"

text \<open>A Python float as \<^verbatim>\<open>float(text)\<close> returns it; \<open>parse_float\<close> is that function.\<close>

datatype py_float = Finite rat | PosInf | NegInf | NaN

fun float_not_positive :: "py_float \<Rightarrow> bool" where
  "float_not_positive (Finite q) = (q \<le> 0)"
| "float_not_positive NegInf = True"
| "float_not_positive _ = False"

definition positive_float ::
  "environ \<Rightarrow> (string \<Rightarrow> py_float option) \<Rightarrow> string \<Rightarrow> string \<Rightarrow> config_error + py_float" where
  "positive_float environ parse_float name dflt =
     (let raw = (case map_of environ name of Some r \<Rightarrow> r | None \<Rightarrow> dflt)
      in case parse_float raw of
           None \<Rightarrow> Inl (NotNumeric name)
         | Some v \<Rightarrow> if float_not_positive v then Inl (NotPositive name) else Inr v)"

record database_config =
  dc_url :: string
  dc_min_pool_size :: int
  dc_max_pool_size :: int
  dc_command_timeout_seconds :: py_float
  dc_statement_timeout_ms :: int
  dc_application_name :: string

definition database_config_from_env ::
  "environ \<Rightarrow> (string \<Rightarrow> string option) \<Rightarrow> (string \<Rightarrow> py_float option) \<Rightarrow> string option \<Rightarrow> string
    \<Rightarrow> config_error + database_config" where
  "database_config_from_env environ read_file parse_float url application_name =
     bindR (case url of
              Some (c # s) \<Rightarrow> Inr (Some (c # s))
            | _ \<Rightarrow> secret_value environ read_file ''DATABASE_URL'' True) (\<lambda>selected_url.
     case selected_url of
       None \<Rightarrow> Inl (Missing ''DATABASE_URL'')
     | Some u \<Rightarrow>
         bindR (positive_int environ ''DWE_DB_POOL_MIN_SIZE'' 2) (\<lambda>min_size.
         bindR (positive_int environ ''DWE_DB_POOL_MAX_SIZE'' 10) (\<lambda>max_size.
         bindR (positive_float environ parse_float ''DWE_DB_COMMAND_TIMEOUT_SECONDS'' ''30'') (\<lambda>timeout.
         bindR (positive_int environ ''DWE_DB_STATEMENT_TIMEOUT_MS'' 30000) (\<lambda>statement_ms.
         if max_size < min_size then Inl PoolSizes
         else Inr \<lparr>dc_url = u, dc_min_pool_size = min_size, dc_max_pool_size = max_size,
                   dc_command_timeout_seconds = timeout, dc_statement_timeout_ms = statement_ms,
                   dc_application_name = application_name\<rparr>)))))"

section \<open>Keys and roles\<close>

datatype role = Viewer | Operator | Admin

fun ROLE_LEVEL :: "role \<Rightarrow> int" where
  "ROLE_LEVEL Viewer = 10"
| "ROLE_LEVEL Operator = 20"
| "ROLE_LEVEL Admin = 30"

definition role_of :: "string \<Rightarrow> role option" where
  "role_of s = (if s = ''viewer'' then Some Viewer else if s = ''operator'' then Some Operator
     else if s = ''admin'' then Some Admin else None)"

record api_key =
  ak_key_id :: string
  ak_role :: role
  ak_digest :: string

record principal =
  pr_key_id :: string
  pr_role :: role

record auth_config =
  ac_keys :: "api_key list"
  ac_disabled :: bool
  ac_requests_per_minute :: int
  ac_max_request_bytes :: int

definition token_digest :: "pyenv \<Rightarrow> string \<Rightarrow> string" where
  "token_digest env token = hexdigest (py_sha256 env token)"

text \<open>\<^verbatim>\<open>APIKey.from_token\<close>; \<open>None\<close> is \<^verbatim>\<open>ValueError\<close>.\<close>

definition from_token :: "pyenv \<Rightarrow> string \<Rightarrow> role \<Rightarrow> string \<Rightarrow> api_key option" where
  "from_token env key_id r token =
     (if length token < 16 then None
      else Some \<lparr>ak_key_id = key_id, ak_role = r, ak_digest = token_digest env token\<rparr>)"

text \<open>The hyphens and underscores of a key id are removed before \<^verbatim>\<open>isalnum\<close>, which is false on ''''.\<close>

definition parse_key :: "string \<Rightarrow> config_error + api_key" where
  "parse_key value =
     (case split_on CHR '':'' (str_strip value) of
        [key_id, raw_role, digest] \<Rightarrow>
          (let bare = filter (\<lambda>c. c \<noteq> CHR ''-'' \<and> c \<noteq> CHR ''_'') key_id;
               normalized_digest = str_lower digest
           in if key_id = [] \<or> length key_id > 100 \<or> bare = [] \<or> \<not> list_all is_alnum bare
              then Inl BadKeyId
              else case role_of raw_role of
                     None \<Rightarrow> Inl BadKeyRole
                   | Some r \<Rightarrow>
                       if length normalized_digest \<noteq> 64 \<or> \<not> list_all hex_char normalized_digest
                       then Inl BadKeyDigest
                       else Inr \<lparr>ak_key_id = key_id, ak_role = r, ak_digest = normalized_digest\<rparr>)
      | _ \<Rightarrow> Inl BadKeyFormat)"

text \<open>A generator of parsed keys: the first error is raised.\<close>

fun parse_keys :: "string list \<Rightarrow> config_error + api_key list" where
  "parse_keys [] = Inr []"
| "parse_keys (v # vs) =
     (if str_strip v = [] then parse_keys vs
      else bindR (parse_key v) (\<lambda>k. bindR (parse_keys vs) (\<lambda>ks. Inr (k # ks))))"

definition auth_config_from_env ::
  "environ \<Rightarrow> (string \<Rightarrow> string option) \<Rightarrow> config_error + auth_config" where
  "auth_config_from_env environ read_file =
     (let mode = str_lower (str_strip
            (case map_of environ ''DWE_AUTH_MODE'' of Some m \<Rightarrow> m | None \<Rightarrow> ''required''))
      in if mode \<noteq> ''required'' \<and> mode \<noteq> ''disabled'' then Inl BadAuthMode
         else
           bindR (secret_value environ read_file ''DWE_API_KEYS'' False) (\<lambda>raw.
           bindR (parse_keys (split_on CHR '','' (case raw of Some r \<Rightarrow> r | None \<Rightarrow> []))) (\<lambda>keys.
           bindR (positive_int environ ''DWE_RATE_LIMIT_PER_MINUTE'' 300) (\<lambda>rpm.
           bindR (positive_int environ ''DWE_MAX_REQUEST_BYTES'' 1048576) (\<lambda>max_bytes.
           Inr \<lparr>ac_keys = keys, ac_disabled = (mode = ''disabled''),
                ac_requests_per_minute = rpm, ac_max_request_bytes = max_bytes\<rparr>)))))"

definition validate :: "auth_config \<Rightarrow> config_error + unit" where
  "validate c =
     (if ac_disabled c \<and> ac_keys c \<noteq> [] then Inl KeysWhileDisabled
      else if \<not> ac_disabled c \<and> ac_keys c = [] then Inl NoKeys
      else if \<not> distinct (map ak_key_id (ac_keys c)) then Inl DuplicateKeyId
      else if \<not> distinct (map ak_digest (ac_keys c)) then Inl DuplicateDigest
      else Inr ())"

text \<open>The loop of \<^verbatim>\<open>authenticate\<close> does not stop at a match; the last one counts.\<close>

definition match_key :: "string \<Rightarrow> api_key list \<Rightarrow> api_key option" where
  "match_key digest keys =
     fold (\<lambda>key match. if digest = ak_digest key then Some key else match) keys None"

definition authenticate :: "pyenv \<Rightarrow> auth_config \<Rightarrow> string \<Rightarrow> principal option" where
  "authenticate env c token =
     (if ac_disabled c then Some \<lparr>pr_key_id = ''development'', pr_role = Admin\<rparr>
      else map_option (\<lambda>k. \<lparr>pr_key_id = ak_key_id k, pr_role = ak_role k\<rparr>)
             (match_key (token_digest env token) (ac_keys c)))"

definition bearer_token :: "string \<Rightarrow> string option" where
  "bearer_token header =
     (let (scheme, separator, token) = partition_on CHR '' '' header
      in if \<not> separator \<or> str_lower scheme \<noteq> ''bearer'' \<or> str_strip token = [] then None
         else Some (str_strip token))"

text \<open>The exceptions are 401 and 403.\<close>

definition require_role :: "principal option \<Rightarrow> role \<Rightarrow> int + principal" where
  "require_role p minimum =
     (case p of
        None \<Rightarrow> Inl 401
      | Some q \<Rightarrow> if ROLE_LEVEL (pr_role q) < ROLE_LEVEL minimum then Inl 403 else Inr q)"

section \<open>The rate limiter\<close>

text \<open>
  The limiter keeps one queue of request times per identity; \<^verbatim>\<open>self._requests[identity]\<close> creates it.
  \<open>None\<close> is the \<^verbatim>\<open>IndexError\<close> of an empty queue, which a limit below 1 would raise.
\<close>

record limiter =
  rl_limit :: int
  rl_requests :: "(string \<times> rat list) list"

definition new_limiter :: "int \<Rightarrow> limiter" where
  "new_limiter requests_per_minute = \<lparr>rl_limit = requests_per_minute, rl_requests = []\<rparr>"

definition queue_of :: "limiter \<Rightarrow> string \<Rightarrow> rat list" where
  "queue_of l i = (case map_of (rl_requests l) i of Some q \<Rightarrow> q | None \<Rightarrow> [])"

text \<open>\<^verbatim>\<open>int(x)\<close> truncates towards zero.\<close>

definition truncate :: "rat \<Rightarrow> int" where
  "truncate x = (if x < 0 then \<lceil>x\<rceil> else \<lfloor>x\<rfloor>)"

definition allow :: "string \<Rightarrow> rat \<Rightarrow> limiter \<Rightarrow> limiter \<times> (bool \<times> int) option" where
  "allow identity current l =
     (let cutoff = current - 60;
          requests = dropWhile (\<lambda>t. t \<le> cutoff) (queue_of l identity);
          put = (\<lambda>q. l\<lparr>rl_requests := AList.update identity q (rl_requests l)\<rparr>)
      in if int (length requests) \<ge> rl_limit l
         then (put requests,
               if requests = [] then None
               else Some (False, max 1 (truncate (60 - (current - hd requests)))))
         else (put (requests @ [current]), Some (True, 0)))"

section \<open>The limit on request bodies\<close>

datatype body_outcome = Rejected413 | Rejected400 | Delivered "int list"

text \<open>
  \<^verbatim>\<open>limited_receive\<close>, called once per body chunk until the application has read them all; \<open>None\<close> is
  \<^verbatim>\<open>RequestBodyTooLarge\<close>. The chunks are given by their lengths.
\<close>

fun receive_chunks :: "int \<Rightarrow> int \<Rightarrow> int list \<Rightarrow> int list option" where
  "receive_chunks max_bytes received [] = Some []"
| "receive_chunks max_bytes received (n # ns) =
     (let received = received + n
      in if received > max_bytes then None
         else map_option (\<lambda>rest. n # rest) (receive_chunks max_bytes received ns))"

definition limit_body :: "int \<Rightarrow> string option \<Rightarrow> int list \<Rightarrow> body_outcome" where
  "limit_body max_bytes content_length chunks =
     (case content_length of
        Some text \<Rightarrow>
          (case int_of_string text of
             None \<Rightarrow> Rejected400
           | Some n \<Rightarrow>
               if n > max_bytes then Rejected413
               else (case receive_chunks max_bytes 0 chunks of
                       None \<Rightarrow> Rejected413 | Some cs \<Rightarrow> Delivered cs))
      | None \<Rightarrow>
          (case receive_chunks max_bytes 0 chunks of
             None \<Rightarrow> Rejected413 | Some cs \<Rightarrow> Delivered cs))"

section \<open>Keys\<close>

lemma match_key_None: "match_key g ks = None \<longleftrightarrow> (\<forall>k\<in>set ks. ak_digest k \<noteq> g)"
proof -
  have "fold (\<lambda>key match. if g = ak_digest key then Some key else match) ks m = None
      \<longleftrightarrow> m = None \<and> (\<forall>k\<in>set ks. ak_digest k \<noteq> g)" for m
    by (induction ks arbitrary: m) auto
  then show ?thesis by (simp add: match_key_def)
qed

lemma match_key_Some: "match_key g ks = Some k \<Longrightarrow> k \<in> set ks \<and> ak_digest k = g"
proof -
  have "fold (\<lambda>key match. if g = ak_digest key then Some key else match) ks m = Some k
      \<Longrightarrow> m = Some k \<or> (k \<in> set ks \<and> ak_digest k = g)" for m
    by (induction ks arbitrary: m) (fastforce split: if_splits)+
  then show "match_key g ks = Some k \<Longrightarrow> k \<in> set ks \<and> ak_digest k = g"
    by (fastforce simp: match_key_def)
qed

lemma match_key_unique:
  assumes "distinct (map ak_digest ks)" and "k \<in> set ks"
  shows "match_key (ak_digest k) ks = Some k"
proof (cases "match_key (ak_digest k) ks")
  case None
  then show ?thesis using assms(2) by (auto simp: match_key_None)
next
  case (Some k')
  then have "k' \<in> set ks" "ak_digest k' = ak_digest k" using match_key_Some by auto
  then have "k' = k" using assms by (metis distinct_map inj_onD)
  with Some show ?thesis by simp
qed

lemma parse_key_Inr:
  assumes "parse_key v = Inr k"
  shows "ak_key_id k \<noteq> []" and "length (ak_key_id k) \<le> 100" and "length (ak_digest k) = 64"
    and "list_all hex_char (ak_digest k)"
    and "list_all (\<lambda>c. is_alnum c \<or> c = CHR ''-'' \<or> c = CHR ''_'') (ak_key_id k)"
  using assms
  by (auto simp: parse_key_def Let_def list_all_iff res_simps split: list.splits)

lemma parse_keys_Inr: "parse_keys vs = Inr ks \<Longrightarrow> k \<in> set ks \<Longrightarrow> \<exists>v\<in>set vs. parse_key v = Inr k"
  by (induction vs arbitrary: ks) (auto simp: res_simps split: if_splits)

section \<open>Bodies\<close>

lemma receive_chunks_Some:
  assumes "\<forall>n\<in>set ns. 0 \<le> n"
  shows "receive_chunks b r ns = Some cs \<longleftrightarrow> cs = ns \<and> (ns = [] \<or> r + sum_list ns \<le> b)"
  using assms
proof (induction ns arbitrary: r cs)
  case (Cons n ns)
  have "0 \<le> sum_list ns" using Cons.prems by (auto intro: sum_list_nonneg)
  with Cons show ?case by (cases ns) (auto simp: Let_def)
qed auto

section \<open>The window\<close>

text \<open>A run of the limiter: the calls in order, and the calls that were allowed.\<close>

fun run_limiter :: "(string \<times> rat) list \<Rightarrow> limiter \<Rightarrow> limiter \<times> (string \<times> rat) list" where
  "run_limiter [] l = (l, [])"
| "run_limiter ((i, t) # calls) l =
     (let (l, answer) = allow i t l;
          (l', rest) = run_limiter calls l
      in (l', if answer = Some (True, 0) then (i, t) # rest else rest))"

definition times :: "string \<Rightarrow> (string \<times> rat) list \<Rightarrow> rat list" where
  "times i acc = map snd (filter (\<lambda>p. fst p = i) acc)"

definition in_window :: "rat \<Rightarrow> rat list \<Rightarrow> int" where
  "in_window a ts = int (length (filter (\<lambda>t. a < t \<and> t \<le> a + 60) ts))"

text \<open>
  Of every identity the queue is the end of the times allowed so far; what has left it is at least a
  minute old. No window of a minute holds more than the limit.
\<close>

definition limiter_ok :: "limiter \<Rightarrow> (string \<times> rat) list \<Rightarrow> rat \<Rightarrow> bool" where
  "limiter_ok l acc now \<longleftrightarrow>
     (\<forall>i. (\<exists>k. queue_of l i = drop k (times i acc) \<and> (\<forall>t\<in>set (take k (times i acc)). t \<le> now - 60))
        \<and> (\<forall>a. in_window a (times i acc) \<le> rl_limit l))"

lemma queue_of_put [simp]:
  "queue_of (l\<lparr>rl_requests := AList.update i q (rl_requests l)\<rparr>) j = (if j = i then q else queue_of l j)"
  by (simp add: queue_of_def update_conv')

lemma times_snoc [simp]: "times j (acc @ [(i, t)]) = (if i = j then times j acc @ [t] else times j acc)"
  by (simp add: times_def)

lemma times_Nil [simp]: "times i [] = []"
  by (simp add: times_def)

lemma dropWhile_drop:
  "dropWhile P (drop k xs) = drop (k + length (takeWhile P (drop k xs))) xs"
  "set (take (k + length (takeWhile P (drop k xs))) xs) \<subseteq> set (take k xs) \<union> Collect P"
proof -
  show "dropWhile P (drop k xs) = drop (k + length (takeWhile P (drop k xs))) xs"
    by (metis add.commute drop_drop dropWhile_eq_drop)
  have "take (k + length (takeWhile P (drop k xs))) xs = take k xs @ takeWhile P (drop k xs)"
    by (metis take_add takeWhile_eq_take)
  then show "set (take (k + length (takeWhile P (drop k xs))) xs) \<subseteq> set (take k xs) \<union> Collect P"
    by (auto dest: set_takeWhileD)
qed

text \<open>What the queue holds when a call has dropped the old entries.\<close>

lemma fresh_queue:
  assumes "limiter_ok l acc now" and "now \<le> t"
  obtains k where "dropWhile (\<lambda>u. u \<le> t - 60) (queue_of l i) = drop k (times i acc)"
    and "\<forall>u\<in>set (take k (times i acc)). u \<le> t - 60"
proof -
  obtain k where k: "queue_of l i = drop k (times i acc)" "\<forall>u\<in>set (take k (times i acc)). u \<le> now - 60"
    using assms(1) unfolding limiter_ok_def by blast
  let ?n = "k + length (takeWhile (\<lambda>u. u \<le> t - 60) (drop k (times i acc)))"
  have "\<forall>u\<in>set (take ?n (times i acc)). u \<le> t - 60"
  proof
    fix u assume "u \<in> set (take ?n (times i acc))"
    with dropWhile_drop(2)[of k "\<lambda>u. u \<le> t - 60" "times i acc"]
    have "u \<in> set (take k (times i acc)) \<or> u \<le> t - 60" by blast
    then show "u \<le> t - 60" using k(2) assms(2) by (meson diff_right_mono order_trans)
  qed
  moreover have "dropWhile (\<lambda>u. u \<le> t - 60) (queue_of l i) = drop ?n (times i acc)"
    unfolding k(1) by (rule dropWhile_drop(1))
  ultimately show ?thesis using that by blast
qed

lemma in_window_snoc: "in_window a (ts @ [t]) = in_window a ts + (if a < t \<and> t \<le> a + 60 then 1 else 0)"
  by (simp add: in_window_def)

lemma in_window_le:
  assumes "\<forall>u\<in>set (take k ts). u \<le> b" and "b \<le> a"
  shows "in_window a ts \<le> int (length (drop k ts))"
proof -
  let ?P = "\<lambda>t. a < t \<and> t \<le> a + 60"
  have "filter ?P (take k ts) = []" using assms by (fastforce simp: filter_empty_conv)
  then have "filter ?P ts = filter ?P (drop k ts)"
    by (metis append_Nil append_take_drop_id filter_append)
  then show ?thesis by (simp add: in_window_def) (metis length_filter_le length_drop)
qed

lemma allow_keeps:
  assumes ok: "limiter_ok l acc now" and "now \<le> t" and step: "allow i t l = (l', r)"
  defines "acc' \<equiv> (if r = Some (True, 0) then acc @ [(i, t)] else acc)"
  shows "limiter_ok l' acc' t" and "rl_limit l' = rl_limit l"
proof -
  obtain k where q: "dropWhile (\<lambda>u. u \<le> t - 60) (queue_of l i) = drop k (times i acc)"
    and old: "\<forall>u\<in>set (take k (times i acc)). u \<le> t - 60"
    by (rule fresh_queue[OF ok \<open>now \<le> t\<close>])
  let ?q = "drop k (times i acc)"
  have win: "in_window a (times j acc) \<le> rl_limit l" for a j using ok by (auto simp: limiter_ok_def)
  show "rl_limit l' = rl_limit l" using step by (auto simp: allow_def Let_def split: if_splits)
  have other: "\<exists>m. queue_of l j = drop m (times j acc) \<and> (\<forall>u\<in>set (take m (times j acc)). u \<le> t - 60)" for j
    using ok \<open>now \<le> t\<close> by (fastforce simp: limiter_ok_def)
  show "limiter_ok l' acc' t"
  proof (cases "int (length ?q) \<ge> rl_limit l")
    case True
    then have l': "queue_of l' j = (if j = i then ?q else queue_of l j)" "rl_limit l' = rl_limit l" for j
      using step q by (auto simp: allow_def Let_def)
    moreover have "r \<noteq> Some (True, 0)" using True step q by (auto simp: allow_def Let_def split: if_splits)
    ultimately show ?thesis using other old win by (auto simp: limiter_ok_def acc'_def)
  next
    case False
    then have l': "queue_of l' j = (if j = i then ?q @ [t] else queue_of l j)" "rl_limit l' = rl_limit l" for j
      using step q by (auto simp: allow_def Let_def)
    have r: "r = Some (True, 0)" using False step q by (auto simp: allow_def Let_def)
    have "in_window a (times i acc @ [t]) \<le> rl_limit l" for a
    proof (cases "a < t \<and> t \<le> a + 60")
      case True
      with in_window_le[OF old, of a] False show ?thesis by (simp add: in_window_snoc)
    qed (use win[of a i] in \<open>auto simp: in_window_snoc\<close>)
    moreover have "\<exists>m. ?q @ [t] = drop m (times i acc @ [t])
        \<and> (\<forall>u\<in>set (take m (times i acc @ [t])). u \<le> t - 60)"
    proof (cases "k \<le> length (times i acc)")
      case True
      then show ?thesis using old by (intro exI[of _ k]) simp
    next
      case False
      then show ?thesis using old by (intro exI[of _ "length (times i acc)"]) simp
    qed
    ultimately show ?thesis using other win l' r by (auto simp: limiter_ok_def acc'_def)
  qed
qed

lemma run_limiter_keeps:
  assumes "limiter_ok l acc now" and "sorted (now # map snd calls)"
  shows "(\<exists>now'. limiter_ok (fst (run_limiter calls l)) (acc @ snd (run_limiter calls l)) now')
    \<and> rl_limit (fst (run_limiter calls l)) = rl_limit l"
  using assms
proof (induction calls arbitrary: l acc now)
  case (Cons c calls)
  obtain i t where c: "c = (i, t)" by (cases c)
  obtain l' r where step: "allow i t l = (l', r)" by (cases "allow i t l")
  let ?acc = "if r = Some (True, 0) then acc @ [(i, t)] else acc"
  have now: "now \<le> t" "sorted (t # map snd calls)" using Cons.prems(2) by (auto simp: c)
  note kept = allow_keeps[OF Cons.prems(1) now(1) step]
  from Cons.IH[OF kept(1) now(2)] kept(2) step show ?case
    by (auto simp: c split_beta split: if_splits)
qed auto

lemma new_limiter_ok: "0 \<le> n \<Longrightarrow> limiter_ok (new_limiter n) [] now"
  by (simp add: limiter_ok_def new_limiter_def queue_of_def in_window_def)

end
