(* ===== verification/Api.thy ===== *)
theory Api
  imports Schedules Signals Queries Replay_Debugger Security
begin

text \<open>
  \<^verbatim>\<open>engine/api/app.py\<close>: the HTTP interface. A request is a constructor of \<open>api_request\<close> with the
  parameters of its route; FastAPI's routing, decoding and encoding are not modelled, the declared
  constraints on parameters and bodies are (\<open>request_valid\<close>, answered with 422). A handler with two
  queries reads two states of the database: the first query sees \<open>in_first_read\<close>.
\<close>

section \<open>Requests and responses\<close>

record start_workflow_request =
  sw_workflow_type :: string
  sw_definition_version :: int
  sw_input :: json
  sw_queue_name :: string
  sw_search_attributes :: dict

record message_request =
  mr_id :: string
  mr_name :: string
  mr_payload :: json

record schedule_create_request =
  sq_name :: string
  sq_workflow_type :: string
  sq_definition_version :: int
  sq_input :: json
  sq_queue_name :: string
  sq_search_attributes :: dict
  sq_cron_expression :: string
  sq_timezone :: string
  sq_overlap_policy :: overlap_policy

record workflow_filter =
  wf_status :: "string option"
  wf_workflow_type :: "string option"
  wf_queue_name :: "string option"
  wf_query :: "string option"
  wf_attributes :: "string option"
  wf_limit :: int

datatype api_request =
    GetLiveness
  | GetHealth
  | GetReadiness
  | GetSession
  | GetWorkflows workflow_filter
  | GetStats
  | GetWorkers
  | GetMetrics
  | GetAudit int
  | GetDeadLetter int
  | GetSchedules
  | PostSchedule schedule_create_request
  | GetOccurrences uuid int
  | PostSchedulePause uuid
  | PostScheduleResume uuid
  | PostBackfill uuid datetime datetime int
  | PostWorkflow start_workflow_request
  | GetWorkflow uuid
  | GetContinuationChain uuid
  | GetDebugTrace uuid int
  | GetDebugCompare uuid uuid int
  | GetHistory uuid int int
  | PatchSearchAttributes uuid dict "string list"
  | GetHistoryTail uuid int
  | PostSignal uuid message_request
  | PostUpdate uuid message_request
  | GetUpdates uuid int
  | GetUpdate uuid string
  | PostTerminate uuid "string option"
  | PostPause uuid "string option"
  | PostResume uuid "string option"
  | PostRetry uuid
  | PostCancel uuid "string option"

datatype api_body =
    StatusBody string
  | SessionBody string role
  | ExecutionsBody "execution_row list"
  | ExecutionBody execution_row
  | StatsBody execution_stats
  | WorkersBody "worker_heartbeat list"
  | MetricsBody "(string \<times> int) list"
  | AuditBody "audit_row list"
  | DeadTasksBody "dead_task list"
  | SchedulesBody "schedule_row list"
  | ScheduleBody schedule_row
  | OccurrencesBody "occurrence_row list"
  | AcceptedBody bool
  | StartedCountBody nat
  | StartedBody uuid string int
  | TraceBody uuid "replay_frame list" bool "int option"
  | ComparisonBody history_comparison uuid uuid bool
  | HistoryBody "history_record list" "int option"
  | TailBody "history_record list"
  | AttributesBody dict
  | UpdateBody update_row
  | SentUpdateBody update_row bool
  | UpdatesBody "update_row list"

text \<open>
  A response, the status of an \<^verbatim>\<open>HTTPException\<close> or of a rejection by a middleware, or an exception that
  no handler catches.
\<close>

datatype response = Response int api_body | HttpException int | Unhandled "db_error option"

section \<open>Declared constraints\<close>

definition text_between :: "int \<Rightarrow> int \<Rightarrow> string \<Rightarrow> bool" where
  "text_between lo hi s \<longleftrightarrow> lo \<le> int (length s) \<and> int (length s) \<le> hi"

definition opt_text_max :: "int \<Rightarrow> string option \<Rightarrow> bool" where
  "opt_text_max hi t = (case t of None \<Rightarrow> True | Some s \<Rightarrow> int (length s) \<le> hi)"

definition page_limit :: "int \<Rightarrow> bool" where
  "page_limit limit \<longleftrightarrow> 1 \<le> limit \<and> limit \<le> 1000"

definition start_request_valid :: "start_workflow_request \<Rightarrow> bool" where
  "start_request_valid body \<longleftrightarrow>
     text_between 1 200 (sw_workflow_type body) \<and> 1 \<le> sw_definition_version body
     \<and> text_between 1 200 (sw_queue_name body)"

definition message_request_valid :: "message_request \<Rightarrow> bool" where
  "message_request_valid body \<longleftrightarrow> text_between 1 200 (mr_id body) \<and> text_between 1 200 (mr_name body)"

definition schedule_request_valid :: "schedule_create_request \<Rightarrow> bool" where
  "schedule_request_valid body \<longleftrightarrow>
     text_between 1 200 (sq_name body) \<and> text_between 1 200 (sq_workflow_type body)
     \<and> 1 \<le> sq_definition_version body \<and> text_between 1 200 (sq_queue_name body)
     \<and> text_between 1 200 (sq_cron_expression body) \<and> text_between 1 200 (sq_timezone body)"

definition filter_valid :: "workflow_filter \<Rightarrow> bool" where
  "filter_valid f \<longleftrightarrow>
     (case wf_status f of None \<Rightarrow> True
      | Some s \<Rightarrow> s \<in> {''running'', ''completed'', ''failed'', ''terminated'', ''attention''})
     \<and> opt_text_max 200 (wf_workflow_type f) \<and> opt_text_max 200 (wf_queue_name f)
     \<and> opt_text_max 500 (wf_query f) \<and> opt_text_max 16000 (wf_attributes f) \<and> page_limit (wf_limit f)"

fun request_valid :: "api_request \<Rightarrow> bool" where
  "request_valid (GetWorkflows f) = filter_valid f"
| "request_valid (GetAudit limit) = page_limit limit"
| "request_valid (GetDeadLetter limit) = page_limit limit"
| "request_valid (PostSchedule body) = schedule_request_valid body"
| "request_valid (GetOccurrences s limit) = page_limit limit"
| "request_valid (PostBackfill s start_at end_at limit) = (1 \<le> limit \<and> limit \<le> 100)"
| "request_valid (PostWorkflow body) = start_request_valid body"
| "request_valid (GetDebugTrace w limit) = page_limit limit"
| "request_valid (GetDebugCompare w v limit) = page_limit limit"
| "request_valid (GetHistory w after_seq limit) = (0 \<le> after_seq \<and> page_limit limit)"
| "request_valid (PatchSearchAttributes w attrs unset) = (length unset \<le> 100)"
| "request_valid (GetHistoryTail w limit) = page_limit limit"
| "request_valid (PostSignal w body) = message_request_valid body"
| "request_valid (PostUpdate w body) = message_request_valid body"
| "request_valid (GetUpdates w limit) = page_limit limit"
| "request_valid (PostTerminate w reason) = opt_text_max 2000 reason"
| "request_valid (PostPause w reason) = opt_text_max 2000 reason"
| "request_valid (PostResume w reason) = opt_text_max 2000 reason"
| "request_valid (PostCancel w reason) = opt_text_max 2000 reason"
| "request_valid _ = True"

section \<open>Handlers\<close>

text \<open>
  What a handler is given: the environment of the server, and of the request its id, the
  authorization header, the monotonic time, what its transaction reads and the state that an earlier
  query of the same handler saw. \<open>ap_loads\<close> is \<^verbatim>\<open>json.loads\<close>.
\<close>

record api_server =
  ap_env :: pyenv
  ap_zones :: zones
  ap_search :: pg_search
  ap_auth :: auth_config
  ap_depth :: nat
  ap_latest_migration :: string
  ap_loads :: "string \<Rightarrow> json option"

record incoming =
  in_request_id :: uuid
  in_authorization :: string
  in_time :: rat
  in_declared_length :: "string option"
  in_chunks :: "int list"
  in_tx :: tx
  in_first_read :: db
  in_schema_version :: "string option option"

fun role_text :: "role \<Rightarrow> string" where
  "role_text Viewer = ''viewer''"
| "role_text Operator = ''operator''"
| "role_text Admin = ''admin''"

definition audit_of :: "incoming \<Rightarrow> principal \<Rightarrow> string \<Rightarrow> audit_context option" where
  "audit_of inc p action =
     Some \<lparr>au_request_id = in_request_id inc, au_actor_key_id = pr_key_id p,
           au_actor_role = role_text (pr_role p), au_action = action\<rparr>"

text \<open>\<^verbatim>\<open>except TransitionError\<close> and \<^verbatim>\<open>except (TransitionError, ValueError)\<close>.\<close>

fun is_transition_error :: "db_error \<Rightarrow> bool" where
  "is_transition_error (TransitionError s) = True"
| "is_transition_error (DefinitionNotRegisteredError n v) = True"
| "is_transition_error (StoredDefinitionConflictError n v) = True"
| "is_transition_error (TerminalWorkflowError w s) = True"
| "is_transition_error _ = False"

fun is_value_error :: "db_error \<Rightarrow> bool" where
  "is_value_error (BadValue s) = True"
| "is_value_error (CronError e) = True"
| "is_value_error _ = False"

definition rejected :: "db_error \<Rightarrow> bool" where
  "rejected e \<longleftrightarrow> is_transition_error e \<or> is_value_error e"

definition reading :: "principal option \<Rightarrow> role \<Rightarrow> (principal \<Rightarrow> response) \<Rightarrow> response" where
  "reading p minimum k =
     (case require_role p minimum of Inl code \<Rightarrow> HttpException code | Inr q \<Rightarrow> k q)"

definition answer :: "('a \<Rightarrow> api_body) \<Rightarrow> db_error + 'a \<Rightarrow> response" where
  "answer body r = (case r of Inl e \<Rightarrow> Unhandled (Some e) | Inr v \<Rightarrow> Response 200 (body v))"

text \<open>A handler that writes: role, transaction with its audit context, translation of errors.\<close>

definition writing ::
  "incoming \<Rightarrow> principal option \<Rightarrow> role \<Rightarrow> string \<Rightarrow> (db_error \<Rightarrow> bool) \<Rightarrow> int \<Rightarrow> ('a \<Rightarrow> api_body)
    \<Rightarrow> (audit_context option \<Rightarrow> 'a txn) \<Rightarrow> db \<Rightarrow> db \<times> response" where
  "writing inc p minimum action caught code body op d =
     (case require_role p minimum of
        Inl c \<Rightarrow> (d, HttpException c)
      | Inr q \<Rightarrow>
          (case op (audit_of inc q action) d of
             Inl e \<Rightarrow> (d, if caught e then HttpException 409 else Unhandled (Some e))
           | Inr (d', r) \<Rightarrow> (d', Response code (body r))))"

text \<open>\<open>in_schema_version\<close>: \<open>None\<close> when the query fails or times out, otherwise what it returns.\<close>

definition readiness_response :: "api_server \<Rightarrow> incoming \<Rightarrow> response" where
  "readiness_response srv inc =
     (case in_schema_version inc of
        None \<Rightarrow> HttpException 503
      | Some migration \<Rightarrow>
          if migration \<noteq> Some (ap_latest_migration srv) then HttpException 503
          else Response 200 (StatusBody ''ready''))"

definition session :: "principal option \<Rightarrow> response" where
  "session p = reading p Viewer (\<lambda>q. Response 200 (SessionBody (pr_key_id q) (pr_role q)))"

definition workflows :: "api_server \<Rightarrow> principal option \<Rightarrow> workflow_filter \<Rightarrow> db \<Rightarrow> response" where
  "workflows srv p f d =
     reading p Viewer (\<lambda>_.
       let list = (\<lambda>attrs. answer ExecutionsBody
             (list_executions (ap_search srv) (wf_status f) (wf_workflow_type f) (wf_queue_name f)
                (wf_query f) attrs (wf_limit f) d))
       in case wf_attributes f of
            None \<Rightarrow> list []
          | Some text \<Rightarrow>
              (case ap_loads srv text of
                 Some (JObj attrs) \<Rightarrow> list attrs
               | _ \<Rightarrow> HttpException 422))"

definition stats :: "principal option \<Rightarrow> db \<Rightarrow> response" where
  "stats p d = reading p Viewer (\<lambda>_. Response 200 (StatsBody (get_execution_stats d)))"

definition workers :: "incoming \<Rightarrow> principal option \<Rightarrow> db \<Rightarrow> response" where
  "workers inc p d =
     reading p Viewer (\<lambda>_. Response 200 (WorkersBody (list_worker_heartbeats (in_tx inc) 30 d)))"

definition metrics :: "incoming \<Rightarrow> principal option \<Rightarrow> db \<Rightarrow> response" where
  "metrics inc p d =
     reading p Admin (\<lambda>_. Response 200 (MetricsBody
       (get_operational_gauges (in_tx inc) 30 d @ [(''dwe_build_info'', 1)])))"

text \<open>\<^verbatim>\<open>list_api_audit\<close> of \<^verbatim>\<open>engine/persistence/audit.py\<close>: the newest records first.\<close>

definition list_api_audit :: "int \<Rightarrow> db \<Rightarrow> db_error + audit_row list" where
  "list_api_audit limit d =
     (if limit < 1 \<or> limit > 1000 then Inl (BadValue ''limit must be between 1 and 1000'')
      else Inr (take (nat limit) (rev (db_audit d))))"

definition audit_records :: "principal option \<Rightarrow> int \<Rightarrow> db \<Rightarrow> response" where
  "audit_records p limit d = reading p Admin (\<lambda>_. answer AuditBody (list_api_audit limit d))"

definition dead_letter_records :: "principal option \<Rightarrow> int \<Rightarrow> db \<Rightarrow> response" where
  "dead_letter_records p limit d =
     reading p Operator (\<lambda>_. answer DeadTasksBody (list_dead_tasks limit d))"

definition schedules :: "principal option \<Rightarrow> db \<Rightarrow> response" where
  "schedules p d = reading p Viewer (\<lambda>_. Response 200 (SchedulesBody (list_schedules d)))"

definition create_workflow_schedule ::
  "api_server \<Rightarrow> incoming \<Rightarrow> principal option \<Rightarrow> schedule_create_request \<Rightarrow> db \<Rightarrow> db \<times> response" where
  "create_workflow_schedule srv inc p body =
     writing inc p Operator ''schedule.create'' rejected 201 ScheduleBody
       (create_schedule (ap_env srv) (ap_zones srv) (in_tx inc) (sq_name body) (sq_workflow_type body)
          (sq_definition_version body) (sq_input body) (sq_cron_expression body) (sq_timezone body)
          (sq_queue_name body) (sq_search_attributes body) (sq_overlap_policy body) None)"

definition schedule_occurrences :: "principal option \<Rightarrow> uuid \<Rightarrow> int \<Rightarrow> db \<Rightarrow> response" where
  "schedule_occurrences p schedule_id limit d =
     reading p Viewer (\<lambda>_. answer OccurrencesBody (list_schedule_occurrences schedule_id limit d))"

definition pause_schedule ::
  "api_server \<Rightarrow> incoming \<Rightarrow> principal option \<Rightarrow> uuid \<Rightarrow> db \<Rightarrow> db \<times> response" where
  "pause_schedule srv inc p schedule_id =
     writing inc p Operator ''schedule.pause'' is_transition_error 200 AcceptedBody
       (set_schedule_paused (ap_zones srv) (in_tx inc) schedule_id True None)"

definition resume_schedule ::
  "api_server \<Rightarrow> incoming \<Rightarrow> principal option \<Rightarrow> uuid \<Rightarrow> db \<Rightarrow> db \<times> response" where
  "resume_schedule srv inc p schedule_id =
     writing inc p Operator ''schedule.resume'' is_transition_error 200 AcceptedBody
       (set_schedule_paused (ap_zones srv) (in_tx inc) schedule_id False None)"

definition backfill_workflow_schedule ::
  "api_server \<Rightarrow> incoming \<Rightarrow> principal option \<Rightarrow> uuid \<Rightarrow> datetime \<Rightarrow> datetime \<Rightarrow> int \<Rightarrow> db \<Rightarrow> db \<times> response" where
  "backfill_workflow_schedule srv inc p schedule_id start_at end_at limit =
     writing inc p Admin ''schedule.backfill'' rejected 200 StartedCountBody
       (backfill_schedule (ap_env srv) (ap_zones srv) (in_tx inc) schedule_id start_at end_at limit)"

definition start ::
  "api_server \<Rightarrow> incoming \<Rightarrow> principal option \<Rightarrow> start_workflow_request \<Rightarrow> db \<Rightarrow> db \<times> response" where
  "start srv inc p body =
     writing inc p Operator ''workflow.start'' rejected 201
       (\<lambda>w. StartedBody w (sw_workflow_type body) (sw_definition_version body))
       (start_workflow (ap_env srv) (in_tx inc) (sw_workflow_type body) (sw_definition_version body)
          (sw_input body) (sw_queue_name body) None (sw_search_attributes body) None)"

definition execution :: "principal option \<Rightarrow> uuid \<Rightarrow> db \<Rightarrow> response" where
  "execution p w d =
     reading p Viewer (\<lambda>_.
       case get_execution w d of None \<Rightarrow> HttpException 404 | Some e \<Rightarrow> Response 200 (ExecutionBody e))"

definition continuation_chain :: "principal option \<Rightarrow> uuid \<Rightarrow> db \<Rightarrow> response" where
  "continuation_chain p w d =
     reading p Viewer (\<lambda>_.
       let records = get_continuation_chain w d
       in if records = [] then HttpException 404 else Response 200 (ExecutionsBody records))"

definition debug_event :: "history_record \<Rightarrow> history_event" where
  "debug_event r =
     \<lparr>ev_seq = rc_seq r, ev_type = rc_event_type r, ev_attributes = rc_attributes r,
      ev_command_id = rc_command_id r, ev_entity_id = rc_entity_id r, ev_external_id = rc_external_id r\<rparr>"

definition known_workflow :: "incoming \<Rightarrow> uuid \<Rightarrow> response \<Rightarrow> response" where
  "known_workflow inc w r =
     (case get_execution w (in_first_read inc) of None \<Rightarrow> HttpException 404 | Some e \<Rightarrow> r)"

definition debug_trace :: "incoming \<Rightarrow> principal option \<Rightarrow> uuid \<Rightarrow> int \<Rightarrow> db \<Rightarrow> response" where
  "debug_trace inc p w limit d =
     reading p Viewer (\<lambda>_. known_workflow inc w
       (answer (\<lambda>page. TraceBody w (build_replay_trace (map debug_event (pg_items page)))
                  (pg_next_after_seq page \<noteq> None) (pg_next_after_seq page))
          (get_history_page w 0 limit d)))"

text \<open>The two pages are read by concurrent queries, so of two states of the database.\<close>

definition debug_compare ::
  "incoming \<Rightarrow> principal option \<Rightarrow> uuid \<Rightarrow> uuid \<Rightarrow> int \<Rightarrow> db \<Rightarrow> response" where
  "debug_compare inc p w v limit d =
     reading p Viewer (\<lambda>_.
       case (get_history_page w 0 limit (in_first_read inc), get_history_page v 0 limit d) of
         (Inr left, Inr right) \<Rightarrow>
           if pg_items left = [] \<or> pg_items right = [] then HttpException 404
           else Response 200 (ComparisonBody
                  (compare_command_histories (map debug_event (pg_items left))
                     (map debug_event (pg_items right))) w v
                  (pg_next_after_seq left \<noteq> None \<or> pg_next_after_seq right \<noteq> None))
       | (Inl e, _) \<Rightarrow> Unhandled (Some e)
       | (_, Inl e) \<Rightarrow> Unhandled (Some e))"

definition history :: "incoming \<Rightarrow> principal option \<Rightarrow> uuid \<Rightarrow> int \<Rightarrow> int \<Rightarrow> db \<Rightarrow> response" where
  "history inc p w after_seq limit d =
     reading p Viewer (\<lambda>_. known_workflow inc w
       (answer (\<lambda>page. HistoryBody (pg_items page) (pg_next_after_seq page))
          (get_history_page w after_seq limit d)))"

definition patch_search_attributes ::
  "api_server \<Rightarrow> incoming \<Rightarrow> principal option \<Rightarrow> uuid \<Rightarrow> dict \<Rightarrow> string list \<Rightarrow> db \<Rightarrow> db \<times> response" where
  "patch_search_attributes srv inc p w attrs unset =
     writing inc p Operator ''workflow.search-attributes.update'' rejected 200 AttributesBody
       (update_search_attributes (ap_env srv) (in_tx inc) w attrs unset)"

definition history_tail :: "incoming \<Rightarrow> principal option \<Rightarrow> uuid \<Rightarrow> int \<Rightarrow> db \<Rightarrow> response" where
  "history_tail inc p w limit d =
     reading p Viewer (\<lambda>_. known_workflow inc w (answer TailBody (get_history_tail w limit d)))"

definition signal ::
  "incoming \<Rightarrow> principal option \<Rightarrow> uuid \<Rightarrow> message_request \<Rightarrow> db \<Rightarrow> db \<times> response" where
  "signal inc p w body =
     writing inc p Operator ''workflow.signal'' is_transition_error 200 AcceptedBody
       (send_signal (in_tx inc) w (mr_id body) (mr_name body) (mr_payload body))"

definition update_workflow ::
  "incoming \<Rightarrow> principal option \<Rightarrow> uuid \<Rightarrow> message_request \<Rightarrow> db \<Rightarrow> db \<times> response" where
  "update_workflow inc p w body =
     writing inc p Operator ''workflow.update'' rejected 202 (\<lambda>(u, accepted). SentUpdateBody u accepted)
       (send_update (in_tx inc) w (mr_id body) (mr_name body) (mr_payload body))"

definition workflow_updates :: "incoming \<Rightarrow> principal option \<Rightarrow> uuid \<Rightarrow> int \<Rightarrow> db \<Rightarrow> response" where
  "workflow_updates inc p w limit d =
     reading p Viewer (\<lambda>_. known_workflow inc w (answer UpdatesBody (list_updates d w limit)))"

definition get_workflow_update :: "principal option \<Rightarrow> uuid \<Rightarrow> string \<Rightarrow> db \<Rightarrow> response" where
  "get_workflow_update p w update_id d =
     reading p Viewer (\<lambda>_.
       case get_update d w update_id of
         None \<Rightarrow> HttpException 404 | Some u \<Rightarrow> Response 200 (UpdateBody u))"

definition terminate ::
  "api_server \<Rightarrow> incoming \<Rightarrow> principal option \<Rightarrow> uuid \<Rightarrow> string option \<Rightarrow> db \<Rightarrow> db \<times> response" where
  "terminate srv inc p w reason =
     writing inc p Admin ''workflow.terminate'' is_transition_error 200 AcceptedBody
       (terminate_workflow (ap_depth srv) (in_tx inc) w reason)"

definition pause ::
  "incoming \<Rightarrow> principal option \<Rightarrow> uuid \<Rightarrow> string option \<Rightarrow> db \<Rightarrow> db \<times> response" where
  "pause inc p w reason =
     writing inc p Operator ''workflow.pause'' is_transition_error 200 AcceptedBody
       (pause_workflow (in_tx inc) w reason)"

definition resume ::
  "api_server \<Rightarrow> incoming \<Rightarrow> principal option \<Rightarrow> uuid \<Rightarrow> string option \<Rightarrow> db \<Rightarrow> db \<times> response" where
  "resume srv inc p w reason =
     writing inc p Operator ''workflow.resume'' is_transition_error 200 AcceptedBody
       (resume_workflow (ap_env srv) (in_tx inc) w reason)"

definition retried_body :: "incoming \<Rightarrow> uuid \<Rightarrow> uuid \<Rightarrow> api_body" where
  "retried_body inc w started =
     (case find_execution (in_first_read inc) w of
        None \<Rightarrow> StartedBody started [] 0
      | Some e \<Rightarrow> StartedBody started (ex_workflow_type e) (ex_definition_version e))"

definition retry :: "api_server \<Rightarrow> incoming \<Rightarrow> principal option \<Rightarrow> uuid \<Rightarrow> db \<Rightarrow> db \<times> response" where
  "retry srv inc p w =
     writing inc p Admin ''workflow.retry'' is_transition_error 201 (retried_body inc w)
       (\<lambda>audit. retry_workflow (ap_env srv) (in_tx inc) w audit (in_first_read inc))"

definition cancel ::
  "incoming \<Rightarrow> principal option \<Rightarrow> uuid \<Rightarrow> string option \<Rightarrow> db \<Rightarrow> db \<times> response" where
  "cancel inc p w reason =
     writing inc p Operator ''workflow.cancel'' is_transition_error 200 AcceptedBody
       (request_workflow_cancellation (in_tx inc) w reason)"

fun call_handler :: "api_server \<Rightarrow> incoming \<Rightarrow> api_request \<Rightarrow> principal option \<Rightarrow> db \<Rightarrow> db \<times> response" where
  "call_handler srv inc GetLiveness p d = (d, Response 200 (StatusBody ''alive''))"
| "call_handler srv inc GetHealth p d = (d, readiness_response srv inc)"
| "call_handler srv inc GetReadiness p d = (d, readiness_response srv inc)"
| "call_handler srv inc GetSession p d = (d, session p)"
| "call_handler srv inc (GetWorkflows f) p d = (d, workflows srv p f d)"
| "call_handler srv inc GetStats p d = (d, stats p d)"
| "call_handler srv inc GetWorkers p d = (d, workers inc p d)"
| "call_handler srv inc GetMetrics p d = (d, metrics inc p d)"
| "call_handler srv inc (GetAudit limit) p d = (d, audit_records p limit d)"
| "call_handler srv inc (GetDeadLetter limit) p d = (d, dead_letter_records p limit d)"
| "call_handler srv inc GetSchedules p d = (d, schedules p d)"
| "call_handler srv inc (PostSchedule body) p d = create_workflow_schedule srv inc p body d"
| "call_handler srv inc (GetOccurrences s limit) p d = (d, schedule_occurrences p s limit d)"
| "call_handler srv inc (PostSchedulePause s) p d = pause_schedule srv inc p s d"
| "call_handler srv inc (PostScheduleResume s) p d = resume_schedule srv inc p s d"
| "call_handler srv inc (PostBackfill s a b limit) p d = backfill_workflow_schedule srv inc p s a b limit d"
| "call_handler srv inc (PostWorkflow body) p d = start srv inc p body d"
| "call_handler srv inc (GetWorkflow w) p d = (d, execution p w d)"
| "call_handler srv inc (GetContinuationChain w) p d = (d, continuation_chain p w d)"
| "call_handler srv inc (GetDebugTrace w limit) p d = (d, debug_trace inc p w limit d)"
| "call_handler srv inc (GetDebugCompare w v limit) p d = (d, debug_compare inc p w v limit d)"
| "call_handler srv inc (GetHistory w after_seq limit) p d = (d, history inc p w after_seq limit d)"
| "call_handler srv inc (PatchSearchAttributes w attrs unset) p d =
     patch_search_attributes srv inc p w attrs unset d"
| "call_handler srv inc (GetHistoryTail w limit) p d = (d, history_tail inc p w limit d)"
| "call_handler srv inc (PostSignal w body) p d = signal inc p w body d"
| "call_handler srv inc (PostUpdate w body) p d = update_workflow inc p w body d"
| "call_handler srv inc (GetUpdates w limit) p d = (d, workflow_updates inc p w limit d)"
| "call_handler srv inc (GetUpdate w u) p d = (d, get_workflow_update p w u d)"
| "call_handler srv inc (PostTerminate w reason) p d = terminate srv inc p w reason d"
| "call_handler srv inc (PostPause w reason) p d = pause inc p w reason d"
| "call_handler srv inc (PostResume w reason) p d = resume srv inc p w reason d"
| "call_handler srv inc (PostRetry w) p d = retry srv inc p w d"
| "call_handler srv inc (PostCancel w reason) p d = cancel inc p w reason d"

section \<open>Routes and middleware\<close>

definition workflow_path :: "uuid \<Rightarrow> string \<Rightarrow> string" where
  "workflow_path w rest = ''/api/workflows/'' @ uuid_str w @ rest"

definition schedule_path :: "uuid \<Rightarrow> string \<Rightarrow> string" where
  "schedule_path s rest = ''/api/schedules/'' @ uuid_str s @ rest"

fun route_path :: "api_request \<Rightarrow> string" where
  "route_path GetLiveness = ''/api/health/live''"
| "route_path GetHealth = ''/api/health''"
| "route_path GetReadiness = ''/api/health/ready''"
| "route_path GetSession = ''/api/session''"
| "route_path (GetWorkflows f) = ''/api/workflows''"
| "route_path GetStats = ''/api/stats''"
| "route_path GetWorkers = ''/api/workers''"
| "route_path GetMetrics = ''/metrics''"
| "route_path (GetAudit limit) = ''/api/audit''"
| "route_path (GetDeadLetter limit) = ''/api/dead-letter''"
| "route_path GetSchedules = ''/api/schedules''"
| "route_path (PostSchedule body) = ''/api/schedules''"
| "route_path (GetOccurrences s limit) = schedule_path s ''/occurrences''"
| "route_path (PostSchedulePause s) = schedule_path s ''/pause''"
| "route_path (PostScheduleResume s) = schedule_path s ''/resume''"
| "route_path (PostBackfill s a b limit) = schedule_path s ''/backfill''"
| "route_path (PostWorkflow body) = ''/api/workflows''"
| "route_path (GetWorkflow w) = workflow_path w []"
| "route_path (GetContinuationChain w) = workflow_path w ''/continuation-chain''"
| "route_path (GetDebugTrace w limit) = workflow_path w ''/debug-trace''"
| "route_path (GetDebugCompare w v limit) = workflow_path w (''/debug-compare/'' @ uuid_str v)"
| "route_path (GetHistory w after_seq limit) = workflow_path w ''/history''"
| "route_path (PatchSearchAttributes w attrs unset) = workflow_path w ''/search-attributes''"
| "route_path (GetHistoryTail w limit) = workflow_path w ''/history-tail''"
| "route_path (PostSignal w body) = workflow_path w ''/signals''"
| "route_path (PostUpdate w body) = workflow_path w ''/updates''"
| "route_path (GetUpdates w limit) = workflow_path w ''/updates''"
| "route_path (GetUpdate w u) = workflow_path w (''/updates/'' @ u)"
| "route_path (PostTerminate w reason) = workflow_path w ''/terminate''"
| "route_path (PostPause w reason) = workflow_path w ''/pause''"
| "route_path (PostResume w reason) = workflow_path w ''/resume''"
| "route_path (PostRetry w) = workflow_path w ''/retry''"
| "route_path (PostCancel w reason) = workflow_path w ''/cancel''"

text \<open>The routes whose body FastAPI reads.\<close>

fun has_body :: "api_request \<Rightarrow> bool" where
  "has_body (PostSchedule body) = True"
| "has_body (PostBackfill s a b limit) = True"
| "has_body (PostWorkflow body) = True"
| "has_body (PatchSearchAttributes w attrs unset) = True"
| "has_body (PostSignal w body) = True"
| "has_body (PostUpdate w body) = True"
| "has_body (PostTerminate w reason) = True"
| "has_body (PostPause w reason) = True"
| "has_body (PostResume w reason) = True"
| "has_body (PostCancel w reason) = True"
| "has_body _ = False"

definition PUBLIC_PATHS :: "string list" where
  "PUBLIC_PATHS = [''/'', ''/api/health'', ''/api/health/live'', ''/api/health/ready'', ''/docs'',
     ''/redoc'', ''/openapi.json'']"

definition starts_with :: "string \<Rightarrow> string \<Rightarrow> bool" where
  "starts_with s p \<longleftrightarrow> take (length p) s = p"

definition public_path :: "string \<Rightarrow> bool" where
  "public_path path \<longleftrightarrow> path \<in> set PUBLIC_PATHS \<or> starts_with path ''/static/''"

definition secure_headers :: "uuid \<Rightarrow> string \<Rightarrow> (string \<times> string) list" where
  "secure_headers request_id path =
     [(''X-Request-ID'', uuid_str request_id), (''X-Content-Type-Options'', ''nosniff''),
      (''Referrer-Policy'', ''strict-origin-when-cross-origin''), (''X-Frame-Options'', ''DENY''),
      (''Permissions-Policy'', ''camera=(), microphone=(), geolocation=()'')]
     @ (if path = ''/'' \<or> starts_with path ''/static/''
        then [(''Content-Security-Policy'',
          ''default-src 'self'; base-uri 'none'; connect-src 'self'; '' @
          ''font-src 'self'; form-action 'self'; frame-ancestors 'none'; '' @
          ''img-src 'self' data:; object-src 'none'; script-src 'self'; style-src 'self'' @ [CHR 0x27])]
        else [])
     @ (if starts_with path ''/api/'' then [(''Cache-Control'', ''no-store'')]
        else if starts_with path ''/static/''
        then [(''Cache-Control'', ''public, max-age=300, must-revalidate'')]
        else [])"

text \<open>
  What the application does behind the middleware \<^verbatim>\<open>secure_responses\<close>: the body limit, the declared
  constraints, the handler.
\<close>

definition call_next ::
  "api_server \<Rightarrow> incoming \<Rightarrow> api_request \<Rightarrow> principal option \<Rightarrow> db \<Rightarrow> db \<times> response" where
  "call_next srv inc r p d =
     (case limit_body (ac_max_request_bytes (ap_auth srv)) (in_declared_length inc)
             (if has_body r then in_chunks inc else []) of
        Rejected413 \<Rightarrow> (d, HttpException 413)
      | Rejected400 \<Rightarrow> (d, HttpException 400)
      | Delivered chunks \<Rightarrow>
          if \<not> request_valid r then (d, HttpException 422) else call_handler srv inc r p d)"

text \<open>\<^verbatim>\<open>bearer_token(request) or ""\<close>.\<close>

definition request_token :: "incoming \<Rightarrow> string" where
  "request_token inc = (case bearer_token (in_authorization inc) of None \<Rightarrow> [] | Some t \<Rightarrow> t)"

text \<open>An exception that nothing catches is raised again and gets no headers.\<close>

definition finish_response ::
  "incoming \<Rightarrow> string \<Rightarrow> (string \<times> string) list \<Rightarrow> response \<Rightarrow> response \<times> (string \<times> string) list" where
  "finish_response inc path extra r =
     (r, case r of Unhandled e \<Rightarrow> [] | _ \<Rightarrow> extra @ secure_headers (in_request_id inc) path)"

definition secure_responses ::
  "api_server \<Rightarrow> incoming \<Rightarrow> api_request \<Rightarrow> limiter \<times> db
    \<Rightarrow> (limiter \<times> db) \<times> response \<times> (string \<times> string) list" where
  "secure_responses srv inc r = (\<lambda>(l, d).
     let path = route_path r
     in if public_path path
        then (let (d', resp) = call_next srv inc r None d
              in ((l, d'), finish_response inc path [] resp))
        else
          (case authenticate (ap_env srv) (ap_auth srv) (request_token inc) of
               None \<Rightarrow> ((l, d), finish_response inc path [(''WWW-Authenticate'', ''Bearer'')]
                        (HttpException 401))
             | Some p \<Rightarrow>
                 (case allow (pr_key_id p) (in_time inc) l of
                    (l', None) \<Rightarrow> ((l', d), finish_response inc path [] (Unhandled None))
                  | (l', Some (allowed, retry_after)) \<Rightarrow>
                      if \<not> allowed
                      then ((l', d), finish_response inc path [(''Retry-After'', int_str retry_after)]
                             (HttpException 429))
                      else (let (d', resp) = call_next srv inc r (Some p) d
                            in ((l', d'), finish_response inc path [] resp)))))"

section \<open>Only writing handlers change the database\<close>

text \<open>The role that a route asks for when it writes, and the action it records.\<close>

fun write_access :: "api_request \<Rightarrow> (role \<times> string) option" where
  "write_access (PostSchedule body) = Some (Operator, ''schedule.create'')"
| "write_access (PostSchedulePause s) = Some (Operator, ''schedule.pause'')"
| "write_access (PostScheduleResume s) = Some (Operator, ''schedule.resume'')"
| "write_access (PostBackfill s a b limit) = Some (Admin, ''schedule.backfill'')"
| "write_access (PostWorkflow body) = Some (Operator, ''workflow.start'')"
| "write_access (PatchSearchAttributes w attrs unset) = Some (Operator, ''workflow.search-attributes.update'')"
| "write_access (PostSignal w body) = Some (Operator, ''workflow.signal'')"
| "write_access (PostUpdate w body) = Some (Operator, ''workflow.update'')"
| "write_access (PostTerminate w reason) = Some (Admin, ''workflow.terminate'')"
| "write_access (PostPause w reason) = Some (Operator, ''workflow.pause'')"
| "write_access (PostResume w reason) = Some (Operator, ''workflow.resume'')"
| "write_access (PostRetry w) = Some (Admin, ''workflow.retry'')"
| "write_access (PostCancel w reason) = Some (Operator, ''workflow.cancel'')"
| "write_access _ = None"

lemma reading_call: "write_access r = None \<Longrightarrow> fst (call_handler srv inc r p d) = d"
  by (cases r) simp_all

lemma route_not_public: "write_access r \<noteq> None \<Longrightarrow> \<not> public_path (route_path r)"
  by (cases r) (simp_all add: public_path_def PUBLIC_PATHS_def starts_with_def workflow_path_def schedule_path_def)

lemma writing_cases:
  assumes "writing inc p minimum action caught code body op d = (d', resp)" and "d' \<noteq> d"
  obtains q x where "p = Some q" and "ROLE_LEVEL minimum \<le> ROLE_LEVEL (pr_role q)"
    and "op (audit_of inc q action) d = Inr (d', x)"
  using assms by (auto simp: writing_def require_role_def split: option.splits sum.splits if_splits)

lemma writing_error: "writing inc p minimum action caught code body op d = (d', resp) \<Longrightarrow>
    (\<forall>c b. resp \<noteq> Response c b) \<Longrightarrow> d' = d"
  by (auto simp: writing_def split: sum.splits)

end
