(* ===== verification/Store_Laws.thy ===== *)
theory Store_Laws
  imports Database
begin

text \<open>
  The invariant of the database and what every SQL statement of the engine does to it. Inside a
  transaction the invariant holds up to three parameters: \<open>ov\<close> overrides the next sequence number
  of the executions whose events have been inserted and whose counter has not been updated yet,
  \<open>X\<close> holds the executions that are closed and whose tasks have not been killed yet, and \<open>Y\<close> the
  task that the transaction itself will complete at its end.
\<close>

section \<open>The invariant\<close>

definition cursor :: "(uuid \<rightharpoonup> int) \<Rightarrow> execution_row \<Rightarrow> int" where
  "cursor ov e = (case ov (ex_id e) of None \<Rightarrow> ex_next_seq e | Some n \<Rightarrow> n)"

definition position :: "db \<Rightarrow> uuid \<Rightarrow> nat" where
  "position d w = length (takeWhile (\<lambda>i. i \<noteq> w) (map ex_id (db_executions d)))"

text \<open>Parents are older than their children.\<close>

definition parents_first :: "db \<Rightarrow> bool" where
  "parents_first d \<longleftrightarrow>
     (\<forall>e\<in>set (db_executions d). \<forall>p. ex_parent_workflow_id e = Some p \<longrightarrow>
        execution_exists d p \<and> position d p < position d (ex_id e))"

definition store_ok :: "(uuid \<rightharpoonup> int) \<Rightarrow> uuid set \<Rightarrow> uuid set \<Rightarrow> db \<Rightarrow> bool" where
  "store_ok ov X Y d \<longleftrightarrow>
     distinct (map ex_id (db_executions d)) \<and> distinct (map tk_id (db_tasks d))
     \<and> (\<forall>r\<in>set (db_history d). execution_exists d (hr_workflow_id r))
     \<and> (\<forall>t\<in>set (db_tasks d). execution_exists d (tk_workflow_id t))
     \<and> (\<forall>e\<in>set (db_executions d). execution_check e)
     \<and> (\<forall>t\<in>set (db_tasks d). task_check t)
     \<and> (\<forall>e\<in>set (db_executions d).
          1 \<le> cursor ov e \<and> map hr_seq (workflow_history d (ex_id e)) = [1..cursor ov e - 1])
     \<and> (\<forall>e\<in>set (db_executions d). \<forall>t\<in>set (db_tasks d).
          ex_status e \<noteq> WfRunning \<longrightarrow> tk_workflow_id t = ex_id e \<longrightarrow> open_task t
          \<longrightarrow> ex_id e \<in> X \<or> tk_id t \<in> Y)
     \<and> parents_first d"

text \<open>Between transactions there is nothing to except.\<close>

definition committed :: "db \<Rightarrow> bool" where
  "committed d \<longleftrightarrow> store_ok Map.empty {} {} d"

definition running :: "db \<Rightarrow> uuid \<Rightarrow> bool" where
  "running d w \<longleftrightarrow> (\<exists>e. find_execution d w = Some e \<and> ex_status e = WfRunning)"

section \<open>What a transaction never undoes\<close>

text \<open>The columns of an execution that no statement changes.\<close>

definition same_identity :: "execution_row \<Rightarrow> execution_row \<Rightarrow> bool" where
  "same_identity e e' \<longleftrightarrow>
     ex_id e' = ex_id e \<and> ex_workflow_type e' = ex_workflow_type e
     \<and> ex_definition_version e' = ex_definition_version e \<and> ex_input e' = ex_input e
     \<and> ex_created_at e' = ex_created_at e \<and> ex_queue_name e' = ex_queue_name e
     \<and> ex_parent_workflow_id e' = ex_parent_workflow_id e
     \<and> ex_parent_command_id e' = ex_parent_command_id e
     \<and> ex_parent_close_policy e' = ex_parent_close_policy e
     \<and> ex_retry_of e' = ex_retry_of e \<and> ex_continued_from e' = ex_continued_from e
     \<and> ex_schedule_id e' = ex_schedule_id e \<and> ex_scheduled_at e' = ex_scheduled_at e"

text \<open>An open execution may change; of a closed one the outcome is fixed.\<close>

definition execution_le :: "execution_row \<Rightarrow> execution_row \<Rightarrow> bool" where
  "execution_le e e' \<longleftrightarrow>
     same_identity e e'
     \<and> (ex_status e \<noteq> WfRunning \<longrightarrow>
          ex_status e' = ex_status e \<and> ex_result e' = ex_result e \<and> ex_failure e' = ex_failure e
          \<and> ex_next_seq e' = ex_next_seq e \<and> ex_closed_at e' = ex_closed_at e)"

text \<open>What a task is about never changes; the statements of the engine move its status, its lease and its clocks.\<close>

definition task_identity ::
  "task_row \<Rightarrow> uuid \<times> uuid \<times> task_type \<times> uuid option \<times> int option \<times> int \<times> json option" where
  "task_identity t =
     (tk_id t, tk_workflow_id t, tk_task_type t, tk_entity_id t, tk_command_id t, tk_attempt t, tk_input t)"

definition only_appends :: "db \<Rightarrow> db \<Rightarrow> bool" where
  "only_appends d d' \<longleftrightarrow>
     (\<exists>h. db_history d' = db_history d @ h
        \<and> (\<forall>r\<in>set h. \<forall>e. find_execution d (hr_workflow_id r) = Some e \<longrightarrow> ex_status e = WfRunning))
     \<and> (\<forall>w e. find_execution d w = Some e \<longrightarrow> (\<exists>e'. find_execution d' w = Some e' \<and> execution_le e e'))
     \<and> (\<forall>t\<in>set (db_tasks d). \<not> open_task t \<longrightarrow> t \<in> set (db_tasks d'))
     \<and> (\<forall>t\<in>set (db_tasks d). task_identity t \<in> task_identity ` set (db_tasks d'))
     \<and> (\<exists>xs. db_definitions d' = db_definitions d @ xs)
     \<and> (\<exists>xs. db_audit d' = db_audit d @ xs)
     \<and> (\<exists>xs. db_effects d' = db_effects d @ xs)"

definition progress :: "(uuid \<rightharpoonup> int) \<Rightarrow> uuid set \<Rightarrow> uuid set \<Rightarrow> db \<Rightarrow> db \<Rightarrow> bool" where
  "progress ov X Y d0 d \<longleftrightarrow> store_ok ov X Y d \<and> only_appends d0 d"

lemma execution_le_refl [simp]: "execution_le e e"
  by (simp add: execution_le_def same_identity_def)

lemma execution_le_trans: "execution_le a b \<Longrightarrow> execution_le b c \<Longrightarrow> execution_le a c"
  by (auto simp: execution_le_def same_identity_def)

lemma only_appends_refl [simp]: "only_appends d d"
  by (auto simp: only_appends_def)

lemma only_appends_trans:
  assumes "only_appends a b" and "only_appends b c"
  shows "only_appends a c"
proof -
  obtain h1 where h1: "db_history b = db_history a @ h1"
    "\<forall>r\<in>set h1. \<forall>e. find_execution a (hr_workflow_id r) = Some e \<longrightarrow> ex_status e = WfRunning"
    using assms(1) unfolding only_appends_def by blast
  obtain h2 where h2: "db_history c = db_history b @ h2"
    "\<forall>r\<in>set h2. \<forall>e. find_execution b (hr_workflow_id r) = Some e \<longrightarrow> ex_status e = WfRunning"
    using assms(2) unfolding only_appends_def by blast
  have keep: "\<forall>w e. find_execution a w = Some e \<longrightarrow> (\<exists>e'. find_execution b w = Some e' \<and> execution_le e e')"
    using assms(1) unfolding only_appends_def by blast
  have "ex_status e = WfRunning" if "r \<in> set h2" "find_execution a (hr_workflow_id r) = Some e" for r e
    using keep h2(2) that unfolding execution_le_def by metis
  then have "\<exists>h. db_history c = db_history a @ h
      \<and> (\<forall>r\<in>set h. \<forall>e. find_execution a (hr_workflow_id r) = Some e \<longrightarrow> ex_status e = WfRunning)"
    using h1 h2(1) by (intro exI[of _ "h1 @ h2"]) auto
  moreover have "\<exists>e'. find_execution c w = Some e' \<and> execution_le e e'"
    if "find_execution a w = Some e" for w e
    using assms that execution_le_trans unfolding only_appends_def by metis
  moreover have "\<forall>t\<in>set (db_tasks a). \<not> open_task t \<longrightarrow> t \<in> set (db_tasks c)"
    using assms by (auto simp: only_appends_def)
  moreover have "task_identity t \<in> task_identity ` set (db_tasks c)" if "t \<in> set (db_tasks a)" for t
  proof -
    have "task_identity t \<in> task_identity ` set (db_tasks b)" using assms(1) that by (simp add: only_appends_def)
    then obtain u where "u \<in> set (db_tasks b)" "task_identity t = task_identity u" by blast
    with assms(2) show ?thesis by (simp add: only_appends_def)
  qed
  moreover have "(\<exists>xs. db_definitions c = db_definitions a @ xs)
      \<and> (\<exists>xs. db_audit c = db_audit a @ xs) \<and> (\<exists>xs. db_effects c = db_effects a @ xs)"
    using assms by (auto simp: only_appends_def)
  ultimately show ?thesis unfolding only_appends_def by blast
qed

lemma only_appends_find:
  assumes "only_appends d d'" and "find_execution d w = Some e"
  obtains e' where "find_execution d' w = Some e'" and "execution_le e e'"
  using assms unfolding only_appends_def by blast

section \<open>Finding rows\<close>

lemma find_execution_Some:
  "find_execution d w = Some e \<Longrightarrow> e \<in> set (db_executions d) \<and> ex_id e = w"
  by (auto simp: find_execution_def find_Some_iff)

lemma find_execution_None: "find_execution d w = None \<longleftrightarrow> \<not> execution_exists d w"
  by (auto simp: find_execution_def find_None_iff execution_exists_def list_ex_iff)

lemma execution_exists_iff: "execution_exists d w \<longleftrightarrow> w \<in> ex_id ` set (db_executions d)"
  by (auto simp: execution_exists_def list_ex_iff)

lemma distinct_find:
  "distinct (map f xs) \<Longrightarrow> x \<in> set xs \<Longrightarrow> List.find (\<lambda>y. f y = f x) xs = Some x"
  by (induction xs) auto

lemma find_executionI:
  "store_ok ov X Y d \<Longrightarrow> e \<in> set (db_executions d) \<Longrightarrow> find_execution d (ex_id e) = Some e"
  by (auto simp: find_execution_def store_ok_def distinct_find)

lemma find_map_if:
  "(\<And>y. q y \<Longrightarrow> p (f y) = p y) \<Longrightarrow>
    List.find p (map (\<lambda>y. if q y then f y else y) xs)
      = map_option (\<lambda>y. if q y then f y else y) (List.find p xs)"
  by (induction xs) auto

lemma find_execution_update:
  assumes "\<And>e. ex_id (f e) = ex_id e"
  shows "find_execution (update_executions p f d) w
    = map_option (\<lambda>e. if p e then f e else e) (find_execution d w)"
  by (simp add: find_execution_def update_executions_def find_map_if assms)

lemma find_execution_append:
  "find_execution (d\<lparr>db_executions := db_executions d @ [e]\<rparr>) w =
    (case find_execution d w of Some r \<Rightarrow> Some r | None \<Rightarrow> if ex_id e = w then Some e else None)"
proof -
  have "List.find P (xs @ [y]) =
      (case List.find P xs of Some r \<Rightarrow> Some r | None \<Rightarrow> if P y then Some y else None)"
    for P and xs :: "execution_row list" and y
    by (induction xs) auto
  then show ?thesis by (simp add: find_execution_def)
qed

text \<open>What does not depend on the tables a statement leaves alone.\<close>

lemma frame_simps [simp, table_simps]:
  "find_execution (d\<lparr>db_history := h\<rparr>) w = find_execution d w"
  "find_execution (d\<lparr>db_tasks := ts\<rparr>) w = find_execution d w"
  "find_execution (d\<lparr>db_updates := us\<rparr>) w = find_execution d w"
  "find_execution (d\<lparr>db_audit := as\<rparr>) w = find_execution d w"
  "find_execution (d\<lparr>db_definitions := ds\<rparr>) w = find_execution d w"
  "find_execution (d\<lparr>db_effects := es\<rparr>) w = find_execution d w"
  "find_execution (d\<lparr>db_schedules := ss\<rparr>) w = find_execution d w"
  "find_execution (d\<lparr>db_occurrences := os\<rparr>) w = find_execution d w"
  "execution_exists (d\<lparr>db_history := h\<rparr>) w = execution_exists d w"
  "execution_exists (d\<lparr>db_tasks := ts\<rparr>) w = execution_exists d w"
  "execution_exists (d\<lparr>db_updates := us\<rparr>) w = execution_exists d w"
  "execution_exists (d\<lparr>db_audit := as\<rparr>) w = execution_exists d w"
  "execution_exists (d\<lparr>db_definitions := ds\<rparr>) w = execution_exists d w"
  "execution_exists (d\<lparr>db_effects := es\<rparr>) w = execution_exists d w"
  "execution_exists (d\<lparr>db_schedules := ss\<rparr>) w = execution_exists d w"
  "execution_exists (d\<lparr>db_occurrences := os\<rparr>) w = execution_exists d w"
  "position (d\<lparr>db_history := h\<rparr>) w = position d w"
  "position (d\<lparr>db_tasks := ts\<rparr>) w = position d w"
  "position (d\<lparr>db_updates := us\<rparr>) w = position d w"
  "position (d\<lparr>db_audit := as\<rparr>) w = position d w"
  "position (d\<lparr>db_definitions := ds\<rparr>) w = position d w"
  "position (d\<lparr>db_effects := es\<rparr>) w = position d w"
  "position (d\<lparr>db_schedules := ss\<rparr>) w = position d w"
  "position (d\<lparr>db_occurrences := os\<rparr>) w = position d w"
  "workflow_history (d\<lparr>db_executions := xs\<rparr>) w = workflow_history d w"
  "workflow_history (d\<lparr>db_tasks := ts\<rparr>) w = workflow_history d w"
  "workflow_history (d\<lparr>db_updates := us\<rparr>) w = workflow_history d w"
  "workflow_history (d\<lparr>db_audit := as\<rparr>) w = workflow_history d w"
  "workflow_history (d\<lparr>db_definitions := ds\<rparr>) w = workflow_history d w"
  "workflow_history (d\<lparr>db_effects := es\<rparr>) w = workflow_history d w"
  "workflow_history (d\<lparr>db_schedules := ss\<rparr>) w = workflow_history d w"
  "workflow_history (d\<lparr>db_occurrences := os\<rparr>) w = workflow_history d w"
  by (simp_all add: find_execution_def execution_exists_def position_def workflow_history_def)

lemma running_frame [simp, table_simps]:
  "running (d\<lparr>db_history := h\<rparr>) = running d" "running (d\<lparr>db_tasks := ts\<rparr>) = running d"
  "running (d\<lparr>db_updates := us\<rparr>) = running d" "running (d\<lparr>db_audit := as\<rparr>) = running d"
  by (simp_all add: running_def fun_eq_iff)

section \<open>Statements\<close>

lemma progress_refl: "store_ok ov X Y d \<Longrightarrow> progress ov X Y d d"
  by (simp add: progress_def)

lemma running_row: "running d w \<Longrightarrow> store_ok ov X Y d \<Longrightarrow> e \<in> set (db_executions d) \<Longrightarrow>
   ex_id e = w \<Longrightarrow> ex_status e = WfRunning"
  by (auto simp: running_def dest: find_executionI)

lemma workflow_history_append:
  "workflow_history (d\<lparr>db_history := db_history d @ [r]\<rparr>) w =
    workflow_history d w @ (if hr_workflow_id r = w then [r] else [])"
  by (simp add: workflow_history_def)

lemma insert_history_progress:
  assumes "insert_history r d = Inr d'" and "progress ov X Y d0 d" and "running d (hr_workflow_id r)"
    and "\<And>e. find_execution d (hr_workflow_id r) = Some e \<Longrightarrow> cursor ov e = hr_seq r"
  shows "progress (ov(hr_workflow_id r \<mapsto> hr_seq r + 1)) X Y d0 d'"
proof -
  have ok: "store_ok ov X Y d" and app: "only_appends d0 d"
    using assms(2) by (simp_all add: progress_def)
  have d': "d' = d\<lparr>db_history := db_history d @ [r]\<rparr>" and ex: "execution_exists d (hr_workflow_id r)"
    using assms(1) by (auto simp: insert_history_def res_simps)
  have "1 \<le> cursor (ov(hr_workflow_id r \<mapsto> hr_seq r + 1)) e
      \<and> map hr_seq (workflow_history d' (ex_id e)) = [1..cursor (ov(hr_workflow_id r \<mapsto> hr_seq r + 1)) e - 1]"
    if e: "e \<in> set (db_executions d)" for e
  proof -
    have old: "1 \<le> cursor ov e" "map hr_seq (workflow_history d (ex_id e)) = [1..cursor ov e - 1]"
      using ok e by (auto simp: store_ok_def)
    show ?thesis
    proof (cases "ex_id e = hr_workflow_id r")
      case True
      with assms(4) find_executionI[OF ok e] have "cursor ov e = hr_seq r" by simp
      with True old show ?thesis
        by (simp add: d' workflow_history_append cursor_def upto_snoc)
    next
      case False
      with old show ?thesis by (simp add: d' workflow_history_append cursor_def)
    qed
  qed
  then have "store_ok (ov(hr_workflow_id r \<mapsto> hr_seq r + 1)) X Y d'"
    using ok ex by (auto simp: store_ok_def d' parents_first_def)
  moreover have "only_appends d d'"
    using assms(3) by (auto simp: only_appends_def d' running_def)
  ultimately show ?thesis using app only_appends_trans by (auto simp: progress_def)
qed

lemma insert_event_frame:
  assumes "insert_event x w n ty c e ext attrs d = Inr d'"
  shows "db_executions d' = db_executions d" and "db_tasks d' = db_tasks d"
    and "db_updates d' = db_updates d" and "db_definitions d' = db_definitions d"
    and "db_history d' = db_history d @ [history_entry x w n ty c e ext attrs]"
  using assms by (auto simp: insert_event_def insert_history_def res_simps)

lemma find_execution_cong: "db_executions d' = db_executions d \<Longrightarrow> find_execution d' = find_execution d"
  by (simp add: find_execution_def fun_eq_iff)

lemma insert_event_progress:
  assumes "insert_event x w n ty c e ext attrs d = Inr d'" and "progress ov X Y d0 d"
    and "find_execution d w = Some r" and "ex_status r = WfRunning" and "cursor ov r = n"
  shows "progress (ov(w \<mapsto> n + 1)) X Y d0 d'"
  using insert_history_progress[of "history_entry x w n ty c e ext attrs" d d' ov X Y d0] assms
  by (simp add: insert_event_def history_entry_def running_def)

lemma insert_task_progress:
  assumes "insert_task t d = Inr d'" and "progress ov X Y d0 d"
    and "running d (tk_workflow_id t)"
  shows "progress ov X Y d0 d'"
proof -
  have ok: "store_ok ov X Y d" and app: "only_appends d0 d"
    using assms(2) by (simp_all add: progress_def)
  have d': "d' = d\<lparr>db_tasks := db_tasks d @ [t]\<rparr>" and chk: "task_check t"
    "execution_exists d (tk_workflow_id t)" "tk_id t \<notin> tk_id ` set (db_tasks d)"
    using assms(1) by (auto simp: insert_task_def res_simps list_all_iff)
  have "store_ok ov X Y d'"
    using ok chk running_row[OF assms(3) ok] by (auto simp: store_ok_def d' parents_first_def)
  moreover have "only_appends d d'" by (auto simp: only_appends_def d')
  ultimately show ?thesis using app only_appends_trans by (auto simp: progress_def)
qed

lemma insert_task_frame:
  assumes "insert_task t d = Inr d'"
  shows "db_executions d' = db_executions d" and "db_history d' = db_history d"
    and "db_updates d' = db_updates d" and "db_definitions d' = db_definitions d"
    and "db_tasks d' = db_tasks d @ [t]"
  using assms by (auto simp: insert_task_def res_simps)

lemma position_append:
  assumes "execution_exists d w"
  shows "position (d\<lparr>db_executions := db_executions d @ xs\<rparr>) w = position d w"
proof -
  have "\<exists>e\<in>set (map ex_id (db_executions d)). \<not> e \<noteq> w"
    using assms by (auto simp: execution_exists_iff)
  then show ?thesis by (auto simp: position_def takeWhile_append)
qed

lemma takeWhile_neq_length: "w \<in> set xs \<Longrightarrow> length (takeWhile (\<lambda>i. i \<noteq> w) xs) < length xs"
  by (induction xs) auto

lemma position_less: "execution_exists d w \<Longrightarrow> position d w < length (db_executions d)"
  using takeWhile_neq_length[of w "map ex_id (db_executions d)"]
  by (simp add: position_def execution_exists_iff)

lemma position_new:
  assumes "\<not> execution_exists d (ex_id e)"
  shows "position (d\<lparr>db_executions := db_executions d @ [e]\<rparr>) (ex_id e) = length (db_executions d)"
proof -
  have "\<forall>i\<in>set (map ex_id (db_executions d)). i \<noteq> ex_id e"
    using assms by (auto simp: execution_exists_def list_ex_iff)
  then have "takeWhile (\<lambda>i. i \<noteq> ex_id e) (map ex_id (db_executions d)) = map ex_id (db_executions d)"
    by (simp only: takeWhile_eq_all_conv)
  then show ?thesis by (simp add: position_def takeWhile_append)
qed

lemma insert_execution_progress:
  assumes "insert_execution env e d = Inr d'" and "progress ov X Y d0 d"
  shows "progress (ov(ex_id e \<mapsto> 1)) X Y d0 d'" and "find_execution d' (ex_id e) = Some e"
    and "db_tasks d' = db_tasks d" and "db_history d' = db_history d"
    and "\<And>w r. find_execution d w = Some r \<Longrightarrow> find_execution d' w = Some r"
proof -
  have ok: "store_ok ov X Y d" and app: "only_appends d0 d"
    using assms(2) by (simp_all add: progress_def)
  have d': "d' = d\<lparr>db_executions := db_executions d @ [e]\<rparr>" and new: "\<not> execution_exists d (ex_id e)"
    and chk: "execution_check e" and par: "opt_exists (execution_exists d) (ex_parent_workflow_id e)"
    using assms(1) by (auto simp: insert_execution_def res_simps)
  have find: "find_execution d' w = (case find_execution d w of Some r \<Rightarrow> Some r
      | None \<Rightarrow> if ex_id e = w then Some e else None)" for w
    by (simp add: d' find_execution_append)
  show "find_execution d' (ex_id e) = Some e"
    using new by (simp add: find split: option.split) (metis find_execution_None option.distinct(1))
  show "\<And>w r. find_execution d w = Some r \<Longrightarrow> find_execution d' w = Some r"
    by (simp add: find)
  show "db_tasks d' = db_tasks d" "db_history d' = db_history d" by (simp_all add: d')
  have exists: "execution_exists d' w \<longleftrightarrow> execution_exists d w \<or> w = ex_id e" for w
    by (auto simp: execution_exists_iff d')
  have not_new: "ex_id r \<noteq> ex_id e" if "r \<in> set (db_executions d)" for r
    using new that by (auto simp: execution_exists_def list_ex_iff)
  have no_history: "workflow_history d (ex_id e) = []"
    using ok new by (auto simp: store_ok_def workflow_history_def filter_empty_conv)
  have no_task: "tk_workflow_id t \<noteq> ex_id e" if "t \<in> set (db_tasks d)" for t
    using ok new that by (auto simp: store_ok_def)
  have "parents_first d'"
    unfolding parents_first_def
  proof (intro ballI allI impI)
    fix r p assume r: "r \<in> set (db_executions d')" and p: "ex_parent_workflow_id r = Some p"
    have pd: "execution_exists d p" and less: "r \<in> set (db_executions d) \<Longrightarrow> position d p < position d (ex_id r)"
      using r p ok par by (auto simp: d' store_ok_def parents_first_def opt_exists_def)
    show "execution_exists d' p \<and> position d' p < position d' (ex_id r)"
    proof (cases "r \<in> set (db_executions d)")
      case True
      then have "execution_exists d (ex_id r)" by (auto simp: execution_exists_iff)
      then show ?thesis
        using pd less True position_append[of d _ "[e]"] exists by (simp add: d')
    next
      case False
      with r have "r = e" by (simp add: d')
      with pd position_less[OF pd] position_new[OF new] position_append[OF pd, of "[e]"] exists
      show ?thesis by (simp add: d')
    qed
  qed
  then have "store_ok (ov(ex_id e \<mapsto> 1)) X Y d'"
    using ok chk new not_new no_history no_task exists
    by (auto simp: store_ok_def d' cursor_def execution_exists_iff)
  moreover have "only_appends d d'"
    using \<open>\<And>w r. find_execution d w = Some r \<Longrightarrow> find_execution d' w = Some r\<close>
    by (auto simp: only_appends_def d')
  ultimately show "progress (ov(ex_id e \<mapsto> 1)) X Y d0 d'"
    using app only_appends_trans by (auto simp: progress_def)
qed

lemma store_ok_closed:
  assumes "store_ok ov X Y d" and "e \<in> set (db_executions d)" and "t \<in> set (db_tasks d)"
    and "ex_status e \<noteq> WfRunning" and "tk_workflow_id t = ex_id e" and "open_task t"
  shows "ex_id e \<in> X \<or> tk_id t \<in> Y"
  using assms unfolding store_ok_def by blast

text \<open>Updating one execution; a change of status makes its tasks an exception until they are killed.\<close>

lemma update_execution_ids:
  "(\<And>e. ex_id (f e) = ex_id e) \<Longrightarrow>
    map ex_id (db_executions (update_execution w f d)) = map ex_id (db_executions d)"
  by (simp add: update_execution_def update_executions_def comp_def if_distrib cong: if_cong)

lemma find_update_execution:
  assumes "\<And>e. ex_id (f e) = ex_id e"
  shows "find_execution (update_execution w f d) v =
    (if v = w then map_option f (find_execution d v) else find_execution d v)"
  using find_execution_Some[of d v]
  by (cases "find_execution d v") (auto simp: update_execution_def find_execution_update assms)

lemma update_execution_frame [simp]:
  "db_tasks (update_execution w f d) = db_tasks d"
  "db_history (update_execution w f d) = db_history d"
  "db_updates (update_execution w f d) = db_updates d"
  "db_definitions (update_execution w f d) = db_definitions d"
  "db_audit (update_execution w f d) = db_audit d"
  "db_effects (update_execution w f d) = db_effects d"
  by (simp_all add: update_execution_def update_executions_def)

lemma update_execution_keeps:
  assumes "progress ov X Y d0 d" and "find_execution d w = Some r" and "execution_le r (f r)"
    and same: "\<And>e. same_identity e (f e)" and "execution_check (f r)"
    and "ex_next_seq (f r) = cursor ov r"
    and "ex_status r = WfRunning \<Longrightarrow> ex_status (f r) \<noteq> WfRunning \<Longrightarrow> w \<in> X"
  shows "progress (ov(w := None)) X Y d0 (update_execution w f d)" (is "progress ?ov X Y d0 ?d")
proof -
  have ok: "store_ok ov X Y d" and app: "only_appends d0 d"
    using assms(1) by (simp_all add: progress_def)
  have id: "ex_id (f e) = ex_id e" and par: "ex_parent_workflow_id (f e) = ex_parent_workflow_id e" for e
    using same by (simp_all add: same_identity_def)
  have exs: "set (db_executions ?d) = (\<lambda>e. if ex_id e = w then f e else e) ` set (db_executions d)"
    by (auto simp: update_execution_def update_executions_def)
  have r: "e = r" if "e \<in> set (db_executions d)" "ex_id e = w" for e
    using find_executionI[OF ok that(1)] assms(2) that(2) by simp
  have rw: "ex_id r = w" using find_execution_Some[OF assms(2)] by simp
  have exists: "execution_exists ?d v = execution_exists d v" for v
    using update_execution_ids[of f w d, OF id] unfolding execution_exists_iff
    by (metis image_set)
  have pos: "position ?d v = position d v" for v
    by (simp only: position_def update_execution_ids[of f w d, OF id])
  have hist: "workflow_history ?d v = workflow_history d v" for v
    by (simp add: workflow_history_def)
  have "parents_first ?d"
    using ok by (auto simp: parents_first_def store_ok_def exists pos exs id par split: if_splits)
  moreover have "1 \<le> cursor ?ov e \<and> map hr_seq (workflow_history d (ex_id e)) = [1..cursor ?ov e - 1]"
    if e: "e \<in> set (db_executions ?d)" for e
  proof -
    obtain e0 where e0: "e0 \<in> set (db_executions d)" "e = (if ex_id e0 = w then f e0 else e0)"
      using e unfolding exs by blast
    then have old: "1 \<le> cursor ov e0 \<and> map hr_seq (workflow_history d (ex_id e0)) = [1..cursor ov e0 - 1]"
      using ok by (auto simp: store_ok_def)
    show ?thesis
    proof (cases "ex_id e0 = w")
      case True
      with r[OF e0(1)] have "e0 = r" by simp
      with old e0(2) assms(6) rw id show ?thesis by (simp add: cursor_def)
    next
      case False
      with old e0(2) show ?thesis by (simp add: cursor_def)
    qed
  qed
  moreover have "execution_check e" if "e \<in> set (db_executions ?d)" for e
    using that ok exs r assms(5) by (auto simp: store_ok_def split: if_splits)
  moreover have "ex_id e \<in> X \<or> tk_id t \<in> Y"
    if e: "e \<in> set (db_executions ?d)" and "t \<in> set (db_tasks d)" "ex_status e \<noteq> WfRunning"
      "tk_workflow_id t = ex_id e" "open_task t" for e t
  proof -
    obtain e0 where e0: "e0 \<in> set (db_executions d)" "e = (if ex_id e0 = w then f e0 else e0)"
      using e unfolding exs by blast
    show ?thesis
    proof (cases "ex_id e0 = w")
      case True
      with r[OF e0(1)] have e: "e0 = r" "e = f r" using e0(2) by simp_all
      show ?thesis
      proof (cases "ex_status r = WfRunning")
        case True
        with e \<open>ex_status e \<noteq> WfRunning\<close> assms(7) rw id show ?thesis by simp
      next
        case False
        with e store_ok_closed[OF ok e0(1) that(2)] that id show ?thesis by simp
      qed
    next
      case False
      with e0 that ok show ?thesis by (auto simp: store_ok_def)
    qed
  qed
  ultimately have "store_ok ?ov X Y ?d"
    using ok by (simp add: store_ok_def update_execution_ids[of f w d, OF id] exists hist)
  moreover have "only_appends d ?d"
  proof -
    have "\<exists>e'. find_execution ?d v = Some e' \<and> execution_le e e'" if "find_execution d v = Some e" for v e
    proof (cases "v = w")
      case True
      with that assms(2) have "e = r" by simp
      with True that assms(3) show ?thesis
        by (simp add: find_update_execution[of f, OF id])
    next
      case False
      with that show ?thesis by (simp add: find_update_execution[of f, OF id])
    qed
    then show ?thesis by (auto simp: only_appends_def)
  qed
  ultimately show ?thesis using app only_appends_trans by (auto simp: progress_def)
qed

lemma update_execution_progress:
  assumes "progress ov X Y d0 d" and "find_execution d w = Some r" and "ex_status r = WfRunning"
    and "\<And>e. same_identity e (f e)" and "execution_check (f r)"
    and "ex_next_seq (f r) = cursor ov r"
    and "ex_status (f r) \<noteq> WfRunning \<Longrightarrow> w \<in> X"
  shows "progress (ov(w := None)) X Y d0 (update_execution w f d)"
  by (rule update_execution_keeps[OF assms(1,2) _ assms(4-6)]) (use assms in \<open>auto simp: execution_le_def\<close>)

lemma update_tasks_frame [simp]:
  "db_executions (update_tasks p f d) = db_executions d"
  "db_history (update_tasks p f d) = db_history d"
  "db_updates (update_tasks p f d) = db_updates d"
  "db_definitions (update_tasks p f d) = db_definitions d"
  "db_audit (update_tasks p f d) = db_audit d"
  "db_effects (update_tasks p f d) = db_effects d"
  "find_execution (update_tasks p f d) = find_execution d"
  "running (update_tasks p f d) = running d"
  by (simp_all add: update_tasks_def fun_eq_iff)

text \<open>
  Updating tasks: only open rows are updated and the new rows pass the checks. Tasks that the
  statement closes may leave the exceptions.
\<close>

lemma update_tasks_progress:
  assumes "progress ov X Y d0 d"
    and ident: "\<And>t. task_identity (f t) = task_identity t"
    and "\<And>t. t \<in> set (db_tasks d) \<Longrightarrow> p t \<Longrightarrow> task_check t \<Longrightarrow> task_check (f t)"
    and "\<And>t. t \<in> set (db_tasks d) \<Longrightarrow> p t \<Longrightarrow> open_task t"
    and "\<And>t. t \<in> set (db_tasks d) \<Longrightarrow> open_task t \<Longrightarrow> \<not> (p t \<and> \<not> open_task (f t)) \<Longrightarrow>
      tk_workflow_id t \<in> X \<or> tk_id t \<in> Y \<Longrightarrow> tk_workflow_id t \<in> X' \<or> tk_id t \<in> Y'"
  shows "progress ov X' Y' d0 (update_tasks p f d)" (is "progress _ _ _ _ ?d")
proof -
  have ok: "store_ok ov X Y d" and app: "only_appends d0 d"
    using assms(1) by (simp_all add: progress_def)
  have same_row: "tk_id (f t) = tk_id t \<and> tk_workflow_id (f t) = tk_workflow_id t" for t
    using ident[of t] by (simp add: task_identity_def)
  have ts: "set (db_tasks ?d) = (\<lambda>t. if p t then f t else t) ` set (db_tasks d)"
    by (auto simp: update_tasks_def)
  have tid: "map tk_id (db_tasks ?d) = map tk_id (db_tasks d)"
    using same_row by (auto simp: update_tasks_def)
  have rows: "execution_exists d (tk_workflow_id t)" "task_check t" if t: "t \<in> set (db_tasks ?d)" for t
  proof -
    obtain t0 where "t0 \<in> set (db_tasks d)" "t = (if p t0 then f t0 else t0)"
      using t unfolding ts by blast
    with ok same_row assms(3) show "execution_exists d (tk_workflow_id t)" "task_check t"
      by (auto simp: store_ok_def)
  qed
  have closed: "ex_id e \<in> X' \<or> tk_id t \<in> Y'"
    if e: "e \<in> set (db_executions d)" "ex_status e \<noteq> WfRunning" and t: "t \<in> set (db_tasks ?d)"
      "tk_workflow_id t = ex_id e" "open_task t" for e t
  proof -
    obtain t0 where t0: "t0 \<in> set (db_tasks d)" "t = (if p t0 then f t0 else t0)"
      using t(1) unfolding ts by blast
    then have same: "tk_workflow_id t0 = ex_id e" "tk_id t0 = tk_id t" "open_task t0"
      "\<not> (p t0 \<and> \<not> open_task (f t0))"
      using same_row assms(4) t(2,3) by (auto split: if_splits)
    then have "tk_workflow_id t0 \<in> X \<or> tk_id t0 \<in> Y"
      using store_ok_closed[OF ok e(1) t0(1) e(2)] by simp
    from assms(5)[OF t0(1) same(3,4) this] same show ?thesis by simp
  qed
  have wh: "workflow_history ?d w = workflow_history d w" "execution_exists ?d w = execution_exists d w"
    "position ?d w = position d w" for w
    by (simp_all add: workflow_history_def execution_exists_def position_def)
  have "store_ok ov X' Y' ?d"
    using ok closed rows tid by (simp add: store_ok_def wh parents_first_def)
  moreover have "only_appends d ?d"
  proof -
  have "t \<in> set (db_tasks ?d)" if "t \<in> set (db_tasks d)" "\<not> open_task t" for t
    using assms(4)[OF that(1)] that by (auto simp: update_tasks_def image_iff intro!: bexI[of _ t])
  moreover have "task_identity t \<in> task_identity ` set (db_tasks ?d)" if "t \<in> set (db_tasks d)" for t
    using that ident unfolding ts image_image by (intro rev_image_eqI[OF that]) simp
  ultimately show ?thesis by (auto simp: only_appends_def)
  qed
  ultimately show ?thesis using app only_appends_trans by (auto simp: progress_def)
qed

lemma finish_task_check:
  "task_check t \<Longrightarrow> s \<in> {TkCompleted, TkDead} \<Longrightarrow> task_check (finish_task x s t)"
  by (auto simp: task_check_def finish_task_def)

lemma finish_task_simps [simp]:
  "tk_id (finish_task x s t) = tk_id t" "tk_workflow_id (finish_task x s t) = tk_workflow_id t"
  "tk_status (finish_task x s t) = s"
  "open_task (finish_task x TkDead t) = False" "open_task (finish_task x TkCompleted t) = False"
  by (simp_all add: finish_task_def open_task_def)

lemma finish_tasks_progress:
  assumes "progress ov X Y d0 d" and "s \<in> {TkCompleted, TkDead}"
    and "\<And>t. t \<in> set (db_tasks d) \<Longrightarrow> p t \<Longrightarrow> open_task t"
    and "\<And>t. t \<in> set (db_tasks d) \<Longrightarrow> open_task t \<Longrightarrow> \<not> p t \<Longrightarrow>
      tk_workflow_id t \<in> X \<or> tk_id t \<in> Y \<Longrightarrow> tk_workflow_id t \<in> X' \<or> tk_id t \<in> Y'"
  shows "progress ov X' Y' d0 (update_tasks p (finish_task x s) d)"
proof (rule update_tasks_progress[OF assms(1)])
  show "task_check (finish_task x s t)" if "task_check t" for t
    using finish_task_check that assms(2) .
  show "t \<in> set (db_tasks d) \<Longrightarrow> p t \<Longrightarrow> open_task t" for t
    by (rule assms(3))
  show "tk_workflow_id t \<in> X' \<or> tk_id t \<in> Y'"
    if "t \<in> set (db_tasks d)" "open_task t" "\<not> (p t \<and> \<not> open_task (finish_task x s t))"
      "tk_workflow_id t \<in> X \<or> tk_id t \<in> Y" for t
    using assms(2,4) that by auto
qed (simp add: task_identity_def finish_task_def)

lemma kill_tasks_progress:
  "progress ov (insert w X) Y d0 d \<Longrightarrow> progress ov X Y d0 (kill_tasks x w d)"
  unfolding kill_tasks_def by (erule finish_tasks_progress) auto

lemma kill_other_tasks_progress:
  "progress ov (insert w X) Y d0 d \<Longrightarrow> i \<in> Y \<Longrightarrow> progress ov X Y d0 (kill_other_tasks x w i d)"
  unfolding kill_other_tasks_def by (erule finish_tasks_progress) auto

lemma progress_weaken: "progress ov X Y d0 d \<Longrightarrow> X \<subseteq> X' \<Longrightarrow> Y \<subseteq> Y' \<Longrightarrow> progress ov X' Y' d0 d"
  unfolding progress_def store_ok_def by blast

lemma progress_frame:
  assumes "progress ov X Y d0 d" and "db_executions d' = db_executions d" and "db_history d' = db_history d"
    and "db_tasks d' = db_tasks d" and "\<exists>xs. db_definitions d' = db_definitions d @ xs"
    and "\<exists>xs. db_audit d' = db_audit d @ xs" and "\<exists>xs. db_effects d' = db_effects d @ xs"
  shows "progress ov X Y d0 d'"
proof -
  have "store_ok ov X Y d'"
    using assms(1-4) by (simp add: progress_def store_ok_def execution_exists_def workflow_history_def
        parents_first_def position_def)
  moreover have "only_appends d d'"
    using assms(2-) find_execution_cong[OF assms(2)] by (auto simp: only_appends_def)
  ultimately show ?thesis using assms(1) only_appends_trans by (auto simp: progress_def)
qed

lemma update_updates_progress:
  "progress ov X Y d0 d \<Longrightarrow> progress ov X Y d0 (update_updates p f d)"
  by (erule progress_frame) (simp_all add: update_updates_def)

lemma update_updates_frame [simp]:
  "db_executions (update_updates p f d) = db_executions d"
  "db_history (update_updates p f d) = db_history d"
  "db_tasks (update_updates p f d) = db_tasks d"
  "db_definitions (update_updates p f d) = db_definitions d"
  "find_execution (update_updates p f d) = find_execution d"
  by (simp_all add: update_updates_def fun_eq_iff)

lemma insert_update_progress:
  "insert_update u d = Inr d' \<Longrightarrow> progress ov X Y d0 d \<Longrightarrow> progress ov X Y d0 d'"
  by (rule progress_frame, assumption) (auto simp: insert_update_def res_simps)

lemma insert_update_frame:
  assumes "insert_update u d = Inr d'"
  shows "db_executions d' = db_executions d" and "db_history d' = db_history d"
    and "db_tasks d' = db_tasks d" and "db_updates d' = db_updates d @ [u]"
  using assms by (auto simp: insert_update_def res_simps)

lemma record_api_audit_frame:
  assumes "record_api_audit x a w acc det d = Inr d'"
  shows "db_executions d' = db_executions d" and "db_history d' = db_history d"
    and "db_tasks d' = db_tasks d" and "db_definitions d' = db_definitions d"
    and "db_updates d' = db_updates d" and "db_effects d' = db_effects d"
    and "\<exists>xs. db_audit d' = db_audit d @ xs"
  using assms by (auto simp: record_api_audit_def res_simps split: option.splits)

lemma record_api_audit_progress:
  "record_api_audit x a w acc det d = Inr d' \<Longrightarrow> progress ov X Y d0 d \<Longrightarrow> progress ov X Y d0 d'"
  by (rule progress_frame, assumption) (auto dest: record_api_audit_frame)

lemma set_next_seq_progress:
  assumes "progress ov X Y d0 d" and "find_execution d w = Some r" and "ex_status r = WfRunning"
    and "cursor ov r = n"
  shows "progress (ov(w := None)) X Y d0 (set_next_seq w n d)"
proof -
  have "store_ok ov X Y d" using assms(1) by (simp add: progress_def)
  then have "1 \<le> n" and "execution_check r"
    using find_execution_Some[OF assms(2)] assms(4) by (auto simp: store_ok_def)
  then show ?thesis
    unfolding set_next_seq_def using assms
    by (intro update_execution_progress) (auto simp: same_identity_def execution_check_def)
qed

section \<open>Attributes of events\<close>

lemma map_of_jsonb_object:
  assumes "distinct (map fst attrs)"
  shows "map_of (jsonb_object attrs) k = map_option clone_json (map_of attrs k)"
proof -
  let ?l = "map (map_prod id clone_json) attrs"
  have "map fst ?l = map fst attrs" by simp
  then have d: "distinct (map fst ?l)" using assms by (simp only:)
  then have "distinct (map fst (sort_key fst ?l))" by (simp only: distinct_map distinct_sort set_sort)
  then have "map_of (sort_key fst ?l) = map_of ?l" using d by (subst map_of_inject_set) auto
  then show ?thesis by (simp add: jsonb_object_def map_of_map map_prod_def)
qed

lemma dget_jsonb_object:
  assumes "distinct (map fst attrs)"
  shows "dget (jsonb_object attrs) k = (case map_of attrs k of None \<Rightarrow> JNull | Some v \<Rightarrow> clone_json v)"
    and "dget_or (jsonb_object attrs) k u = (case map_of attrs k of None \<Rightarrow> u | Some v \<Rightarrow> clone_json v)"
  by (simp_all add: dget_def dget_or_def map_of_jsonb_object[OF assms] split: option.splits)

end
