(* ===== verification/Commit.thy ===== *)
theory Commit
  imports Transitions
begin

text \<open>
  \<^verbatim>\<open>engine/persistence/transitions.py\<close>, the transitions of task owners: loading the history for a
  leased workflow task, committing the result of a replay, and completing or failing an activity
  attempt.
\<close>

section \<open>Workflow tasks\<close>

record workflow_replay_state =
  rs_workflow_id :: uuid
  rs_workflow_type :: string
  rs_definition_version :: int
  rs_workflow_input :: json
  rs_history :: "history_event list"

text \<open>
  The three reads are not made in one transaction: they see the databases \<open>d\<close>, \<open>d1\<close> and \<open>d2\<close>, between which
  others may commit.
\<close>

definition load_workflow_replay_state ::
  "tx \<Rightarrow> leased_task \<Rightarrow> db \<Rightarrow> db \<Rightarrow> db \<Rightarrow> db_error + workflow_replay_state" where
  "load_workflow_replay_state x task d d1 d2 =
     (if lt_task_type task \<noteq> WorkflowTask
      then Inl (BadValue ''replay state can only be loaded for workflow tasks'')
      else if \<not> list_ex (holds_lease x (lt_id task) (lt_lease_token task)) (db_tasks d)
      then Inl (StaleLeaseError (lt_id task))
      else
        case find_execution d1 (lt_workflow_id task) of
          None \<Rightarrow> Inl (TransitionError ''workflow does not exist'')
        | Some e \<Rightarrow>
            if ex_status e \<noteq> WfRunning
            then Inl (TerminalWorkflowError (lt_workflow_id task) (ex_status e))
            else
              Inr \<lparr>rs_workflow_id = lt_workflow_id task, rs_workflow_type = ex_workflow_type e,
                   rs_definition_version = ex_definition_version e,
                   rs_workflow_input = ex_input e,
                   rs_history = map history_event_from_row
                     (sort_key hr_seq (workflow_history d2 (lt_workflow_id task)))\<rparr>)"

subsection \<open>Appending commands\<close>

definition append_activity_command ::
  "pyenv \<Rightarrow> tx \<Rightarrow> uuid \<Rightarrow> uuid \<Rightarrow> int \<Rightarrow> schedule_activity \<Rightarrow> string \<Rightarrow> db \<Rightarrow> db_error + db" where
  "append_activity_command env x task_id w seq c queue_name d =
     bindR (insert_event x w seq ActivityScheduled (Some (sa_command_id c)) (Some (sa_entity_id c))
              None
              [(''activity_type'', JStr (sa_activity_type c)),
               (''fingerprint'', JStr (sa_fingerprint c)),
               (''input'', JObj (sa_input c)),
               (''retry_policy'', JObj (sa_retry_policy c)),
               (''schedule_to_start_seconds'', opt_json JFloat (sa_schedule_to_start_seconds c)),
               (''start_to_close_seconds'', opt_json JFloat (sa_start_to_close_seconds c)),
               (''heartbeat_timeout_seconds'', opt_json JFloat (sa_heartbeat_timeout_seconds c)),
               (''idempotency_key'', JStr (uuid_str (sa_entity_id c)))] d)
       (insert_task
         ((workflow_task x task_id w queue_name)
            \<lparr>tk_task_type := ActivityTask, tk_entity_id := Some (sa_entity_id c),
             tk_command_id := Some (sa_command_id c),
             tk_input := Some (clone_json (JObj
               [(''activity_type'', JStr (sa_activity_type c)),
                (''input'', JObj (sa_input c)),
                (''idempotency_key'', JStr (uuid_str (sa_entity_id c))),
                (''retry_policy'', JObj (sa_retry_policy c))])),
             tk_schedule_to_start_deadline :=
               map_option (\<lambda>s. tx_now x + pg_seconds env s) (sa_schedule_to_start_seconds c),
             tk_schedule_to_start_timeout :=
               map_option (pg_seconds env) (sa_schedule_to_start_seconds c),
             tk_start_to_close_timeout := map_option (pg_seconds env) (sa_start_to_close_seconds c),
             tk_heartbeat_timeout := map_option (pg_seconds env) (sa_heartbeat_timeout_seconds c)\<rparr>))"

definition append_timer_command ::
  "pyenv \<Rightarrow> tx \<Rightarrow> uuid \<Rightarrow> uuid \<Rightarrow> int \<Rightarrow> schedule_timer \<Rightarrow> string \<Rightarrow> db \<Rightarrow> db_error + db" where
  "append_timer_command env x task_id w seq c queue_name d =
     bindR (insert_event x w seq TimerStarted (Some (st_command_id c)) (Some (st_entity_id c)) None
              [(''delay_seconds'', JFloat (st_delay_seconds c)),
               (''fingerprint'', JStr (st_fingerprint c)),
               (''purpose'', JStr (st_purpose c)),
               (''signal_name'', opt_json JStr (st_signal_name c))] d)
       (insert_task
         ((workflow_task x task_id w queue_name)
            \<lparr>tk_task_type := TimerTask, tk_entity_id := Some (st_entity_id c),
             tk_command_id := Some (st_command_id c),
             tk_input := Some (clone_json (JObj
               [(''delay_seconds'', JFloat (st_delay_seconds c)),
                (''purpose'', JStr (st_purpose c)),
                (''signal_name'', opt_json JStr (st_signal_name c))])),
             tk_visible_at := tx_now x + pg_seconds env (st_delay_seconds c)\<rparr>))"

definition append_marker_command ::
  "tx \<Rightarrow> uuid \<Rightarrow> int \<Rightarrow> record_marker \<Rightarrow> db \<Rightarrow> db_error + db" where
  "append_marker_command x w seq c =
     insert_event x w seq MarkerRecorded (Some (rm_command_id c)) None None
       [(''marker_type'', JStr (rm_marker_type c)), (''value'', rm_value c),
        (''fingerprint'', JStr (rm_fingerprint c))]"

definition append_update_resolution ::
  "tx \<Rightarrow> uuid \<Rightarrow> int \<Rightarrow> resolve_workflow_update \<Rightarrow> db \<Rightarrow> db_error + db" where
  "append_update_resolution x w seq c d =
     (let hit = (\<lambda>u. up_workflow_id u = w \<and> up_update_id u = ru_update_id c \<and> up_status u = UpPending)
      in case List.find hit (db_updates d) of
           None \<Rightarrow> Inl (TransitionError ''workflow update is missing or already resolved'')
         | Some updated \<Rightarrow>
             insert_event x w seq WorkflowUpdateResolved (Some (ru_command_id c)) None
               (Some (''update-result:'' @ ru_update_id c))
               [(''update_id'', JStr (ru_update_id c)), (''name'', JStr (up_name updated)),
                (''accepted'', JBool (ru_accepted c)), (''outcome'', ru_outcome c),
                (''fingerprint'', JStr (ru_fingerprint c))]
               (update_updates hit
                 (\<lambda>u. u\<lparr>up_status := (if ru_accepted c then UpCompleted else UpRejected),
                        up_result := (if ru_accepted c then Some (clone_json (ru_outcome c)) else None),
                        up_failure := (if ru_accepted c then None else Some (clone_json (ru_outcome c))),
                        up_completed_at := Some (tx_now x)\<rparr>) d))"

text \<open>\<^verbatim>\<open>command.queue_name or parent_queue_name\<close>: an empty name counts as none.\<close>

definition queue_or :: "string option \<Rightarrow> string \<Rightarrow> string" where
  "queue_or q dflt = (case q of Some (c # cs) \<Rightarrow> c # cs | _ \<Rightarrow> dflt)"

definition append_child_workflow_command ::
  "pyenv \<Rightarrow> tx \<Rightarrow> uuid \<Rightarrow> timestamp \<Rightarrow> uuid \<Rightarrow> int \<Rightarrow> start_child_workflow \<Rightarrow> string \<Rightarrow> db
    \<Rightarrow> db_error + db" where
  "append_child_workflow_command env x task_id started_at w seq c parent_queue_name d =
     (let child_queue = queue_or (sc_queue_name c) parent_queue_name;
          child_attributes =
            [(''dwe.parent_workflow_id'', JStr (uuid_str w)),
             (''dwe.parent_command_id'', JInt (sc_command_id c))]
      in if \<not> definition_exists d (sc_workflow_type c) (sc_definition_version c)
         then Inl (DefinitionNotRegisteredError (sc_workflow_type c) (sc_definition_version c))
         else
           bindR (insert_event x w seq ChildWorkflowStarted (Some (sc_command_id c))
                    (Some (sc_child_workflow_id c)) None
                    [(''workflow_type'', JStr (sc_workflow_type c)),
                     (''definition_version'', JInt (sc_definition_version c)),
                     (''input'', sc_input c), (''queue_name'', JStr child_queue),
                     (''parent_close_policy'', JStr (sc_parent_close_policy c)),
                     (''fingerprint'', JStr (sc_fingerprint c))] d)
             (create_execution env x task_id
               ((new_execution (sc_child_workflow_id c) (sc_workflow_type c)
                   (sc_definition_version c) (sc_input c) child_queue started_at child_attributes)
                  \<lparr>ex_parent_workflow_id := Some w,
                   ex_parent_command_id := Some (sc_command_id c),
                   ex_parent_close_policy := Some (sc_parent_close_policy c)\<rparr>)
               [(''workflow_type'', JStr (sc_workflow_type c)),
                (''definition_version'', JInt (sc_definition_version c)),
                (''input'', sc_input c), (''search_attributes'', JObj child_attributes),
                (''started_at'', JStr (py_isoformat env started_at)),
                (''parent_workflow_id'', JStr (uuid_str w)),
                (''parent_command_id'', JInt (sc_command_id c))]))"

text \<open>
  The body of the loop over the commands of a replay. The state carries \<^verbatim>\<open>next_seq\<close>; the \<open>i\<close>-th
  command takes the \<open>i\<close>-th value of \<^verbatim>\<open>uuid4()\<close> and of the clock. A continuation never reaches
  the loop; the body would then only advance the sequence number.
\<close>

definition append_command ::
  "pyenv \<Rightarrow> tx \<Rightarrow> uuid \<Rightarrow> string \<Rightarrow> nat \<times> command \<Rightarrow> db \<times> int \<Rightarrow> db_error + db \<times> int" where
  "append_command env x w queue_name ic s =
     (let (i, c) = ic; (d, next_seq) = s
      in bindR
           (case c of
              ScheduleActivity a \<Rightarrow>
                append_activity_command env x (tx_uuid x i) w next_seq a queue_name d
            | ScheduleTimer t \<Rightarrow> append_timer_command env x (tx_uuid x i) w next_seq t queue_name d
            | RecordMarker m \<Rightarrow> append_marker_command x w next_seq m d
            | StartChildWorkflow b \<Rightarrow>
                append_child_workflow_command env x (tx_uuid x i) (tx_clock x i) w next_seq b
                  queue_name d
            | ResolveWorkflowUpdate u \<Rightarrow> append_update_resolution x w next_seq u d
            | ContinueAsNew n \<Rightarrow> Inr d)
           (\<lambda>d. Inr (d, next_seq + 1)))"

fun is_continuation :: "command \<Rightarrow> bool" where
  "is_continuation (ContinueAsNew c) = True"
| "is_continuation _ = False"

fun records_marker :: "command \<Rightarrow> bool" where
  "records_marker (RecordMarker m) = True"
| "records_marker (ResolveWorkflowUpdate u) = True"
| "records_marker _ = False"

definition append_commands ::
  "pyenv \<Rightarrow> tx \<Rightarrow> uuid \<Rightarrow> string \<Rightarrow> int \<Rightarrow> command list \<Rightarrow> db \<Rightarrow> db_error + db" where
  "append_commands env x w queue_name next_seq commands d =
     bindR (foldR (append_command env x w queue_name) (List.enumerate 0 commands) (d, next_seq))
       (\<lambda>(d, next_seq).
     bindR (if list_ex records_marker commands
            then insert_workflow_task x (tx_uuid x (length commands)) w queue_name d else Inr d)
       (\<lambda>d. Inr (set_next_seq w next_seq d)))"

subsection \<open>Continue as new\<close>

definition commit_continue_as_new ::
  "pyenv \<Rightarrow> tx \<Rightarrow> uuid \<Rightarrow> uuid \<Rightarrow> int \<Rightarrow> continue_as_new_command \<Rightarrow> db \<Rightarrow> db_error + db" where
  "commit_continue_as_new env x w current_task_id seq c d =
     (case find_execution d w of
        None \<Rightarrow> Inl (TransitionError ''workflow does not exist'')
      | Some current \<Rightarrow>
          if ex_workflow_type current \<noteq> cn_workflow_type c
          then Inl (TransitionError ''continue-as-new must retain the workflow type'')
          else if ex_parent_workflow_id current \<noteq> None
          then Inl (TransitionError ''continue-as-new is not supported inside child workflows'')
          else if \<not> definition_exists d (cn_workflow_type c) (cn_definition_version c)
          then Inl (DefinitionNotRegisteredError (cn_workflow_type c) (cn_definition_version c))
          else
            let continuation_attributes = dict_merge (ex_search_attributes current)
                  [(''dwe.continued_from'', JStr (uuid_str w))];
                queue_name = queue_or (cn_queue_name c) (ex_queue_name current);
                started_at = tx_clock x 0;
                result = JObj [(''continued_to'', JStr (uuid_str (cn_new_workflow_id c)))]
            in bindR (insert_event x w seq WorkflowExecutionContinuedAsNew
                        (Some (cn_command_id c)) (Some (cn_new_workflow_id c)) None
                        [(''workflow_type'', JStr (cn_workflow_type c)),
                         (''definition_version'', JInt (cn_definition_version c)),
                         (''input'', cn_input c), (''queue_name'', JStr queue_name),
                         (''fingerprint'', JStr (cn_fingerprint c))] d) (\<lambda>d.
               bindR (insert_event x w (seq + 1) WorkflowExecutionCompleted None None None
                        [(''result'', result), (''cause'', JStr ''continue_as_new'')] d) (\<lambda>d.
               bindR (create_execution env x (tx_uuid x 0)
                        ((new_execution (cn_new_workflow_id c) (cn_workflow_type c)
                            (cn_definition_version c) (cn_input c) queue_name started_at
                            continuation_attributes)
                           \<lparr>ex_continued_from := Some w, ex_schedule_id := ex_schedule_id current,
                            ex_scheduled_at := ex_scheduled_at current\<rparr>)
                        [(''workflow_type'', JStr (cn_workflow_type c)),
                         (''definition_version'', JInt (cn_definition_version c)),
                         (''input'', cn_input c),
                         (''search_attributes'', JObj continuation_attributes),
                         (''started_at'', JStr (py_isoformat env started_at)),
                         (''continued_from'', JStr (uuid_str w))] d) (\<lambda>d.
               bindR (check_all
                        [(''one_continuation_target'',
                           list_all (\<lambda>r. ex_continued_to r \<noteq> Some (cn_new_workflow_id c))
                             (db_executions d))]
                        (update_execution w
                          (\<lambda>e. e\<lparr>ex_status := WfCompleted, ex_result := Some result,
                                 ex_next_seq := seq + 2, ex_closed_at := Some (tx_now x),
                                 ex_continued_to := Some (cn_new_workflow_id c)\<rparr>) d)) (\<lambda>d.
               Inr (kill_other_tasks x w current_task_id
                     (reject_pending_updates x w ''workflow continued as new'' d)))))))"

subsection \<open>Committing a replay\<close>

text \<open>The branch for a workflow whose cancellation has been requested.\<close>

definition commit_cancellation ::
  "nat \<Rightarrow> tx \<Rightarrow> leased_task \<Rightarrow> execution_row \<Rightarrow> db \<Rightarrow> db_error + db" where
  "commit_cancellation depth x task e d =
     (let w = lt_workflow_id task
      in bindR (cancel_pending_timers x w (ex_next_seq e) ''workflow cancellation requested'' d)
           (\<lambda>(d, next_seq).
         bindR (terminate_descendants depth x w d) (\<lambda>d.
         bindR (insert_event x w next_seq WorkflowExecutionTerminated None None None
                  [(''reason'', reason_json (ex_cancellation_reason e)),
                   (''cause'', JStr ''cancellation'')]
                  (reject_pending_updates x w ''workflow cancelled'' d)) (\<lambda>d.
         notify_parent_of_child_terminal x (tx_uuid x 0) w (ex_parent_workflow_id e) WfTerminated
           (JObj [(''reason'', reason_json (ex_cancellation_reason e))])
           (kill_other_tasks x w (lt_id task)
             (update_execution w
               (\<lambda>e. e\<lparr>ex_status := WfTerminated, ex_next_seq := next_seq + 1,
                      ex_closed_at := Some (tx_now x)\<rparr>) d))))))"

text \<open>The branch for new commands.\<close>

definition commit_commands ::
  "pyenv \<Rightarrow> nat \<Rightarrow> tx \<Rightarrow> leased_task \<Rightarrow> string \<Rightarrow> execution_row \<Rightarrow> command list \<Rightarrow> db
    \<Rightarrow> db_error + db" where
  "commit_commands env depth x task queue_name e commands d =
     (if commands = [] then Inl (TransitionError ''commands replay result contains no commands'')
      else
        case filter is_continuation commands of
          [] \<Rightarrow> append_commands env x (lt_workflow_id task) queue_name (ex_next_seq e) commands d
        | first # rest \<Rightarrow>
            if length commands \<noteq> 1
            then Inl (TransitionError ''continue-as-new must be the only emitted command'')
            else
              bindR (terminate_descendants depth x (lt_workflow_id task) d) (\<lambda>d.
              case first of
                ContinueAsNew c \<Rightarrow>
                  commit_continue_as_new env x (lt_workflow_id task) (lt_id task) (ex_next_seq e) c d
              | _ \<Rightarrow> Inr d))"

text \<open>The branch for a workflow function that has returned or raised.\<close>

definition commit_close ::
  "nat \<Rightarrow> tx \<Rightarrow> leased_task \<Rightarrow> execution_row \<Rightarrow> bool \<Rightarrow> json \<Rightarrow> db \<Rightarrow> db_error + db" where
  "commit_close depth x task e completed payload d =
     (let w = lt_workflow_id task
      in bindR (terminate_descendants depth x w d) (\<lambda>d.
         bindR (cancel_pending_timers x w (ex_next_seq e) ''workflow closed''
                  (reject_pending_updates x w ''workflow closed'' d)) (\<lambda>(d, next_seq).
         bindR (insert_event x w next_seq
                  (if completed then WorkflowExecutionCompleted else WorkflowExecutionFailed)
                  None None None [(if completed then ''result'' else ''failure'', payload)] d) (\<lambda>d.
         notify_parent_of_child_terminal x (tx_uuid x 0) w (ex_parent_workflow_id e)
           (if completed then WfCompleted else WfFailed) payload
           (kill_other_tasks x w (lt_id task)
             (update_execution w
               (\<lambda>e. e\<lparr>ex_status := (if completed then WfCompleted else WfFailed),
                      ex_result := (if completed then Some (clone_json payload) else None),
                      ex_failure := (if completed then None else Some (clone_json payload)),
                      ex_next_seq := next_seq + 1, ex_closed_at := Some (tx_now x)\<rparr>) d))))))"

text \<open>
  The last statement of every task owner: \<^verbatim>\<open>update tasks set status = ... where id = $1 and status =
  'leased' and lease_token = $2\<close>, which must change exactly one row.
\<close>

definition owned :: "leased_task \<Rightarrow> task_row \<Rightarrow> bool" where
  "owned task t \<longleftrightarrow>
     tk_id t = lt_id task \<and> tk_status t = TkLeased \<and> tk_lease_token t = Some (lt_lease_token task)"

definition complete_task :: "tx \<Rightarrow> leased_task \<Rightarrow> db \<Rightarrow> db_error + db" where
  "complete_task x task d =
     (if length (filter (owned task) (db_tasks d)) \<noteq> 1 then Inl (StaleLeaseError (lt_id task))
      else Inr (update_tasks (owned task) (finish_task x TkCompleted) d))"

definition commit_workflow_replay ::
  "pyenv \<Rightarrow> nat \<Rightarrow> tx \<Rightarrow> leased_task \<Rightarrow> replay_result \<Rightarrow> unit txn" where
  "commit_workflow_replay env depth x task replay d =
     (if lt_task_type task \<noteq> WorkflowTask
      then Inl (BadValue ''only a workflow task can commit workflow replay'')
      else
        case List.find (holds_lease x (lt_id task) (lt_lease_token task)) (db_tasks d) of
          None \<Rightarrow> Inl (StaleLeaseError (lt_id task))
        | Some locked_task \<Rightarrow>
            case find_execution d (lt_workflow_id task) of
              None \<Rightarrow> Inl (TransitionError ''workflow does not exist'')
            | Some e \<Rightarrow>
                if ex_status e \<noteq> WfRunning
                then Inl (TerminalWorkflowError (lt_workflow_id task) (ex_status e))
                else
                  bindR
                    (if ex_cancellation_requested_at e \<noteq> None
                        \<and> rr_status replay \<in> {COMMANDS, BLOCKED}
                     then commit_cancellation depth x task e d
                     else
                       case rr_status replay of
                         COMMANDS \<Rightarrow>
                           commit_commands env depth x task (tk_queue_name locked_task) e
                             (rr_commands replay) d
                       | COMPLETED \<Rightarrow> commit_close depth x task e True (rr_result replay) d
                       | FAILED \<Rightarrow> commit_close depth x task e False (rr_failure replay) d
                       | BLOCKED \<Rightarrow> Inr d) (\<lambda>d.
                  bindR (complete_task x task d) (\<lambda>d. Inr (d, ()))))"

section \<open>Activity tasks\<close>

text \<open>The guard under which an attempt may still report: lease, deadline and heartbeat are live.\<close>

definition activity_live :: "tx \<Rightarrow> leased_task \<Rightarrow> task_row \<Rightarrow> bool" where
  "activity_live x task t \<longleftrightarrow>
     holds_lease x (lt_id task) (lt_lease_token task) t
     \<and> (case tk_start_to_close_deadline t of None \<Rightarrow> True | Some s \<Rightarrow> tx_now x < s)
     \<and> (case tk_heartbeat_timeout t of
          None \<Rightarrow> True
        | Some h \<Rightarrow> (case tk_heartbeat_at t of None \<Rightarrow> False | Some b \<Rightarrow> tx_now x < b + h))"

definition complete_activity :: "tx \<Rightarrow> leased_task \<Rightarrow> json \<Rightarrow> unit txn" where
  "complete_activity x task result d =
     (if lt_task_type task \<noteq> ActivityTask \<or> lt_entity_id task = None
      then Inl (BadValue ''only an activity task can complete an activity'')
      else
        case List.find (activity_live x task) (db_tasks d) of
          None \<Rightarrow> Inl (StaleLeaseError (lt_id task))
        | Some locked_task \<Rightarrow>
            case find_execution d (lt_workflow_id task) of
              None \<Rightarrow> Inl (TransitionError ''workflow does not exist'')
            | Some e \<Rightarrow>
                if ex_status e \<noteq> WfRunning
                then Inl (TerminalWorkflowError (lt_workflow_id task) (ex_status e))
                else
                  bindR (insert_event x (lt_workflow_id task) (ex_next_seq e) ActivityCompleted
                           None (lt_entity_id task) None
                           [(''result'', clone_json result),
                            (''attempt'', JInt (tk_attempt locked_task))] d) (\<lambda>d.
                  bindR (complete_task x task d) (\<lambda>d.
                  bindR (insert_workflow_task x (tx_uuid x 0) (lt_workflow_id task)
                           (tk_queue_name locked_task) d) (\<lambda>d.
                  Inr (set_next_seq (lt_workflow_id task) (ex_next_seq e + 1) d, ())))))"

subsection \<open>Retries\<close>

text \<open>
  \<^verbatim>\<open>float(...)\<close> on a number of the recorded retry policy. Text, which \<^verbatim>\<open>float\<close> would parse, and integers too
  large for a float do not occur there: \<^verbatim>\<open>RetryPolicy.to_json\<close> writes floats.
\<close>

fun json_float :: "pyenv \<Rightarrow> json \<Rightarrow> db_error + rat" where
  "json_float env (JInt n) = Inr (py_round env (of_int n))"
| "json_float env (JFloat q) = Inr q"
| "json_float env (JBool b) = Inr (if b then 1 else 0)"
| "json_float env _ = Inl (BadType ''retry policy value is not a number'')"

definition policy_float :: "pyenv \<Rightarrow> dict \<Rightarrow> string \<Rightarrow> db_error + rat" where
  "policy_float env policy k =
     (case map_of policy k of None \<Rightarrow> Inl (BadValue k) | Some v \<Rightarrow> json_float env v)"

text \<open>
  Full-jitter backoff. \<open>None\<close> as the value of \<^verbatim>\<open>cap\<close> is floating-point infinity: with a maximum
  interval it is cut to the maximum, otherwise \<^verbatim>\<open>timedelta\<close> refuses it.
\<close>

definition retry_delay :: "pyenv \<Rightarrow> dict \<Rightarrow> int \<Rightarrow> rat \<Rightarrow> db_error + interval" where
  "retry_delay env retry_policy failed_attempt random_value =
     (if \<not> (0 \<le> random_value \<and> random_value \<le> 1)
      then Inl (BadValue ''random_value must be between 0 and 1'')
      else
        bindR (policy_float env retry_policy ''initial_interval_seconds'') (\<lambda>initial.
        bindR (policy_float env retry_policy ''backoff_coefficient'') (\<lambda>coefficient.
        bindR (case dget retry_policy ''maximum_interval_seconds'' of
                 JNull \<Rightarrow> Inr None
               | v \<Rightarrow> bindR (json_float env v) (\<lambda>m. Inr (Some m))) (\<lambda>maximum.
        case py_pow env coefficient (failed_attempt - 1) of
          None \<Rightarrow> Inl Overflow
        | Some factor \<Rightarrow>
            let cap = (case (py_mul env initial factor, maximum) of
                         (c, None) \<Rightarrow> c
                       | (None, Some m) \<Rightarrow> Some m
                       | (Some c, Some m) \<Rightarrow> Some (min c m))
            in case cap of
                 None \<Rightarrow>
                   if random_value = 0 then Inl (BadValue ''cannot convert float NaN to integer'')
                   else Inl Overflow
               | Some c \<Rightarrow>
                   (case py_mul env c random_value of
                      None \<Rightarrow> Inl Overflow
                    | Some s \<Rightarrow>
                        (case py_timedelta env s of None \<Rightarrow> Inl Overflow | Some td \<Rightarrow> Inr td))))))"

text \<open>
  \<^verbatim>\<open>policy.get("max_attempts")\<close> checked with \<^verbatim>\<open>isinstance(..., int)\<close>, which a Boolean passes.
\<close>

fun policy_attempts :: "json \<Rightarrow> db_error + int" where
  "policy_attempts (JInt n) = Inr n"
| "policy_attempts (JBool b) = Inr (if b then 1 else 0)"
| "policy_attempts _ = Inl (BadType ''activity retry policy has invalid max_attempts'')"

definition recorded_policy :: "json \<Rightarrow> db_error + dict" where
  "recorded_policy task_input =
     (case task_input of
        JObj input \<Rightarrow>
          (case dget input ''retry_policy'' of
             JObj p \<Rightarrow> Inr p
           | _ \<Rightarrow> Inl (BadType ''activity task lacks its recorded retry policy''))
      | _ \<Rightarrow> Inl (BadType ''activity task input must be an object''))"

text \<open>The task row of the next attempt, shared by failures and timeouts.\<close>

definition retry_task ::
  "tx \<Rightarrow> uuid \<Rightarrow> uuid \<Rightarrow> uuid option \<Rightarrow> int option \<Rightarrow> int \<Rightarrow> timestamp \<Rightarrow> task_row \<Rightarrow> task_row" where
  "retry_task x task_id w entity command attempt next_visible_at old =
     (workflow_task x task_id w (tk_queue_name old))
       \<lparr>tk_task_type := ActivityTask, tk_entity_id := entity, tk_command_id := command,
        tk_attempt := attempt, tk_input := tk_input old, tk_visible_at := next_visible_at,
        tk_schedule_to_start_deadline :=
          map_option (\<lambda>s. next_visible_at + s) (tk_schedule_to_start_timeout old),
        tk_schedule_to_start_timeout := tk_schedule_to_start_timeout old,
        tk_start_to_close_timeout := tk_start_to_close_timeout old,
        tk_heartbeat_timeout := tk_heartbeat_timeout old\<rparr>"

definition fail_activity ::
  "pyenv \<Rightarrow> tx \<Rightarrow> leased_task \<Rightarrow> json \<Rightarrow> rat option \<Rightarrow> bool txn" where
  "fail_activity env x task failure random_value d =
     (if lt_task_type task \<noteq> ActivityTask \<or> lt_entity_id task = None \<or> lt_command_id task = None
      then Inl (BadValue ''only an activity task can fail an activity'')
      else
        bindR (recorded_policy (lt_input task)) (\<lambda>policy.
        bindR (policy_attempts (dget policy ''max_attempts'')) (\<lambda>max_attempts.
        let is_final = (max_attempts \<le> lt_attempt task);
            selected_random = (case random_value of None \<Rightarrow> tx_random x | Some r \<Rightarrow> r)
        in bindR (if is_final then Inr 0
                  else retry_delay env policy (lt_attempt task) selected_random) (\<lambda>delay.
           let next_visible_at = tx_clock x 0 + delay
           in case List.find (activity_live x task) (db_tasks d) of
                None \<Rightarrow> Inl (StaleLeaseError (lt_id task))
              | Some locked_task \<Rightarrow>
                  case find_execution d (lt_workflow_id task) of
                    None \<Rightarrow> Inl (TransitionError ''workflow does not exist'')
                  | Some e \<Rightarrow>
                      if ex_status e \<noteq> WfRunning
                      then Inl (TerminalWorkflowError (lt_workflow_id task) (ex_status e))
                      else
                        bindR (insert_event x (lt_workflow_id task) (ex_next_seq e) ActivityFailed
                                 None (lt_entity_id task) None
                                 [(''attempt'', JInt (lt_attempt task)),
                                  (''failure'', clone_json failure),
                                  (''final'', JBool is_final),
                                  (''next_visible_at'',
                                    if is_final then JNull
                                    else JStr (py_isoformat env next_visible_at))] d) (\<lambda>d.
                        bindR ((if is_final
                                then insert_workflow_task x (tx_uuid x 0) (lt_workflow_id task)
                                       (tk_queue_name locked_task)
                                else insert_task (retry_task x (tx_uuid x 0) (lt_workflow_id task)
                                       (lt_entity_id task) (lt_command_id task)
                                       (lt_attempt task + 1) next_visible_at locked_task))
                                 (update_tasks (owned task)
                                   (finish_task x (if is_final then TkDead else TkCompleted)) d))
                          (\<lambda>d. Inr (set_next_seq (lt_workflow_id task) (ex_next_seq e + 1) d,
                                    is_final)))))))"

end
