(* ===== verification/Timers.thy ===== *)
theory Timers
  imports Commit
begin

text \<open>
  \<^verbatim>\<open>engine/persistence/timers.py\<close> and \<^verbatim>\<open>engine/persistence/timeouts.py\<close>: firing due timers and timing
  out activity attempts. Both take at most one row that no other transaction has locked.
\<close>

section \<open>Timers\<close>

definition queue_matches :: "string option \<Rightarrow> task_row \<Rightarrow> bool" where
  "queue_matches queue_name t = (case queue_name of None \<Rightarrow> True | Some q \<Rightarrow> tk_queue_name t = q)"

definition due_timer :: "tx \<Rightarrow> string option \<Rightarrow> timestamp option \<Rightarrow> db \<Rightarrow> task_row \<Rightarrow> bool" where
  "due_timer x queue_name clock_time d t \<longleftrightarrow>
     tk_task_type t = TimerTask \<and> tk_status t = TkPending
     \<and> tk_visible_at t \<le> (case clock_time of None \<Rightarrow> tx_now x | Some c \<Rightarrow> c)
     \<and> queue_matches queue_name t \<and> tk_id t \<notin> set (tx_locked x)
     \<and> (case find_execution d (tk_workflow_id t) of
          None \<Rightarrow> False
        | Some e \<Rightarrow> ex_status e = WfRunning \<and> ex_paused_at e = None
            \<and> ex_cancellation_requested_at e = None)"

definition fire_due_timer ::
  "pyenv \<Rightarrow> tx \<Rightarrow> string option \<Rightarrow> timestamp option \<Rightarrow> bool txn" where
  "fire_due_timer env x queue_name clock_time d =
     (case select_first (due_timer x queue_name clock_time d) (\<lambda>t. (tk_visible_at t, tk_id t))
             (db_tasks d) of
        None \<Rightarrow> Inr (d, False)
      | Some timer \<Rightarrow>
          case find_execution d (tk_workflow_id timer) of
            None \<Rightarrow> Inr (d, False)
          | Some e \<Rightarrow>
              if ex_status e \<noteq> WfRunning then Inr (d, False)
              else
                bindR (insert_event x (tk_workflow_id timer) (ex_next_seq e) TimerFired None
                         (tk_entity_id timer) None
                         [(''scheduled_for'', JStr (py_isoformat env (tk_visible_at timer)))] d)
                  (\<lambda>d.
                bindR (insert_workflow_task x (tx_uuid x 0) (tk_workflow_id timer)
                         (tk_queue_name timer)
                         (update_tasks (\<lambda>t. tk_id t = tk_id timer) (finish_task x TkCompleted) d))
                  (\<lambda>d.
                Inr (set_next_seq (tk_workflow_id timer) (ex_next_seq e + 1) d, True))))"

section \<open>Activity timeouts\<close>

definition past :: "tx \<Rightarrow> timestamp option \<Rightarrow> bool" where
  "past x t = (case t of None \<Rightarrow> False | Some v \<Rightarrow> v \<le> tx_now x)"

text \<open>\<^verbatim>\<open>heartbeat_at + heartbeat_timeout\<close>, null when either column is.\<close>

definition heartbeat_deadline :: "task_row \<Rightarrow> timestamp option" where
  "heartbeat_deadline t =
     (case (tk_heartbeat_at t, tk_heartbeat_timeout t) of
        (Some b, Some h) \<Rightarrow> Some (b + h) | _ \<Rightarrow> None)"

definition attempt_timed_out :: "tx \<Rightarrow> string option \<Rightarrow> db \<Rightarrow> task_row \<Rightarrow> bool" where
  "attempt_timed_out x queue_name d t \<longleftrightarrow>
     tk_task_type t = ActivityTask
     \<and> (case find_execution d (tk_workflow_id t) of
          None \<Rightarrow> False | Some e \<Rightarrow> ex_status e = WfRunning \<and> ex_paused_at e = None)
     \<and> queue_matches queue_name t \<and> tk_id t \<notin> set (tx_locked x)
     \<and> ((tk_status t = TkPending \<and> past x (tk_schedule_to_start_deadline t))
        \<or> (tk_status t = TkLeased
           \<and> (past x (tk_lease_expires_at t) \<or> past x (tk_start_to_close_deadline t)
              \<or> past x (heartbeat_deadline t))))"

definition timeout_type :: "tx \<Rightarrow> task_row \<Rightarrow> string" where
  "timeout_type x t =
     (if tk_status t = TkPending then ''schedule_to_start''
      else if past x (tk_start_to_close_deadline t) then ''start_to_close''
      else if past x (heartbeat_deadline t) then ''heartbeat''
      else ''lease_expired'')"

text \<open>\<^verbatim>\<open>coalesce(...)\<close> of the order clause; one of the columns is set in every selected row.\<close>

fun coalesce :: "timestamp option list \<Rightarrow> timestamp" where
  "coalesce [] = 0"
| "coalesce (None # ts) = coalesce ts"
| "coalesce (Some t # ts) = t"

definition timeout_order :: "task_row \<Rightarrow> timestamp" where
  "timeout_order t = coalesce [tk_schedule_to_start_deadline t, tk_start_to_close_deadline t,
     heartbeat_deadline t, tk_lease_expires_at t]"

definition process_activity_timeout ::
  "pyenv \<Rightarrow> tx \<Rightarrow> string option \<Rightarrow> rat option \<Rightarrow> bool txn" where
  "process_activity_timeout env x queue_name random_value d =
     (let selected_random = (case random_value of None \<Rightarrow> tx_random x | Some r \<Rightarrow> r)
      in case select_first (attempt_timed_out x queue_name d) (\<lambda>t. (timeout_order t, tk_id t))
                (db_tasks d) of
           None \<Rightarrow> Inr (d, False)
         | Some task \<Rightarrow>
             case find_execution d (tk_workflow_id task) of
               None \<Rightarrow> Inr (d, False)
             | Some e \<Rightarrow>
                 if ex_status e \<noteq> WfRunning then Inr (d, False)
                 else
                   bindR (recorded_policy (case tk_input task of None \<Rightarrow> JNull | Some v \<Rightarrow> v))
                     (\<lambda>policy.
                   bindR (policy_attempts (dget policy ''max_attempts'')) (\<lambda>max_attempts.
                   let is_final = (max_attempts \<le> tk_attempt task)
                   in bindR (if is_final then Inr 0
                             else retry_delay env policy (tk_attempt task) selected_random) (\<lambda>delay.
                      let next_visible_at = tx_clock x 0 + delay;
                          w = tk_workflow_id task
                      in bindR (insert_event x w (ex_next_seq e) ActivityTimedOut None
                                  (tk_entity_id task) None
                                  [(''attempt'', JInt (tk_attempt task)),
                                   (''failure'', JObj
                                     [(''type'', JStr ''ActivityTimeout''),
                                      (''message'',
                                        JStr (''activity attempt timed out: '' @ timeout_type x task)),
                                      (''timeout_type'', JStr (timeout_type x task))]),
                                   (''final'', JBool is_final),
                                   (''timeout_type'', JStr (timeout_type x task)),
                                   (''next_visible_at'',
                                     if is_final then JNull
                                     else JStr (py_isoformat env next_visible_at))] d) (\<lambda>d.
                         bindR ((if is_final
                                 then insert_workflow_task x (tx_uuid x 0) w (tk_queue_name task)
                                 else insert_task (retry_task x (tx_uuid x 0) w (tk_entity_id task)
                                        (tk_command_id task) (tk_attempt task + 1)
                                        next_visible_at task))
                                  (update_tasks (\<lambda>t. tk_id t = tk_id task)
                                    (finish_task x (if is_final then TkDead else TkCompleted)) d))
                           (\<lambda>d. Inr (set_next_seq w (ex_next_seq e + 1) d, True)))))))"

end
