(* ===== verification/Transition_Laws.thy ===== *)
theory Transition_Laws
  imports Store_Laws Signals Timers
begin

text \<open>
  Every transaction of the engine meets the contract of the locale \<open>transaction\<close>: it keeps the
  invariant of the database and only appends. The lemmas follow the structure of the code: the
  shared statements, the single-event transitions, starting, leases, the loops that cancel timers
  and terminate descendants, and the branches of a commit.
\<close>

section \<open>Transactions\<close>

text \<open>
  The contract of a transaction: from a database that satisfies the invariant it leads to one that
  satisfies it, and it only appends.
\<close>

locale transaction =
  fixes op :: "'a txn"
  assumes safe: "committed d \<Longrightarrow> op d = Inr (d', r) \<Longrightarrow> progress Map.empty {} {} d d'"
begin

lemma keeps_committed: "committed d \<Longrightarrow> op d = Inr (d', r) \<Longrightarrow> committed d'"
  using safe by (auto simp: progress_def committed_def)

lemma appends: "committed d \<Longrightarrow> op d = Inr (d', r) \<Longrightarrow> only_appends d d'"
  using safe by (auto simp: progress_def)

end

lemma insert_event_find: "insert_event x w n ty c e ext attrs d = Inr d' \<Longrightarrow> find_execution d' = find_execution d"
  by (rule find_execution_cong) (rule insert_event_frame)

lemma insert_task_find: "insert_task t d = Inr d' \<Longrightarrow> find_execution d' = find_execution d"
  by (rule find_execution_cong) (rule insert_task_frame)

lemma insert_update_find: "insert_update u d = Inr d' \<Longrightarrow> find_execution d' = find_execution d"
  by (rule find_execution_cong) (rule insert_update_frame)

lemma record_api_audit_find:
  "record_api_audit x a w acc det d = Inr d' \<Longrightarrow> find_execution d' = find_execution d"
  by (rule find_execution_cong) (rule record_api_audit_frame)

lemmas statement_find =
  insert_event_find insert_task_find insert_update_find record_api_audit_find

lemma committed_progress: "committed d \<Longrightarrow> progress Map.empty {} {} d d"
  by (simp add: committed_def progress_refl)

lemma cursor_simps [simp]:
  "cursor Map.empty e = ex_next_seq e"
  "ex_id e = w \<Longrightarrow> cursor (ov(w \<mapsto> n)) e = n"
  "ex_id e = w \<Longrightarrow> cursor (ov(w := None)) e = ex_next_seq e"
  by (simp_all add: cursor_def)

lemma insert_workflow_task_progress:
  assumes "insert_workflow_task x i w q d = Inr d'" and "progress ov X Y d0 d" and "running d w"
  shows "progress ov X Y d0 d'"
  by (rule insert_task_progress[OF assms(1)[unfolded insert_workflow_task_def] assms(2)])
    (simp add: workflow_task_def assms(3))

text \<open>
  Most transitions record one event of a running workflow, wake it with a task and advance its
  counter.
\<close>

lemma event_and_counter_progress:
  assumes "insert_event x w n ty c e ext attrs d = Inr d1" and "progress Map.empty X Y d0 d"
    and "find_execution d w = Some r" and "ex_status r = WfRunning" and "ex_next_seq r = n"
  shows "progress [w \<mapsto> n + 1] X Y d0 d1" and "find_execution d1 w = Some r" and "running d1 w"
proof -
  show f: "find_execution d1 w = Some r" using assms(3) insert_event_find[OF assms(1)] by simp
  then show "running d1 w" using assms(4) by (simp add: running_def)
  show "progress [w \<mapsto> n + 1] X Y d0 d1"
    using insert_event_progress[OF assms(1,2,3,4)] assms(5) by simp
qed

lemma set_next_seq_commits:
  assumes "progress [w \<mapsto> n] X Y d0 d" and "find_execution d w = Some r" and "ex_status r = WfRunning"
  shows "progress Map.empty X Y d0 (set_next_seq w n d)"
proof -
  have "ex_id r = w" using find_execution_Some[OF assms(2)] by simp
  with set_next_seq_progress[OF assms(1,2,3), of n] show ?thesis by simp
qed

lemma find_set_next_seq [simp]:
  "find_execution (set_next_seq w n d) v =
    (if v = w then map_option (\<lambda>e. e\<lparr>ex_next_seq := n\<rparr>) (find_execution d v) else find_execution d v)"
  by (simp add: set_next_seq_def find_update_execution)

lemma wake_commits:
  assumes "insert_task t d = Inr d'" and "progress [w \<mapsto> n] X Y d0 d" and "tk_workflow_id t = w"
    and "find_execution d w = Some r" and "ex_status r = WfRunning"
  shows "progress Map.empty X Y d0 (set_next_seq w n d')"
proof -
  have "progress [w \<mapsto> n] X Y d0 d'"
    using assms by (intro insert_task_progress[OF assms(1,2)]) (simp add: running_def)
  moreover have "find_execution d' w = Some r"
    using insert_task_find[OF assms(1)] assms(4) by simp
  ultimately show ?thesis using set_next_seq_commits assms(5) by blast
qed

lemma wake_workflow_commits:
  assumes "insert_workflow_task x i w q d = Inr d'" and "progress [w \<mapsto> n] X Y d0 d"
    and "find_execution d w = Some r" and "ex_status r = WfRunning"
  shows "progress Map.empty X Y d0 (set_next_seq w n d')"
  using wake_commits[OF assms(1)[unfolded insert_workflow_task_def] assms(2)] assms(3,4)
  by (simp add: workflow_task_def)

interpretation signal_tx: transaction "send_signal x w i n p a" for x w i n p a
proof
  fix d d' r
  assume ok: "committed d" and op: "send_signal x w i n p a d = Inr (d', r)"
  obtain e where e: "find_execution d w = Some e"
    using op by (auto simp: send_signal_def res_simps)
  show "progress Map.empty {} {} d d'"
  proof (cases "external_id_used d w i")
    case True
    with op e committed_progress[OF ok] show ?thesis
      by (auto simp: send_signal_def res_simps intro: record_api_audit_progress)
  next
    case False
    with op e obtain d1 d2 where run: "ex_status e = WfRunning"
      and 1: "insert_event x w (ex_next_seq e) SignalReceived None None (Some i)
           [(''name'', JStr n), (''payload'', clone_json p)] d = Inr d1"
      and 2: "insert_workflow_task x (tx_uuid x 0) w (ex_queue_name e) d1 = Inr d2"
      and 3: "record_api_audit x a (Some w) True (JObj [(''signal_id'', JStr i), (''name'', JStr n)])
           (set_next_seq w (ex_next_seq e + 1) d2) = Inr d'"
      by (auto simp: send_signal_def res_simps)
    note ev = event_and_counter_progress[OF 1 committed_progress[OF ok] e run refl]
    from record_api_audit_progress[OF 3 wake_workflow_commits[OF 2 ev(1,2) run]] show ?thesis .
  qed
qed

interpretation update_tx: transaction "send_update x w i n p a" for x w i n p a
proof
  fix d d' r
  assume ok: "committed d" and op: "send_update x w i n p a d = Inr (d', r)"
  obtain e where e: "find_execution d w = Some e"
    using op by (auto simp: send_update_def res_simps)
  show "progress Map.empty {} {} d d'"
  proof (cases "find_update d w i")
    case (Some u)
    with op e committed_progress[OF ok] show ?thesis
      by (auto simp: send_update_def res_simps intro: record_api_audit_progress)
  next
    case None
    with op e obtain u d0 c ext attrs d1 d2 det where run: "ex_status e = WfRunning"
      and 0: "insert_update u d = Inr d0"
      and 1: "insert_event x w (ex_next_seq e) WorkflowUpdateReceived None None ext attrs d0 = Inr d1"
      and 2: "insert_workflow_task x (tx_uuid x 0) w (ex_queue_name e) d1 = Inr d2"
      and 3: "record_api_audit x a (Some w) True det (set_next_seq w (ex_next_seq e + 1) d2) = Inr d'"
      by (auto simp: send_update_def res_simps Let_def)
    have p: "progress Map.empty {} {} d d0" and "find_execution d0 w = Some e"
      using insert_update_progress[OF 0 committed_progress[OF ok]] insert_update_find[OF 0] e by auto
    from event_and_counter_progress[OF 1 p this(2) run refl]
    have ev: "progress [w \<mapsto> ex_next_seq e + 1] {} {} d d1" "find_execution d1 w = Some e" by auto
    from record_api_audit_progress[OF 3 wake_workflow_commits[OF 2 ev run]] show ?thesis .
  qed
qed

interpretation effect_tx: transaction "record_idempotent_effect x k p" for x k p
proof
  fix d d' r
  assume "committed d" and "record_idempotent_effect x k p d = Inr (d', r)"
  then show "progress Map.empty {} {} d d'"
    by (intro progress_frame[OF committed_progress[of d]])
      (auto simp: record_idempotent_effect_def split: if_splits)
qed

interpretation register_tx: transaction "register_workflow_definition n v h" for n v h
proof
  fix d d' r
  assume "committed d" and "register_workflow_definition n v h d = Inr (d', r)"
  then show "progress Map.empty {} {} d d'"
    by (intro progress_frame[OF committed_progress[of d]])
      (auto simp: register_workflow_definition_def res_simps Let_def split: if_splits)
qed

text \<open>Both ways in which an attempt ends without a result: the old row is closed, a new one wakes.\<close>

lemma attempt_over_progress:
  assumes "committed d" and "find_execution d w = Some e" and "ex_status e = WfRunning"
    and "insert_event x w (ex_next_seq e) ty c ent ext attrs d = Inr d1"
    and "insert_task t (update_tasks p (finish_task x s) d1) = Inr d2"
    and "s \<in> {TkCompleted, TkDead}" and "tk_workflow_id t = w"
    and "\<And>r. r \<in> set (db_tasks d) \<Longrightarrow> p r \<Longrightarrow> open_task r"
  shows "progress Map.empty {} {} d (set_next_seq w (ex_next_seq e + 1) d2)"
proof -
  note ev = event_and_counter_progress[OF assms(4) committed_progress[OF assms(1)] assms(2,3) refl]
  have "progress [w \<mapsto> ex_next_seq e + 1] {} {} d (update_tasks p (finish_task x s) d1)"
    by (rule finish_tasks_progress[OF ev(1) assms(6)])
      (use assms(8) insert_event_frame(2)[OF assms(4)] in auto)
  from wake_commits[OF assms(5) this assms(7)] ev(2) assms(3) show ?thesis by simp
qed

lemma new_task_workflow [simp]:
  "tk_workflow_id (workflow_task x i w q) = w"
  "tk_workflow_id (retry_task x i w ent c a v old) = w"
  by (simp_all add: workflow_task_def retry_task_def)

lemma committed_task_unique:
  assumes "committed d" and "s \<in> set (db_tasks d)" and "t \<in> set (db_tasks d)" and "tk_id s = tk_id t"
  shows "s = t"
proof -
  have "distinct (map tk_id (db_tasks d))" using assms(1) by (simp add: committed_def store_ok_def)
  then show ?thesis using assms(2-4) by (metis distinct_find option.inject)
qed

interpretation timer_tx: transaction "fire_due_timer env x q c" for env x q c
proof
  fix d d' r
  assume ok: "committed d" and op: "fire_due_timer env x q c d = Inr (d', r)"
  show "progress Map.empty {} {} d d'"
  proof (cases "d' = d")
    case True
    with committed_progress[OF ok] show ?thesis by simp
  next
    case False
    with op obtain t where t: "select_first (due_timer x q c d) (\<lambda>t. (tk_visible_at t, tk_id t)) (db_tasks d)
        = Some t"
      by (auto simp: fire_due_timer_def split: option.splits)
    with op False obtain e where e: "find_execution d (tk_workflow_id t) = Some e"
      and run: "ex_status e = WfRunning"
      by (auto simp: fire_due_timer_def split: option.splits if_splits)
    have "open_task s" if "s \<in> set (db_tasks d)" "tk_id s = tk_id t" for s
      using select_first_Some(1,2)[OF t] committed_task_unique[OF ok that(1) _ that(2)]
      by (simp add: due_timer_def open_task_def)
    with op t e run show ?thesis
      by (auto simp: fire_due_timer_def res_simps insert_workflow_task_def
          intro: attempt_over_progress[OF ok e run])
  qed
qed


interpretation timeout_tx: transaction "process_activity_timeout env x q rv" for env x q rv
proof
  fix d d' r
  assume ok: "committed d" and op: "process_activity_timeout env x q rv d = Inr (d', r)"
  show "progress Map.empty {} {} d d'"
  proof (cases "d' = d")
    case True
    with committed_progress[OF ok] show ?thesis by simp
  next
    case False
    with op obtain t where t: "select_first (attempt_timed_out x q d) (\<lambda>t. (timeout_order t, tk_id t))
        (db_tasks d) = Some t"
      by (auto simp: process_activity_timeout_def split: option.splits)
    with op False obtain e where e: "find_execution d (tk_workflow_id t) = Some e"
      and run: "ex_status e = WfRunning"
      by (auto simp: process_activity_timeout_def split: option.splits if_splits)
    have "open_task s" if "s \<in> set (db_tasks d)" "tk_id s = tk_id t" for s
      using select_first_Some(1,2)[OF t] committed_task_unique[OF ok that(1) _ that(2)]
      by (auto simp: attempt_timed_out_def open_task_def)
    with op t e run show ?thesis
      by (auto simp: process_activity_timeout_def res_simps Let_def insert_workflow_task_def
          intro: attempt_over_progress[OF ok e run] split: if_splits)
  qed
qed

lemma complete_task_progress:
  assumes "complete_task x task d = Inr d'" and "progress ov X Y d0 d"
  shows "progress ov X (Y - {lt_id task}) d0 d'" and "find_execution d' = find_execution d"
proof -
  have d': "d' = update_tasks (owned task) (finish_task x TkCompleted) d"
    and one: "length (filter (owned task) (db_tasks d)) = 1"
    using assms(1) by (auto simp: complete_task_def split: if_splits)
  have dist: "distinct (map tk_id (db_tasks d))"
    using assms(2) by (simp add: progress_def store_ok_def)
  obtain o1 where o1: "o1 \<in> set (db_tasks d)" "owned task o1"
    using one by (metis One_nat_def Suc_neq_Zero filter_False list.size(3))
  have "owned task t" if "t \<in> set (db_tasks d)" "tk_id t = lt_id task" for t
  proof -
    have "tk_id o1 = tk_id t" using o1(2) that(2) by (simp add: owned_def)
    with dist o1 that(1) show ?thesis by (metis distinct_find option.inject)
  qed
  then show "progress ov X (Y - {lt_id task}) d0 d'"
    unfolding d' by (intro finish_tasks_progress[OF assms(2)]) (auto simp: owned_def open_task_def)
  show "find_execution d' = find_execution d" by (simp add: d')
qed

interpretation complete_tx: transaction "complete_activity x task v" for x task v
proof
  fix d d' r
  assume ok: "committed d" and op: "complete_activity x task v d = Inr (d', r)"
  let ?w = "lt_workflow_id task"
  obtain t where t: "List.find (activity_live x task) (db_tasks d) = Some t"
    using op by (auto simp: complete_activity_def res_simps split: if_splits)
  obtain e where e: "find_execution d ?w = Some e" and run: "ex_status e = WfRunning"
    using op t by (auto simp: complete_activity_def res_simps split: if_splits)
  from op t e run obtain attrs d1 d2 d3 where
    1: "insert_event x ?w (ex_next_seq e) ActivityCompleted None (lt_entity_id task) None attrs d = Inr d1"
    and 2: "complete_task x task d1 = Inr d2"
    and 3: "insert_workflow_task x (tx_uuid x 0) ?w (tk_queue_name t) d2 = Inr d3"
    and 4: "d' = set_next_seq ?w (ex_next_seq e + 1) d3"
    by (auto simp: complete_activity_def res_simps split: if_splits)
  note ev = event_and_counter_progress[OF 1 committed_progress[OF ok] e run refl]
  note fin = complete_task_progress[OF 2 ev(1)]
  from wake_workflow_commits[OF 3 fin(1)] fin(2) ev(2) run show "progress Map.empty {} {} d d'"
    by (simp add: 4)
qed

interpretation fail_tx: transaction "fail_activity env x task v rv" for env x task v rv
proof
  fix d d' r
  assume ok: "committed d" and op: "fail_activity env x task v rv d = Inr (d', r)"
  let ?w = "lt_workflow_id task"
  obtain t where t: "List.find (activity_live x task) (db_tasks d) = Some t"
    using op by (auto simp: fail_activity_def res_simps Let_def split: if_splits)
  obtain e where e: "find_execution d ?w = Some e" and run: "ex_status e = WfRunning"
    using op t by (auto simp: fail_activity_def res_simps Let_def split: if_splits)
  have "owned task s \<Longrightarrow> open_task s" for s by (simp add: owned_def open_task_def)
  with op t e run show "progress Map.empty {} {} d d'"
    by (auto simp: fail_activity_def res_simps Let_def insert_workflow_task_def
        intro: attempt_over_progress[OF ok e run] split: if_splits)
qed


subsection \<open>Control operations\<close>

lemma running_check:
  assumes "progress ov X Y d0 d" and "find_execution d w = Some e" and "ex_status e = WfRunning"
  shows "execution_check e" and "1 \<le> cursor ov e" and "ex_id e = w"
  using assms find_execution_Some[OF assms(2)] by (auto simp: progress_def store_ok_def)

text \<open>An event followed by an update of the execution that stays open.\<close>

lemma event_update_progress:
  assumes "insert_event x w (ex_next_seq e) ty c ent ext attrs d = Inr d1" and "progress Map.empty X Y d0 d"
    and "find_execution d w = Some e" and "ex_status e = WfRunning"
    and "\<And>r. same_identity r (f r)" and "ex_next_seq (f e) = ex_next_seq e + 1"
    and "ex_status (f e) = WfRunning" and "execution_check e \<Longrightarrow> execution_check (f e)"
  shows "progress Map.empty X Y d0 (update_execution w f d1)"
    and "running (update_execution w f d1) w"
proof -
  note ev = event_and_counter_progress[OF assms(1-4) refl]
  note chk = running_check[OF assms(2-4)]
  have "progress ([w \<mapsto> ex_next_seq e + 1](w := None)) X Y d0 (update_execution w f d1)"
    by (rule update_execution_progress[OF ev(1,2) assms(4,5)]) (use chk assms(6-8) in auto)
  then show "progress Map.empty X Y d0 (update_execution w f d1)" by simp
  have "\<And>r. ex_id (f r) = ex_id r" using assms(5) by (simp add: same_identity_def)
  with ev(2) assms(7) show "running (update_execution w f d1) w"
    by (simp add: running_def find_update_execution)
qed

lemma duplicate_request_progress:
  "duplicate_request x a w reason d = Inr (d', r) \<Longrightarrow> progress ov X Y d0 d \<Longrightarrow> progress ov X Y d0 d'"
  by (auto simp: duplicate_request_def res_simps intro: record_api_audit_progress)

lemmas row_simps = same_identity_def execution_check_def

interpretation pause_tx: transaction "pause_workflow x w reason a" for x w reason a
proof
  fix d d' r
  assume ok: "committed d" and op: "pause_workflow x w reason a d = Inr (d', r)"
  obtain e where e: "find_execution d w = Some e" and run: "ex_status e = WfRunning"
    using op by (auto simp: pause_workflow_def res_simps split: if_splits)
  note p = committed_progress[OF ok]
  show "progress Map.empty {} {} d d'"
  proof (cases "ex_paused_at e")
    case None
    with op e run obtain d1 where 1: "insert_event x w (ex_next_seq e) WorkflowExecutionPaused None None
        None [(''reason'', reason_json reason)] d = Inr d1"
      and 2: "record_api_audit x a (Some w) True (JObj [(''reason'', reason_json reason)])
        (update_execution w (\<lambda>r. r\<lparr>ex_paused_at := Some (tx_now x), ex_pause_reason := reason,
           ex_next_seq := ex_next_seq e + 1\<rparr>) d1) = Inr d'"
      by (auto simp: pause_workflow_def res_simps Let_def)
    show ?thesis
      by (rule record_api_audit_progress[OF 2 event_update_progress(1)[OF 1 p e run]])
        (auto simp: row_simps run)
  next
    case (Some t)
    with op e run p show ?thesis
      by (auto simp: pause_workflow_def intro: duplicate_request_progress)
  qed
qed

lemma shift_tasks_progress:
  assumes "progress ov X Y d0 d"
  shows "progress ov X Y d0 (update_tasks (\<lambda>t. tk_workflow_id t = w \<and> tk_status t = TkPending)
    (\<lambda>t. t\<lparr>tk_visible_at := v t, tk_schedule_to_start_deadline := s t\<rparr>) d)"
  by (rule update_tasks_progress[OF assms]) (auto simp: task_check_def task_identity_def open_task_def split: task_status.splits)

interpretation resume_tx: transaction "resume_workflow env x w reason a" for env x w reason a
proof
  fix d d' r
  assume ok: "committed d" and op: "resume_workflow env x w reason a d = Inr (d', r)"
  obtain e where e: "find_execution d w = Some e" and run: "ex_status e = WfRunning"
    using op by (auto simp: resume_workflow_def res_simps split: if_splits)
  note p = committed_progress[OF ok]
  show "progress Map.empty {} {} d d'"
  proof (cases "ex_paused_at e")
    case (Some t)
    let ?d = "update_tasks (\<lambda>t. tk_workflow_id t = w \<and> tk_status t = TkPending)
      (\<lambda>s. s\<lparr>tk_visible_at := tk_visible_at s + (tx_now x - t),
             tk_schedule_to_start_deadline :=
               map_option (\<lambda>v. v + (tx_now x - t)) (tk_schedule_to_start_deadline s)\<rparr>) d"
    from op e run Some obtain attrs d1 where 1: "insert_event x w (ex_next_seq e) WorkflowExecutionResumed
        None None None attrs ?d = Inr d1"
      and 2: "record_api_audit x a (Some w) True (JObj [(''reason'', reason_json reason)])
        (update_execution w (\<lambda>r. r\<lparr>ex_paused_at := None, ex_pause_reason := None,
           ex_next_seq := ex_next_seq e + 1\<rparr>) d1) = Inr d'"
      by (auto simp: resume_workflow_def res_simps Let_def)
    have "find_execution ?d w = Some e" using e by simp
    from event_update_progress(1)[OF 1 shift_tasks_progress[OF p] this run] show ?thesis
      by (intro record_api_audit_progress[OF 2]) (auto simp: row_simps run)
  next
    case None
    with op e run p show ?thesis
      by (auto simp: resume_workflow_def intro: duplicate_request_progress)
  qed
qed

interpretation cancel_tx: transaction "request_workflow_cancellation x w reason a" for x w reason a
proof
  fix d d' r
  assume ok: "committed d" and op: "request_workflow_cancellation x w reason a d = Inr (d', r)"
  obtain e where e: "find_execution d w = Some e" and run: "ex_status e = WfRunning"
    using op by (auto simp: request_workflow_cancellation_def res_simps split: if_splits)
  note p = committed_progress[OF ok]
  show "progress Map.empty {} {} d d'"
  proof (cases "ex_cancellation_requested_at e")
    case None
    let ?f = "\<lambda>r. r\<lparr>ex_cancellation_requested_at := Some (tx_now x), ex_cancellation_reason := reason,
      ex_next_seq := ex_next_seq e + 1\<rparr>"
    let ?kill = "update_tasks (\<lambda>t. tk_workflow_id t = w \<and> tk_task_type t = ActivityTask
      \<and> tk_status t = TkPending) (finish_task x TkDead)"
    from None op e run obtain d1 d2 where
      1: "insert_event x w (ex_next_seq e) WorkflowCancellationRequested None None
        None [(''reason'', reason_json reason)] d = Inr d1"
      and 2: "insert_workflow_task x (tx_uuid x 0) w (ex_queue_name e) (?kill (update_execution w ?f d1))
        = Inr d2"
      and 3: "record_api_audit x a (Some w) True (JObj [(''reason'', reason_json reason)]) d2 = Inr d'"
      by (auto simp: request_workflow_cancellation_def res_simps Let_def)
    have up: "progress Map.empty {} {} d (update_execution w ?f d1)" "running (update_execution w ?f d1) w"
      by (rule event_update_progress[OF 1 p e run]; simp add: row_simps run)+
    have "progress Map.empty {} {} d (?kill (update_execution w ?f d1))"
      by (rule finish_tasks_progress[OF up(1)]) (auto simp: open_task_def)
    from record_api_audit_progress[OF 3 insert_workflow_task_progress[OF 2 this]] up(2)
    show ?thesis by simp
  next
    case (Some t)
    with op e run p show ?thesis
      by (auto simp: request_workflow_cancellation_def intro: duplicate_request_progress)
  qed
qed


interpretation attributes_tx: transaction "update_search_attributes env x w attrs unset a"
  for env x w attrs unset a
proof
  fix d d' r
  assume ok: "committed d" and op: "update_search_attributes env x w attrs unset a d = Inr (d', r)"
  obtain e m det where e: "find_execution d w = Some e"
    and 1: "record_api_audit x a (Some w) True det
      (update_execution w (\<lambda>r. r\<lparr>ex_search_attributes := m\<rparr>) d) = Inr d'"
    using op by (auto simp: update_search_attributes_def res_simps Let_def)
  note p = committed_progress[OF ok]
  have "execution_check e"
    using ok find_execution_Some[OF e] by (simp add: committed_def store_ok_def)
  then have "progress (Map.empty(w := None)) {} {} d
      (update_execution w (\<lambda>r. r\<lparr>ex_search_attributes := m\<rparr>) d)"
    by (intro update_execution_keeps[OF p e]) (auto simp: row_simps execution_le_def split: workflow_status.splits)
  with record_api_audit_progress[OF 1] show "progress Map.empty {} {} d d'" by simp
qed

subsection \<open>New executions\<close>

lemma progress_drop:
  assumes "progress (ov(w \<mapsto> ex_next_seq r)) X Y d0 d" and "find_execution d w = Some r"
  shows "progress (ov(w := None)) X Y d0 d"
proof -
  have ok: "store_ok (ov(w \<mapsto> ex_next_seq r)) X Y d"
    using assms(1) by (simp add: progress_def)
  have "cursor (ov(w := None)) e = cursor (ov(w \<mapsto> ex_next_seq r)) e" if "e \<in> set (db_executions d)" for e
    using find_executionI[OF ok that] assms(2) by (auto simp: cursor_def)
  with ok assms(1) show ?thesis by (simp add: progress_def store_ok_def)
qed

lemma create_execution_progress:
  assumes "create_execution env x i e attrs d = Inr d'" and "progress ov X Y d0 d"
    and "ex_status e = WfRunning" and "ex_next_seq e = 2"
  shows "progress (ov(ex_id e := None)) X Y d0 d'"
    and "\<And>w r. find_execution d w = Some r \<Longrightarrow> find_execution d' w = Some r"
    and "\<not> execution_exists d (ex_id e)"
proof -
  obtain d1 d2 where 1: "insert_execution env e d = Inr d1"
    and 2: "insert_event x (ex_id e) 1 WorkflowExecutionStarted None None None attrs d1 = Inr d2"
    and 3: "insert_workflow_task x i (ex_id e) (ex_queue_name e) d2 = Inr d'"
    using assms(1) by (auto simp: create_execution_def res_simps)
  note ins = insert_execution_progress[OF 1 assms(2)]
  have p2: "progress (ov(ex_id e \<mapsto> 2)) X Y d0 d2"
    using insert_event_progress[OF 2 ins(1,2) assms(3)] by simp
  have f2: "find_execution d2 = find_execution d1" by (rule insert_event_find[OF 2])
  have f3: "find_execution d' = find_execution d2"
    using insert_task_find 3 by (simp add: insert_workflow_task_def)
  have "progress (ov(ex_id e \<mapsto> 2)) X Y d0 d'"
    by (rule insert_workflow_task_progress[OF 3 p2]) (simp add: running_def f2 ins(2) assms(3))
  with assms(4) progress_drop[of ov "ex_id e" e X Y d0 d'] f2 f3 ins(2)
  show "progress (ov(ex_id e := None)) X Y d0 d'" by simp
  show "find_execution d' w = Some r" if "find_execution d w = Some r" for w r
    using that ins(5) f2 f3 by simp
  show "\<not> execution_exists d (ex_id e)"
    using 1 by (auto simp: insert_execution_def res_simps)
qed

lemma new_execution_simps [simp]:
  "ex_id (new_execution w n v i q t a) = w" "ex_status (new_execution w n v i q t a) = WfRunning"
  "ex_next_seq (new_execution w n v i q t a) = 2"
  by (simp_all add: new_execution_def)

interpretation start_tx: transaction "start_workflow env x n v i q w attrs ro a"
  for env x n v i q w attrs ro a
proof
  fix d d' r
  assume ok: "committed d" and op: "start_workflow env x n v i q w attrs ro a d = Inr (d', r)"
  obtain e ats d1 det where
    1: "create_execution env x (tx_uuid x 1) e ats d = Inr d1" and "ex_status e = WfRunning"
    and "ex_next_seq e = 2" and 2: "record_api_audit x a (Some r) True det d1 = Inr d'"
    using op by (fastforce simp: start_workflow_def res_simps Let_def)
  then have "progress (Map.empty(ex_id e := None)) {} {} d d1"
    using create_execution_progress(1)[OF 1 committed_progress[OF ok]] by simp
  with record_api_audit_progress[OF 2] show "progress Map.empty {} {} d d'" by simp
qed

interpretation retry_tx: transaction "retry_workflow env x w a d0" for env x w a d0
  by unfold_locales (auto simp: retry_workflow_def split: option.splits if_splits intro: start_tx.safe)

subsection \<open>Leases\<close>

interpretation renew_tx: transaction "renew_lease env x i tok dur" for env x i tok dur
proof
  fix d d' r
  assume "committed d" and "renew_lease env x i tok dur d = Inr (d', r)"
  then show "progress Map.empty {} {} d d'"
    by (auto simp: renew_lease_def Let_def res_simps task_check_def task_identity_def open_task_def holds_lease_def
        intro!: update_tasks_progress[OF committed_progress] split: if_splits task_status.splits)
qed

interpretation heartbeat_tx: transaction "heartbeat_activity env x i tok det dur" for env x i tok det dur
proof
  fix d d' r
  assume "committed d" and "heartbeat_activity env x i tok det dur d = Inr (d', r)"
  then show "progress Map.empty {} {} d d'"
    by (auto simp: heartbeat_activity_def Let_def res_simps task_check_def task_identity_def open_task_def holds_lease_def
        intro!: update_tasks_progress[OF committed_progress] split: if_splits task_status.splits)
qed

interpretation release_tx: transaction "release_workflow_task env x task delay" for env x task delay
proof
  fix d d' r
  assume "committed d" and "release_workflow_task env x task delay d = Inr (d', r)"
  then show "progress Map.empty {} {} d d'"
    by (auto simp: release_workflow_task_def Let_def res_simps task_check_def task_identity_def open_task_def holds_lease_def
        intro!: update_tasks_progress[OF committed_progress] split: if_splits task_status.splits)
qed


interpretation reclaim_tx: transaction "reclaim_expired_workflow_tasks x limit" for x limit
proof
  fix d d' r
  assume ok: "committed d" and op: "reclaim_expired_workflow_tasks x limit d = Inr (d', r)"
  define ids where "ids = map tk_id (select_limit limit
    (\<lambda>t. tk_task_type t = WorkflowTask \<and> tk_status t = TkLeased \<and> lease_expired x t
       \<and> tk_id t \<notin> set (tx_locked x)
       \<and> (case find_execution d (tk_workflow_id t) of None \<Rightarrow> False | Some e \<Rightarrow> ex_status e = WfRunning))
    (\<lambda>t. (the (tk_lease_expires_at t), tk_id t)) (db_tasks d))"
  have leased: "tk_status t = TkLeased" if t: "t \<in> set (db_tasks d)" "tk_id t \<in> set ids" for t
  proof -
    obtain s where "s \<in> set (db_tasks d)" "tk_status s = TkLeased" "tk_id s = tk_id t"
      using t(2) set_select_limit unfolding ids_def by fastforce
    with committed_task_unique[OF ok] t(1) show ?thesis by metis
  qed
  from op have "d' = update_tasks (\<lambda>t. tk_id t \<in> set ids)
      (\<lambda>t. t\<lparr>tk_status := TkPending, tk_visible_at := tx_now x, tk_leased_at := None,
             tk_lease_token := None, tk_lease_expires_at := None,
             tk_start_to_close_deadline := None, tk_heartbeat_at := None,
             tk_heartbeat_details := None\<rparr>) d"
    by (simp add: reclaim_expired_workflow_tasks_def Let_def ids_def split: if_splits)
  then show "progress Map.empty {} {} d d'"
    using leased by (auto simp: task_check_def task_identity_def open_task_def
        intro!: update_tasks_progress[OF committed_progress[OF ok]])
qed

lemma take_lease_progress:
  assumes "progress ov X Y d0 d"
  shows "progress ov X Y d0 (update_tasks (\<lambda>t. tk_id t = i \<and> tk_status t = TkPending)
    (take_lease x tok dur) d)"
  by (rule update_tasks_progress[OF assms]) (auto simp: take_lease_def task_check_def task_identity_def open_task_def)

interpretation lease_tx: transaction "lease_task env x ty q dur" for env x ty q dur
proof
  fix d d' r
  assume ok: "committed d" and op: "lease_task env x ty q dur d = Inr (d', r)"
  note p = committed_progress[OF ok]
  show "progress Map.empty {} {} d d'"
  proof (cases "d' = d")
    case True
    with p show ?thesis by simp
  next
    case False
    with op obtain t where t: "lease_candidate x ty q d = Some t"
      by (auto simp: lease_task_def Let_def split: if_splits option.splits)
    note taken = take_lease_progress[OF p, of "tk_id t" x "tx_uuid x 0" dur]
    show ?thesis
    proof (cases "ty = ActivityTask")
      case True
      with op t False obtain e attrs d1 where e: "find_execution d (tk_workflow_id t) = Some e"
        and run: "ex_status e = WfRunning"
        and 1: "insert_event x (tk_workflow_id t) (ex_next_seq e) ActivityStarted None (tk_entity_id t)
          None attrs (update_tasks (\<lambda>s. tk_id s = tk_id t \<and> tk_status s = TkPending)
            (take_lease x (tx_uuid x 0) dur) d) = Inr d1"
        and 2: "d' = set_next_seq (tk_workflow_id t) (ex_next_seq e + 1) d1"
        by (auto simp: lease_task_def Let_def res_simps split: if_splits option.splits)
      from event_and_counter_progress[OF 1 taken _ run refl] e
      have "progress [tk_workflow_id t \<mapsto> ex_next_seq e + 1] {} {} d d1"
        and "find_execution d1 (tk_workflow_id t) = Some e" by simp_all
      from set_next_seq_commits[OF this run] show ?thesis by (simp add: 2)
    next
      case False
      with op t taken show ?thesis
        by (auto simp: lease_task_def Let_def split: if_splits)
    qed
  qed
qed

subsection \<open>Closing\<close>

lemma cancel_timer_progress:
  assumes "cancel_timer x w reason t (d, n) = Inr (d', n')" and "progress ov X Y d0 d"
    and "find_execution d w = Some r" and "ex_status r = WfRunning" and "cursor ov r = n"
  shows "\<exists>ov'. progress ov' X Y d0 d' \<and> cursor ov' r = n' \<and> (\<forall>v. v \<noteq> w \<longrightarrow> ov' v = ov v)
    \<and> db_executions d' = db_executions d"
proof -
  let ?d = "update_tasks (\<lambda>s. tk_id s = tk_id t \<and> tk_status s = TkPending) (finish_task x TkDead) d"
  have p: "progress ov X Y d0 ?d"
    by (rule finish_tasks_progress[OF assms(2)]) (auto simp: open_task_def)
  have id: "ex_id r = w" using find_execution_Some[OF assms(3)] by simp
  show ?thesis
  proof (cases "length (filter (\<lambda>s. tk_id s = tk_id t \<and> tk_status s = TkPending) (db_tasks d)) = 1")
    case True
    with assms(1) obtain d1 where 1: "insert_event x w n TimerCanceled None (tk_entity_id t) None
        [(''reason'', JStr reason)] ?d = Inr d1" and "d' = d1" "n' = n + 1"
      by (auto simp: cancel_timer_def Let_def res_simps)
    with insert_event_progress[OF 1 p _ assms(4,5)] assms(3) insert_event_frame(1)[OF 1] id
    show ?thesis by (intro exI[of _ "ov(w \<mapsto> n + 1)"]) simp
  next
    case False
    with assms(1) p assms(5) show ?thesis
      by (intro exI[of _ ov]) (auto simp: cancel_timer_def Let_def)
  qed
qed

lemma cancel_timers_progress:
  assumes "foldR (cancel_timer x w reason) ts (d, n) = Inr (d', n')" and "progress ov X Y d0 d"
    and "find_execution d w = Some r" and "ex_status r = WfRunning" and "cursor ov r = n"
  shows "\<exists>ov'. progress ov' X Y d0 d' \<and> cursor ov' r = n' \<and> (\<forall>v. v \<noteq> w \<longrightarrow> ov' v = ov v)
    \<and> db_executions d' = db_executions d"
  using assms
proof (induction ts arbitrary: d n ov)
  case Nil
  then show ?case by auto
next
  case (Cons t ts)
  obtain d1 n1 where 1: "cancel_timer x w reason t (d, n) = Inr (d1, n1)"
    and 2: "foldR (cancel_timer x w reason) ts (d1, n1) = Inr (d', n')"
    using Cons.prems(1) by (auto simp: res_simps)
  from cancel_timer_progress[OF 1 Cons.prems(2-5)] obtain ov1 where
    ov1: "progress ov1 X Y d0 d1" "cursor ov1 r = n1" "\<forall>v. v \<noteq> w \<longrightarrow> ov1 v = ov v"
      "db_executions d1 = db_executions d" by blast
  have "find_execution d1 w = Some r" using find_execution_cong[OF ov1(4)] Cons.prems(3) by simp
  from Cons.IH[OF 2 ov1(1) this Cons.prems(4) ov1(2)] ov1(3,4) show ?case by metis
qed

text \<open>The result of the loop over the pending timers, with the override at the closing workflow.\<close>

lemma cancel_pending_timers_progress:
  assumes "cancel_pending_timers x w n reason d = Inr (d', n')" and "progress Map.empty X Y d0 d"
    and "find_execution d w = Some r" and "ex_status r = WfRunning" and "ex_next_seq r = n"
  shows "progress [w \<mapsto> n'] X Y d0 d'" and "find_execution d' = find_execution d"
    and "db_executions d' = db_executions d"
proof -
  obtain ov where ov: "progress ov X Y d0 d'" "cursor ov r = n'" "\<forall>v. v \<noteq> w \<longrightarrow> ov v = None"
    "db_executions d' = db_executions d"
    using cancel_timers_progress[OF assms(1)[unfolded cancel_pending_timers_def] assms(2-4)] assms(5)
    by auto
  show "db_executions d' = db_executions d" by (rule ov(4))
  then show f: "find_execution d' = find_execution d" by (rule find_execution_cong)
  have ok: "store_ok ov X Y d'" using ov(1) by (simp add: progress_def)
  have "cursor [w \<mapsto> n'] e = cursor ov e" if "e \<in> set (db_executions d')" for e
  proof (cases "ex_id e = w")
    case True
    with find_executionI[OF ok that] f assms(3) have "e = r" by simp
    with True ov(2) show ?thesis by simp
  next
    case False
    with ov(3) show ?thesis by (simp add: cursor_def)
  qed
  with ov(1) show "progress [w \<mapsto> n'] X Y d0 d'" by (simp add: progress_def store_ok_def)
qed


definition same_ids :: "db \<Rightarrow> db \<Rightarrow> bool" where
  "same_ids d d' \<longleftrightarrow> map ex_id (db_executions d') = map ex_id (db_executions d)"

lemma same_ids_simps:
  assumes "same_ids d d'"
  shows "position d' w = position d w" and "execution_exists d' w = execution_exists d w"
  using assms unfolding same_ids_def position_def execution_exists_iff by (simp, metis list.set_map)

lemma same_ids_trans: "same_ids a b \<Longrightarrow> same_ids b c \<Longrightarrow> same_ids a c"
  by (simp add: same_ids_def)

lemma close_execution_check:
  "execution_check e \<Longrightarrow> ex_status e = WfRunning \<Longrightarrow> 0 < n \<Longrightarrow>
    execution_check (e\<lparr>ex_status := WfTerminated, ex_next_seq := n, ex_closed_at := Some t\<rparr>)"
  "execution_check e \<Longrightarrow> ex_status e = WfRunning \<Longrightarrow> 0 < n \<Longrightarrow>
    execution_check (e\<lparr>ex_status := WfTerminated, ex_next_seq := n, ex_closed_at := Some t,
      ex_failure := f\<rparr>)"
  by (simp_all add: execution_check_def)

lemma terminate_child_progress:
  assumes "terminate_child x c d = Inr d'" and "progress ov X Y d0 d"
    and "find_execution d (ex_id c) = Some c" and "ex_status c = WfRunning" and "ov (ex_id c) = None"
  shows "progress ov X Y d0 d'" and "same_ids d d'"
    and "\<And>v. v \<noteq> ex_id c \<Longrightarrow> find_execution d' v = find_execution d v"
proof -
  let ?f = "\<lambda>e. e\<lparr>ex_status := WfTerminated, ex_next_seq := ex_next_seq c + 1,
    ex_closed_at := Some (tx_now x), ex_failure := Some (JObj [(''reason'', JStr ''parent workflow closed'')])\<rparr>"
  obtain attrs d1 where
    1: "insert_event x (ex_id c) (ex_next_seq c) WorkflowExecutionTerminated None None None attrs d = Inr d1"
    and d': "d' = reject_pending_updates x (ex_id c) ''parent workflow closed''
       (kill_tasks x (ex_id c) (update_execution (ex_id c) ?f d1))"
    using assms(1) by (auto simp: terminate_child_def res_simps)
  have cur: "cursor ov c = ex_next_seq c" using assms(5) by (simp add: cursor_def)
  have p1: "progress (ov(ex_id c \<mapsto> ex_next_seq c + 1)) (insert (ex_id c) X) Y d0 d1"
    by (rule progress_weaken[OF insert_event_progress[OF 1 assms(2-4) cur]]) auto
  have f1: "find_execution d1 = find_execution d" by (rule insert_event_find[OF 1])
  note chk = running_check[OF assms(2-4)]
  have "progress ((ov(ex_id c \<mapsto> ex_next_seq c + 1))(ex_id c := None)) (insert (ex_id c) X) Y d0
      (update_execution (ex_id c) ?f d1)"
    by (rule update_execution_progress[OF p1, of _ c])
      (use chk cur assms(3,4) f1 in \<open>auto simp: same_identity_def close_execution_check\<close>)
  moreover have "(ov(ex_id c \<mapsto> ex_next_seq c + 1))(ex_id c := None) = ov"
    using assms(5) by (simp add: fun_upd_idem)
  ultimately show "progress ov X Y d0 d'"
    unfolding d' reject_pending_updates_def
    by (intro update_updates_progress kill_tasks_progress) simp
  show "same_ids d d'"
    using insert_event_frame(1)[OF 1] update_execution_ids[of ?f "ex_id c" d1]
    by (simp add: same_ids_def d' reject_pending_updates_def kill_tasks_def)
  show "find_execution d' v = find_execution d v" if "v \<noteq> ex_id c" for v
    using that f1
    by (simp add: d' reject_pending_updates_def kill_tasks_def find_update_execution)
qed

text \<open>
  Rows whose parent is older than the one whose descendants are terminated do not change. \<open>P\<close> is any
  predicate that terminating one running child keeps.
\<close>

definition above :: "db \<Rightarrow> uuid \<Rightarrow> execution_row \<Rightarrow> bool" where
  "above d p e \<longleftrightarrow> (\<forall>q. ex_parent_workflow_id e = Some q \<longrightarrow> position d q < position d p)"

definition child_closing :: "tx \<Rightarrow> (db \<Rightarrow> bool) \<Rightarrow> bool" where
  "child_closing x P \<longleftrightarrow>
     (\<forall>c d d'. terminate_child x c d = Inr d' \<longrightarrow> find_execution d (ex_id c) = Some c
        \<longrightarrow> ex_status c = WfRunning \<longrightarrow> P d \<longrightarrow> P d')"

lemma child_closing_True: "child_closing x (\<lambda>d. True)"
  by (simp add: child_closing_def)

definition descends_ok ::
  "(db \<Rightarrow> bool) \<Rightarrow> (uuid \<rightharpoonup> int) \<Rightarrow> uuid set \<Rightarrow> uuid set \<Rightarrow> db \<Rightarrow> uuid \<Rightarrow> db \<Rightarrow> db \<Rightarrow> bool" where
  "descends_ok P ov X Y d0 p d d' \<longleftrightarrow>
     progress ov X Y d0 d' \<and> same_ids d d' \<and> (P d \<longrightarrow> P d')
     \<and> (\<forall>w e. find_execution d w = Some e \<longrightarrow> above d p e \<longrightarrow> find_execution d' w = Some e)"

lemma terminate_children_progress:
  assumes rec: "\<And>q d d'. terminate_descendants k x q d = Inr d' \<Longrightarrow> progress ov X Y d0 d \<Longrightarrow>
      \<forall>v\<in>dom ov. position d v \<le> position d q \<Longrightarrow> descends_ok P ov X Y d0 q d d'"
    and "foldR (\<lambda>c d. bindR (terminate_descendants k x (ex_id c) d) (terminate_child x c)) cs d = Inr d'"
    and "progress ov X Y d0 d" and "\<forall>v\<in>dom ov. position d v \<le> position d p"
    and "distinct (map ex_id cs)"
    and "\<forall>c\<in>set cs. find_execution d (ex_id c) = Some c \<and> ex_parent_workflow_id c = Some p
      \<and> ex_status c = WfRunning"
    and closing: "child_closing x P"
  shows "descends_ok P ov X Y d0 p d d'"
  using assms(2-6)
proof (induction cs arbitrary: d)
  case Nil
  then show ?case by (simp add: descends_ok_def same_ids_def)
next
  case (Cons c cs)
  obtain d1 d2 where 1: "terminate_descendants k x (ex_id c) d = Inr d1"
    and 2: "terminate_child x c d1 = Inr d2"
    and 3: "foldR (\<lambda>c d. bindR (terminate_descendants k x (ex_id c) d) (terminate_child x c)) cs d2 = Inr d'"
    using Cons.prems(1) by (auto simp: res_simps)
  have c: "find_execution d (ex_id c) = Some c" "ex_parent_workflow_id c = Some p" "ex_status c = WfRunning"
    using Cons.prems(5) by simp_all
  have pos: "position d p < position d (ex_id c)"
    using Cons.prems(2) find_execution_Some[OF c(1)] c(2)
    by (auto simp: progress_def store_ok_def parents_first_def)
  have below: "\<forall>v\<in>dom ov. position d v \<le> position d (ex_id c)"
    using Cons.prems(3) pos by (meson less_imp_le_nat order_trans)
  have d1: "progress ov X Y d0 d1" "same_ids d d1"
    "\<And>w e. find_execution d w = Some e \<Longrightarrow> above d (ex_id c) e \<Longrightarrow> find_execution d1 w = Some e"
    "P d \<Longrightarrow> P d1"
    using rec[OF 1 Cons.prems(2) below] by (auto simp: descends_ok_def)
  have child: "find_execution d1 (ex_id b) = Some b" if "b \<in> set (c # cs)" for b
    using d1(3)[of "ex_id b" b] Cons.prems(5) that pos by (auto simp: above_def)
  have "ov (ex_id c) = None"
    using Cons.prems(3) pos by (metis domI leD not_None_eq)
  then have d2: "progress ov X Y d0 d2" "same_ids d1 d2"
    "\<And>v. v \<noteq> ex_id c \<Longrightarrow> find_execution d2 v = find_execution d1 v"
    using terminate_child_progress[OF 2 d1(1) child c(3)] by auto
  have "P d1 \<Longrightarrow> P d2" using closing 2 child[of c] c(3) by (simp add: child_closing_def)
  have ids: "same_ids d d2" using d1(2) d2(2) same_ids_trans by blast
  have "\<forall>b\<in>set cs. find_execution d2 (ex_id b) = Some b \<and> ex_parent_workflow_id b = Some p
      \<and> ex_status b = WfRunning"
    using child d2(3) Cons.prems(4,5) by (metis image_eqI list.set_map distinct.simps(2) list.simps(9) list.set_intros(2))
  then have tail: "descends_ok P ov X Y d0 p d2 d'"
    using Cons.prems(3,4) same_ids_simps(1)[OF ids] by (intro Cons.IH[OF 3 d2(1)]) auto
  have "find_execution d' w = Some e" if e: "find_execution d w = Some e" "above d p e" for w e
  proof -
    have "above d (ex_id c) e" using e(2) pos by (auto simp: above_def)
    then have "find_execution d1 w = Some e" using d1(3) e(1) by blast
    moreover have "w \<noteq> ex_id c" using e c(1,2) by (auto simp: above_def)
    moreover have "above d2 p e" using e(2) same_ids_simps(1)[OF ids] by (simp add: above_def)
    ultimately show ?thesis using d2(3) tail by (simp add: descends_ok_def)
  qed
  then show ?case using tail ids same_ids_trans d1(4) \<open>P d1 \<Longrightarrow> P d2\<close> by (auto simp: descends_ok_def)
qed

lemma running_children_simps:
  assumes "store_ok ov X Y d"
  shows "distinct (map ex_id (running_children p d))"
    and "\<forall>c\<in>set (running_children p d). find_execution d (ex_id c) = Some c
      \<and> ex_parent_workflow_id c = Some p \<and> ex_status c = WfRunning"
proof -
  have "distinct (map ex_id (db_executions d))" using assms by (simp add: store_ok_def)
  then have "distinct (map ex_id (filter P (db_executions d)))" for P
    by (simp add: distinct_map_filter)
  then show "distinct (map ex_id (running_children p d))"
    by (simp add: running_children_def distinct_map)
  show "\<forall>c\<in>set (running_children p d). find_execution d (ex_id c) = Some c
      \<and> ex_parent_workflow_id c = Some p \<and> ex_status c = WfRunning"
    using find_executionI[OF assms] by (auto simp: running_children_def)
qed

lemma terminate_descendants_progress:
  assumes "terminate_descendants k x p d = Inr d'" and "progress ov X Y d0 d"
    and "\<forall>v\<in>dom ov. position d v \<le> position d p" and "child_closing x P"
  shows "descends_ok P ov X Y d0 p d d'"
  using assms(1-3)
proof (induction k arbitrary: p d d')
  case 0
  then show ?case by simp
next
  case (Suc k)
  have "store_ok ov X Y d" using Suc.prems(2) by (simp add: progress_def)
  note children = running_children_simps[OF this, of p]
  show ?case
    by (rule terminate_children_progress[where k = k and cs = "running_children p d"])
      (use Suc children assms(4) in auto)
qed


lemma row_above:
  assumes "progress ov X Y d0 d" and "find_execution d w = Some e"
  shows "above d w e"
  using assms find_execution_Some[OF assms(2)]
  by (auto simp: above_def progress_def store_ok_def parents_first_def)

text \<open>Terminating the descendants of a workflow leaves its own row alone.\<close>

lemma terminate_descendants_of_progress:
  assumes "terminate_descendants k x w d = Inr d'" and "progress ov X Y d0 d" and "dom ov \<subseteq> {w}"
    and "find_execution d w = Some e"
  shows "progress ov X Y d0 d'" and "find_execution d' w = Some e"
  using terminate_descendants_progress[OF assms(1,2) _ child_closing_True] assms(3,4) row_above[OF assms(2,4)]
  by (auto simp: descends_ok_def)

lemma terminate_descendants_keeps:
  assumes "terminate_descendants k x w d = Inr d'" and "progress ov X Y d0 d" and "dom ov \<subseteq> {w}"
    and "child_closing x P" and "P d"
  shows "P d'"
  using terminate_descendants_progress[OF assms(1,2) _ assms(4)] assms(3,5)
  by (auto simp: descends_ok_def)

lemma notify_parent_progress:
  assumes "notify_parent_of_child_terminal x i child parent st payload d = Inr d'"
    and "progress Map.empty X Y d0 d"
  shows "progress Map.empty X Y d0 d'"
proof (cases "\<exists>p e. parent = Some p \<and> find_execution d p = Some e \<and> ex_status e = WfRunning")
  case True
  then obtain p e where e: "parent = Some p" "find_execution d p = Some e" "ex_status e = WfRunning"
    by auto
  with assms(1) obtain attrs d1 where
    1: "insert_event x p (ex_next_seq e) (child_event_type st) None (Some child) None attrs d = Inr d1"
    and 2: "insert_workflow_task x i p (ex_queue_name e) (set_next_seq p (ex_next_seq e + 1) d1) = Inr d'"
    by (auto simp: notify_parent_of_child_terminal_def res_simps)
  note ev = event_and_counter_progress[OF 1 assms(2) e(2,3) refl]
  from insert_workflow_task_progress[OF 2 set_next_seq_commits[OF ev(1,2) e(3)]] ev(2) e(3)
  show ?thesis by (simp add: running_def)
next
  case False
  with assms show ?thesis
    by (auto simp: notify_parent_of_child_terminal_def split: option.splits if_splits)
qed

text \<open>The terminal event and the closing update of the execution.\<close>

lemma close_execution_progress:
  assumes "insert_event x w n ty c ent ext attrs d = Inr d1" and "progress [w \<mapsto> n] X Y d0 d"
    and "find_execution d w = Some e" and "ex_status e = WfRunning"
    and "\<And>r. same_identity r (f r)" and "execution_check e \<Longrightarrow> 1 \<le> n \<Longrightarrow> execution_check (f e)"
    and "ex_next_seq (f e) = n + 1"
  shows "progress Map.empty (insert w X) Y d0 (update_execution w f d1)"
proof -
  note chk = running_check[OF assms(2-4)]
  have p1: "progress [w \<mapsto> n + 1] X Y d0 d1"
    using insert_event_progress[OF assms(1-4)] chk(3) by simp
  have "find_execution d1 w = Some e" using insert_event_find[OF assms(1)] assms(3) by simp
  from update_execution_progress[OF progress_weaken[OF p1, of "insert w X" Y] this assms(4,5)]
  have "progress ([w \<mapsto> n + 1](w := None)) (insert w X) Y d0 (update_execution w f d1)"
    using assms(6,7) chk by auto
  then show ?thesis by simp
qed

interpretation terminate_tx: transaction "terminate_workflow k x w reason a" for k x w reason a
proof
  fix d d' r
  assume ok: "committed d" and op: "terminate_workflow k x w reason a d = Inr (d', r)"
  note p = committed_progress[OF ok]
  obtain e where e: "find_execution d w = Some e"
    using op by (auto simp: terminate_workflow_def res_simps split: if_splits)
  show "progress Map.empty {} {} d d'"
  proof (cases "ex_status e = WfTerminated")
    case True
    with op e p show ?thesis
      by (auto simp: terminate_workflow_def intro: duplicate_request_progress)
  next
    case False
    let ?f = "\<lambda>n e. e\<lparr>ex_status := WfTerminated, ex_next_seq := n + 1, ex_closed_at := Some (tx_now x)\<rparr>"
    from False op e obtain d1 d2 n d3 d4 where run: "ex_status e = WfRunning"
      and 1: "terminate_descendants k x w d = Inr d1"
      and 2: "cancel_pending_timers x w (ex_next_seq e) ''workflow terminated''
        (reject_pending_updates x w ''workflow terminated'' d1) = Inr (d2, n)"
      and 3: "insert_event x w n WorkflowExecutionTerminated None None None
        [(''reason'', reason_json reason)] d2 = Inr d3"
      and 4: "notify_parent_of_child_terminal x (tx_uuid x 0) w (ex_parent_workflow_id e) WfTerminated
        (JObj [(''reason'', reason_json reason)]) (kill_tasks x w (update_execution w (?f n) d3)) = Inr d4"
      and 5: "record_api_audit x a (Some w) True (JObj [(''reason'', reason_json reason)]) d4 = Inr d'"
      by (auto simp: terminate_workflow_def res_simps split: if_splits)
    note d1 = terminate_descendants_of_progress[OF 1 p _ e]
    have p1: "progress Map.empty {} {} d (reject_pending_updates x w ''workflow terminated'' d1)"
      unfolding reject_pending_updates_def by (rule update_updates_progress) (simp add: d1)
    have e1: "find_execution (reject_pending_updates x w ''workflow terminated'' d1) w = Some e"
      by (simp add: d1 reject_pending_updates_def)
    note d2 = cancel_pending_timers_progress[OF 2 p1 e1 run refl]
    have "progress Map.empty (insert w {}) {} d (update_execution w (?f n) d3)"
      by (rule close_execution_progress[OF 3 d2(1) _ run])
        (use d2(2) e1 run in \<open>auto simp: same_identity_def close_execution_check\<close>)
    from record_api_audit_progress[OF 5 notify_parent_progress[OF 4 kill_tasks_progress[OF this]]]
    show ?thesis .
  qed
qed

subsection \<open>Committing a replay\<close>

lemma commit_cancellation_progress:
  assumes "commit_cancellation k x task e d = Inr d'" and "progress Map.empty X Y d0 d"
    and "find_execution d (lt_workflow_id task) = Some e" and "ex_status e = WfRunning"
    and "lt_id task \<in> Y"
  shows "progress Map.empty X Y d0 d'"
proof -
  let ?w = "lt_workflow_id task"
  let ?f = "\<lambda>n e. e\<lparr>ex_status := WfTerminated, ex_next_seq := n + 1, ex_closed_at := Some (tx_now x)\<rparr>"
  obtain d1 n d2 attrs d3 pl where
    1: "cancel_pending_timers x ?w (ex_next_seq e) ''workflow cancellation requested'' d = Inr (d1, n)"
    and 2: "terminate_descendants k x ?w d1 = Inr d2"
    and 3: "insert_event x ?w n WorkflowExecutionTerminated None None None attrs
      (reject_pending_updates x ?w ''workflow cancelled'' d2) = Inr d3"
    and 4: "notify_parent_of_child_terminal x (tx_uuid x 0) ?w (ex_parent_workflow_id e) WfTerminated pl
      (kill_other_tasks x ?w (lt_id task) (update_execution ?w (?f n) d3)) = Inr d'"
    using assms(1) by (auto simp: commit_cancellation_def res_simps Let_def)
  note d1 = cancel_pending_timers_progress[OF 1 assms(2-4) refl]
  have "find_execution d1 ?w = Some e" using d1(2) assms(3) by simp
  from terminate_descendants_of_progress[OF 2 d1(1) _ this]
  have d2: "progress [?w \<mapsto> n] X Y d0 (reject_pending_updates x ?w ''workflow cancelled'' d2)"
    "find_execution (reject_pending_updates x ?w ''workflow cancelled'' d2) ?w = Some e"
    by (auto simp: reject_pending_updates_def intro: update_updates_progress)
  have "progress Map.empty (insert ?w X) Y d0 (update_execution ?w (?f n) d3)"
    by (rule close_execution_progress[OF 3 d2 assms(4)])
      (use assms(4) in \<open>auto simp: same_identity_def close_execution_check\<close>)
  from notify_parent_progress[OF 4 kill_other_tasks_progress[OF this assms(5)]] show ?thesis .
qed

lemma commit_close_progress:
  assumes "commit_close k x task e completed payload d = Inr d'" and "progress Map.empty X Y d0 d"
    and "find_execution d (lt_workflow_id task) = Some e" and "ex_status e = WfRunning"
    and "lt_id task \<in> Y"
  shows "progress Map.empty X Y d0 d'"
proof -
  let ?w = "lt_workflow_id task"
  let ?f = "\<lambda>n e. e\<lparr>ex_status := (if completed then WfCompleted else WfFailed),
                 ex_result := (if completed then Some (clone_json payload) else None),
                 ex_failure := (if completed then None else Some (clone_json payload)),
                 ex_next_seq := n + 1, ex_closed_at := Some (tx_now x)\<rparr>"
  obtain d1 d2 n ty attrs d3 st where
    1: "terminate_descendants k x ?w d = Inr d1"
    and 2: "cancel_pending_timers x ?w (ex_next_seq e) ''workflow closed''
      (reject_pending_updates x ?w ''workflow closed'' d1) = Inr (d2, n)"
    and 3: "insert_event x ?w n ty None None None attrs d2 = Inr d3"
    and 4: "notify_parent_of_child_terminal x (tx_uuid x 0) ?w (ex_parent_workflow_id e) st payload
      (kill_other_tasks x ?w (lt_id task) (update_execution ?w (?f n) d3)) = Inr d'"
    using assms(1) by (auto simp: commit_close_def res_simps Let_def)
  from terminate_descendants_of_progress[OF 1 assms(2) _ assms(3)]
  have p1: "progress Map.empty X Y d0 (reject_pending_updates x ?w ''workflow closed'' d1)"
    and e1: "find_execution (reject_pending_updates x ?w ''workflow closed'' d1) ?w = Some e"
    by (auto simp: reject_pending_updates_def intro: update_updates_progress)
  note d2 = cancel_pending_timers_progress[OF 2 p1 e1 assms(4) refl]
  have "progress Map.empty (insert ?w X) Y d0 (update_execution ?w (?f n) d3)"
    by (rule close_execution_progress[OF 3 d2(1) _ assms(4)])
      (use d2(2) e1 assms(4) in \<open>auto simp: same_identity_def execution_check_def\<close>)
  from notify_parent_progress[OF 4 kill_other_tasks_progress[OF this assms(5)]] show ?thesis .
qed


lemma map_update_only: "dom ov \<subseteq> {w} \<Longrightarrow> ov(w \<mapsto> n) = [w \<mapsto> n]"
  by (auto simp: fun_eq_iff)

lemma create_execution_beside:
  assumes "create_execution env x i c attrs d = Inr d'" and "progress [w \<mapsto> n] X Y d0 d"
    and "ex_status c = WfRunning" and "ex_next_seq c = 2" and "find_execution d w = Some e"
  shows "progress [w \<mapsto> n] X Y d0 d'" and "find_execution d' w = Some e"
proof -
  note new = create_execution_progress[OF assms(1-4)]
  have "ex_id c \<noteq> w" using new(3) assms(5) find_execution_None[of d w] by auto
  then have "[w \<mapsto> n](ex_id c := None) = [w \<mapsto> n]" by (auto simp: fun_eq_iff)
  with new(1) show "progress [w \<mapsto> n] X Y d0 d'" by simp
  show "find_execution d' w = Some e" by (rule new(2)[OF assms(5)])
qed

lemma insert_task_beside:
  assumes "insert_task t d = Inr d'" and "progress ov X Y d0 d" and "tk_workflow_id t = w"
    and "find_execution d w = Some e" and "ex_status e = WfRunning"
  shows "progress ov X Y d0 d'" and "find_execution d' w = Some e"
  using insert_task_progress[OF assms(1,2)] insert_task_find[OF assms(1)] assms(3-5)
  by (auto simp: running_def)

lemma append_command_progress:
  assumes "append_command env x w q (i, c) (d, n) = Inr (d', n')" and "progress ov X Y d0 d"
    and "dom ov \<subseteq> {w}" and "find_execution d w = Some e" and "ex_status e = WfRunning"
    and "cursor ov e = n" and "\<not> is_continuation c"
  shows "progress [w \<mapsto> n'] X Y d0 d'" and "find_execution d' w = Some e" and "n' = n + 1"
proof -
  have event: "progress [w \<mapsto> n + 1] X Y d0 d1 \<and> find_execution d1 w = Some e"
    if "insert_event x w n ty cid ent ext attrs d = Inr d1" for ty cid ent ext attrs d1
    using insert_event_progress[OF that assms(2,4,5,6)] insert_event_find[OF that] assms(4)
    by (simp add: map_update_only[OF assms(3)])
  have "n' = n + 1 \<and> progress [w \<mapsto> n + 1] X Y d0 d' \<and> find_execution d' w = Some e"
  proof (cases c)
    case (ScheduleActivity a)
    with assms(1) show ?thesis
      by (auto simp: append_command_def res_simps append_activity_command_def
          dest!: event dest: insert_task_beside[of _ _ _ _ _ _ _ w e] simp: assms(5))
  next
    case (ScheduleTimer t)
    with assms(1) show ?thesis
      by (auto simp: append_command_def res_simps append_timer_command_def
          dest!: event dest: insert_task_beside[of _ _ _ _ _ _ _ w e] simp: assms(5))
  next
    case (RecordMarker m)
    with assms(1) show ?thesis
      by (auto simp: append_command_def res_simps append_marker_command_def dest!: event)
  next
    case (StartChildWorkflow b)
    with assms(1) show ?thesis
      by (auto simp: append_command_def res_simps append_child_workflow_command_def Let_def
          dest!: event dest: create_execution_beside)
  next
    case (ResolveWorkflowUpdate u)
    with assms(1) obtain p f attrs ext where n': "n' = n + 1"
      and 1: "insert_event x w n WorkflowUpdateResolved (Some (ru_command_id u)) None ext attrs
        (update_updates p f d) = Inr d'"
      by (auto simp: append_command_def res_simps append_update_resolution_def Let_def)
    have "find_execution (update_updates p f d) w = Some e" using assms(4) by simp
    from insert_event_progress[OF 1 update_updates_progress[OF assms(2)] this assms(5,6)] n'
      insert_event_find[OF 1] assms(4)
    show ?thesis by (simp add: map_update_only[OF assms(3)])
  next
    case (ContinueAsNew k)
    with assms(7) show ?thesis by simp
  qed
  then show "progress [w \<mapsto> n'] X Y d0 d'" and "find_execution d' w = Some e" and "n' = n + 1" by auto
qed

lemma append_all_progress:
  assumes "foldR (append_command env x w q) (List.enumerate i cs) (d, n) = Inr (d', n')"
    and "progress ov X Y d0 d" and "dom ov \<subseteq> {w}" and "find_execution d w = Some e"
    and "ex_status e = WfRunning" and "cursor ov e = n" and "\<forall>c\<in>set cs. \<not> is_continuation c"
  shows "\<exists>ov'. progress ov' X Y d0 d' \<and> dom ov' \<subseteq> {w} \<and> cursor ov' e = n' \<and> find_execution d' w = Some e"
  using assms
proof (induction cs arbitrary: i d n ov)
  case Nil
  then show ?case by auto
next
  case (Cons c cs)
  obtain d1 n1 where 1: "append_command env x w q (i, c) (d, n) = Inr (d1, n1)"
    and 2: "foldR (append_command env x w q) (List.enumerate (Suc i) cs) (d1, n1) = Inr (d', n')"
    using Cons.prems(1) by (auto simp: res_simps)
  have c: "\<not> is_continuation c" and rest: "\<forall>c\<in>set cs. \<not> is_continuation c"
    using Cons.prems(7) by simp_all
  note step = append_command_progress[OF 1 Cons.prems(2-6) c]
  have id: "ex_id e = w" using find_execution_Some[OF Cons.prems(4)] by simp
  have dom: "dom [w \<mapsto> n1] \<subseteq> {w}" by (simp del: fun_upd_apply)
  show ?case
    by (rule Cons.IH[OF 2 step(1) dom step(2) Cons.prems(5) cursor_simps(2)[OF id] rest])
qed

lemma append_commands_progress:
  assumes "append_commands env x w q n cs d = Inr d'" and "progress Map.empty X Y d0 d"
    and "find_execution d w = Some e" and "ex_status e = WfRunning" and "ex_next_seq e = n"
    and "\<forall>c\<in>set cs. \<not> is_continuation c"
  shows "progress Map.empty X Y d0 d'"
proof -
  obtain d1 n1 d2 where
    1: "foldR (append_command env x w q) (List.enumerate 0 cs) (d, n) = Inr (d1, n1)"
    and 2: "(if list_ex records_marker cs then insert_workflow_task x (tx_uuid x (length cs)) w q d1
      else Inr d1) = Inr d2" and d': "d' = set_next_seq w n1 d2"
    using assms(1) by (auto simp: append_commands_def res_simps)
  obtain ov where ov: "progress ov X Y d0 d1" "dom ov \<subseteq> {w}" "cursor ov e = n1" "find_execution d1 w = Some e"
    using append_all_progress[OF 1 assms(2) _ assms(3,4)] assms(5,6) by auto
  have "progress ov X Y d0 d2 \<and> find_execution d2 w = Some e"
    using 2 ov assms(4) insert_task_beside[of "workflow_task x (tx_uuid x (length cs)) w q" d1 d2 ov X Y d0 w e]
    by (auto simp: insert_workflow_task_def split: if_splits)
  then have "progress (ov(w := None)) X Y d0 d'"
    unfolding d' using set_next_seq_progress[of ov X Y d0 d2 w e n1] ov(3) assms(4) by simp
  moreover have "ov(w := None) = Map.empty" using ov(2) by (auto simp: fun_eq_iff)
  ultimately show ?thesis by simp
qed

lemma commit_continue_as_new_progress:
  assumes "commit_continue_as_new env x w i n c d = Inr d'" and "progress Map.empty X Y d0 d"
    and "find_execution d w = Some e" and "ex_status e = WfRunning" and "ex_next_seq e = n" and "i \<in> Y"
  shows "progress Map.empty X Y d0 d'"
proof -
  let ?f = "\<lambda>e. e\<lparr>ex_status := WfCompleted,
     ex_result := Some (JObj [(''continued_to'', JStr (uuid_str (cn_new_workflow_id c)))]),
     ex_next_seq := n + 2, ex_closed_at := Some (tx_now x),
     ex_continued_to := Some (cn_new_workflow_id c)\<rparr>"
  obtain attrs1 d1 attrs2 d2 r attrs3 d3 where
    1: "insert_event x w n WorkflowExecutionContinuedAsNew (Some (cn_command_id c))
      (Some (cn_new_workflow_id c)) None attrs1 d = Inr d1"
    and 2: "insert_event x w (n + 1) WorkflowExecutionCompleted None None None attrs2 d1 = Inr d2"
    and 3: "create_execution env x (tx_uuid x 0) r attrs3 d2 = Inr d3"
    and r: "ex_status r = WfRunning" "ex_next_seq r = 2" "ex_id r = cn_new_workflow_id c"
    and d': "d' = kill_other_tasks x w i (reject_pending_updates x w ''workflow continued as new''
      (update_execution w ?f d3))"
    using assms(1,3) by (auto simp: commit_continue_as_new_def res_simps Let_def)
  note e1 = event_and_counter_progress[OF 1 assms(2-5)]
  have id: "ex_id e = w" using find_execution_Some[OF assms(3)] by simp
  have p2: "progress [w \<mapsto> n + 2] X Y d0 d2" and e2: "find_execution d2 w = Some e"
    using insert_event_progress[OF 2 e1(1,2) assms(4)] insert_event_find[OF 2] e1(2) id by (simp_all add: add.commute)
  note e3 = create_execution_beside[OF 3 p2 r(1,2) e2]
  have "cn_new_workflow_id c \<noteq> w"
    using create_execution_progress(3)[OF 3 p2 r(1,2)] r(3) e2 find_execution_None[of d2 w] by auto
  then have "progress ([w \<mapsto> n + 2](w := None)) (insert w X) Y d0 (update_execution w ?f d3)"
    using running_check[OF assms(2-4)] assms(4,5) id
    by (intro update_execution_progress[OF progress_weaken[OF e3(1)] e3(2)])
      (auto simp: same_identity_def execution_check_def)
  then have "progress Map.empty (insert w X) Y d0 (update_execution w ?f d3)" by simp
  then show ?thesis
    unfolding d' reject_pending_updates_def
    by (intro kill_other_tasks_progress[OF update_updates_progress] assms(6))
qed

lemma commit_commands_progress:
  assumes "commit_commands env k x task q e cs d = Inr d'" and "progress Map.empty X Y d0 d"
    and "find_execution d (lt_workflow_id task) = Some e" and "ex_status e = WfRunning"
    and "lt_id task \<in> Y"
  shows "progress Map.empty X Y d0 d'"
proof (cases "filter is_continuation cs")
  case Nil
  then have "\<forall>c\<in>set cs. \<not> is_continuation c" by (simp add: filter_empty_conv)
  with Nil assms append_commands_progress[of env x _ q "ex_next_seq e" cs d d'] show ?thesis
    by (auto simp: commit_commands_def split: if_splits)
next
  case (Cons c rest)
  then have "is_continuation c" using filter_eq_ConsD by fastforce
  then obtain k' where c: "c = ContinueAsNew k'" by (cases c) auto
  with Cons assms(1) obtain d1 where 1: "terminate_descendants k x (lt_workflow_id task) d = Inr d1"
    and 2: "commit_continue_as_new env x (lt_workflow_id task) (lt_id task) (ex_next_seq e) k' d1 = Inr d'"
    by (auto simp: commit_commands_def res_simps split: if_splits)
  note d1 = terminate_descendants_of_progress[OF 1 assms(2) _ assms(3)]
  from commit_continue_as_new_progress[OF 2 d1(1) d1(2) assms(4) refl assms(5)] show ?thesis by simp
qed

interpretation commit_tx: transaction "commit_workflow_replay env k x task rr" for env k x task rr
proof
  fix d d' r
  assume ok: "committed d" and op: "commit_workflow_replay env k x task rr d = Inr (d', r)"
  obtain t where t: "List.find (holds_lease x (lt_id task) (lt_lease_token task)) (db_tasks d) = Some t"
    using op by (auto simp: commit_workflow_replay_def res_simps split: if_splits)
  obtain e where e: "find_execution d (lt_workflow_id task) = Some e" and run: "ex_status e = WfRunning"
    using op t by (auto simp: commit_workflow_replay_def res_simps split: if_splits)
  have p: "progress Map.empty {} {lt_id task} d d"
    by (rule progress_weaken[OF committed_progress[OF ok]]) auto
  from op t e run obtain d1 where 1: "(if ex_cancellation_requested_at e \<noteq> None
        \<and> rr_status rr \<in> {COMMANDS, BLOCKED}
      then commit_cancellation k x task e d
      else case rr_status rr of
          COMMANDS \<Rightarrow> commit_commands env k x task (tk_queue_name t) e (rr_commands rr) d
        | COMPLETED \<Rightarrow> commit_close k x task e True (rr_result rr) d
        | FAILED \<Rightarrow> commit_close k x task e False (rr_failure rr) d
        | BLOCKED \<Rightarrow> Inr d) = Inr d1" and 2: "complete_task x task d1 = Inr d'"
    by (auto simp: commit_workflow_replay_def res_simps simp del: insert_iff split: if_splits)
  have "progress Map.empty {} {lt_id task} d d1"
    using 1 p e run commit_cancellation_progress[OF _ p e run]
      commit_commands_progress[OF _ p e run] commit_close_progress[OF _ p e run]
    by (auto split: if_splits replay_status.splits)
  from complete_task_progress(1)[OF 2 this] show "progress Map.empty {} {} d d'" by simp
qed

end
