(* ===== verification/Schedule_Laws.thy ===== *)
theory Schedule_Laws
  imports Transition_Laws Schedules Operations
begin

text \<open>
  What the transactions do to schedules. Most of them leave the schedules, their occurrences and the
  executions that schedules have started alone (locale \<open>schedule_neutral\<close>); the operations on
  schedules keep an invariant that ties started occurrences to executions one to one (locale
  \<open>scheduling\<close>), and meet the general contract of a transaction.
\<close>

section \<open>Transactions that do not touch schedules\<close>

named_theorems view_dest \<open>statements and calls that leave schedules and scheduled executions alone\<close>

text \<open>
  A continuation carries the schedule columns of the execution it continues, so the executions that
  a schedule has started are those that continue no other one.
\<close>

definition from_schedule :: "execution_row \<Rightarrow> bool" where
  "from_schedule e \<longleftrightarrow> ex_schedule_id e \<noteq> None \<and> ex_continued_from e = None"

definition sched_view ::
  "db \<Rightarrow> schedule_row list \<times> occurrence_row list \<times> (uuid \<times> uuid option \<times> timestamp option) list" where
  "sched_view d = (db_schedules d, db_occurrences d,
     map (\<lambda>e. (ex_id e, ex_schedule_id e, ex_scheduled_at e)) (filter from_schedule (db_executions d)))"

locale schedule_neutral =
  fixes op :: "'a txn"
  assumes same_schedules: "op d = Inr (d', r) \<Longrightarrow> sched_view d' = sched_view d"

lemma insert_event_view [view_dest]:
  "insert_event x w n ty c e ext attrs d = Inr d' \<Longrightarrow> sched_view d' = sched_view d"
  by (auto simp: sched_view_def insert_event_def insert_history_def res_simps)

lemma insert_task_view [view_dest]: "insert_task t d = Inr d' \<Longrightarrow> sched_view d' = sched_view d"
  by (auto simp: sched_view_def insert_task_def res_simps)

lemma insert_workflow_task_view [view_dest]:
  "insert_workflow_task x i w q d = Inr d' \<Longrightarrow> sched_view d' = sched_view d"
  by (simp add: insert_workflow_task_def insert_task_view)

lemma insert_update_view [view_dest]: "insert_update u d = Inr d' \<Longrightarrow> sched_view d' = sched_view d"
  by (auto simp: sched_view_def insert_update_def res_simps)

lemma record_api_audit_view [view_dest]:
  "record_api_audit x a w acc det d = Inr d' \<Longrightarrow> sched_view d' = sched_view d"
  by (auto simp: sched_view_def record_api_audit_def res_simps split: option.splits)

lemma update_view [simp]:
  "sched_view (update_tasks p f d) = sched_view d"
  "sched_view (update_updates q g d) = sched_view d"
  "sched_view (kill_tasks x w d) = sched_view d"
  "sched_view (kill_other_tasks x w i d) = sched_view d"
  "sched_view (d\<lparr>db_definitions := ds\<rparr>) = sched_view d"
  "sched_view (d\<lparr>db_effects := es\<rparr>) = sched_view d"
  by (simp_all add: sched_view_def update_tasks_def update_updates_def kill_tasks_def kill_other_tasks_def)

lemma update_execution_view [simp]:
  assumes "\<And>e. ex_id (f e) = ex_id e \<and> ex_schedule_id (f e) = ex_schedule_id e
    \<and> ex_scheduled_at (f e) = ex_scheduled_at e \<and> ex_continued_from (f e) = ex_continued_from e"
  shows "sched_view (update_execution w f d) = sched_view d"
proof -
  have "map (\<lambda>e. (ex_id e, ex_schedule_id e, ex_scheduled_at e))
      (filter from_schedule (map (\<lambda>e. if ex_id e = w then f e else e) es))
    = map (\<lambda>e. (ex_id e, ex_schedule_id e, ex_scheduled_at e)) (filter from_schedule es)" for es
    by (induction es) (use assms in \<open>auto simp: from_schedule_def\<close>)
  then show ?thesis by (simp add: sched_view_def update_execution_def update_executions_def)
qed

lemma set_next_seq_view [simp]: "sched_view (set_next_seq w n d) = sched_view d"
  by (simp add: set_next_seq_def)

lemma insert_execution_view:
  "insert_execution env e d = Inr d' \<Longrightarrow> \<not> from_schedule e \<Longrightarrow> sched_view d' = sched_view d"
  by (simp add: insert_execution_def res_simps sched_view_def)

lemma create_execution_view:
  "create_execution env x i e attrs d = Inr d' \<Longrightarrow> \<not> from_schedule e \<Longrightarrow> sched_view d' = sched_view d"
  by (auto simp: create_execution_def res_simps dest!: view_dest insert_execution_view)

lemma foldR_view:
  "foldR f xs d = Inr d' \<Longrightarrow> (\<And>x d d'. f x d = Inr d' \<Longrightarrow> sched_view d' = sched_view d)
    \<Longrightarrow> sched_view d' = sched_view d"
  by (induction xs arbitrary: d) (auto simp: res_simps)

lemmas view_split = if_splits option.splits

interpretation signal_view: schedule_neutral "send_signal x w i n p a" for x w i n p a
  by unfold_locales (auto simp: send_signal_def res_simps dest!: view_dest split: view_split)

interpretation update_view: schedule_neutral "send_update x w i n p a" for x w i n p a
  by unfold_locales (auto simp: send_update_def Let_def res_simps dest!: view_dest split: view_split)

interpretation effect_view: schedule_neutral "record_idempotent_effect x k p" for x k p
  by unfold_locales (auto simp: record_idempotent_effect_def res_simps split: view_split)

interpretation register_view: schedule_neutral "register_workflow_definition n v h" for n v h
  by unfold_locales (auto simp: register_workflow_definition_def Let_def res_simps split: view_split)

interpretation timer_view: schedule_neutral "fire_due_timer env x q c" for env x q c
  by unfold_locales (auto simp: fire_due_timer_def Let_def res_simps dest!: view_dest split: view_split)

interpretation timeout_view: schedule_neutral "process_activity_timeout env x q rv" for env x q rv
  by unfold_locales (auto simp: process_activity_timeout_def Let_def res_simps dest!: view_dest split: view_split)

lemma complete_task_view [view_dest]: "complete_task x task d = Inr d' \<Longrightarrow> sched_view d' = sched_view d"
  by (auto simp: complete_task_def split: if_splits)

interpretation complete_view: schedule_neutral "complete_activity x task v" for x task v
  by unfold_locales (auto simp: complete_activity_def Let_def res_simps dest!: view_dest split: view_split)

interpretation fail_view: schedule_neutral "fail_activity env x task v rv" for env x task v rv
  by unfold_locales (auto simp: fail_activity_def Let_def res_simps dest!: view_dest split: view_split)

interpretation pause_view: schedule_neutral "pause_workflow x w reason a" for x w reason a
  by unfold_locales (auto simp: pause_workflow_def duplicate_request_def Let_def res_simps
      dest!: view_dest split: view_split)

interpretation resume_view: schedule_neutral "resume_workflow env x w reason a" for env x w reason a
  by unfold_locales (auto simp: resume_workflow_def duplicate_request_def Let_def res_simps
      dest!: view_dest split: view_split)

interpretation cancel_view: schedule_neutral "request_workflow_cancellation x w reason a" for x w reason a
  by unfold_locales (auto simp: request_workflow_cancellation_def duplicate_request_def Let_def res_simps
      dest!: view_dest split: view_split)

interpretation attributes_view: schedule_neutral "update_search_attributes env x w attrs unset a"
  for env x w attrs unset a
  by unfold_locales (auto simp: update_search_attributes_def Let_def res_simps
      dest!: view_dest split: view_split)

lemma new_execution_unscheduled [simp]: "ex_schedule_id (new_execution w n v i q t a) = None"
  by (simp add: new_execution_def)

lemma not_from_schedule:
  "ex_schedule_id e = None \<Longrightarrow> \<not> from_schedule e" "ex_continued_from e = Some w \<Longrightarrow> \<not> from_schedule e"
  by (simp_all add: from_schedule_def)

interpretation start_view: schedule_neutral "start_workflow env x n v i q w attrs ro a"
  for env x n v i q w attrs ro a
proof
  fix d d' r
  assume "start_workflow env x n v i q w attrs ro a d = Inr (d', r)"
  then obtain e ats d1 det where "create_execution env x (tx_uuid x 1) e ats d = Inr d1"
    and "ex_schedule_id e = None" and "record_api_audit x a (Some r) True det d1 = Inr d'"
    by (fastforce simp: start_workflow_def res_simps Let_def)
  then show "sched_view d' = sched_view d"
    using create_execution_view not_from_schedule(1) record_api_audit_view by metis
qed

interpretation retry_view: schedule_neutral "retry_workflow env x w a d0" for env x w a d0
  by unfold_locales (auto simp: retry_workflow_def split: view_split intro: start_view.same_schedules)

interpretation renew_view: schedule_neutral "renew_lease env x i tok dur" for env x i tok dur
  by unfold_locales (auto simp: renew_lease_def Let_def res_simps split: view_split)

interpretation heartbeat_view: schedule_neutral "heartbeat_activity env x i tok det dur" for env x i tok det dur
  by unfold_locales (auto simp: heartbeat_activity_def Let_def res_simps split: view_split)

interpretation release_view: schedule_neutral "release_workflow_task env x task delay" for env x task delay
  by unfold_locales (auto simp: release_workflow_task_def Let_def res_simps split: view_split)

interpretation reclaim_view: schedule_neutral "reclaim_expired_workflow_tasks x limit" for x limit
  by unfold_locales (auto simp: reclaim_expired_workflow_tasks_def Let_def res_simps split: view_split)

interpretation lease_view: schedule_neutral "lease_task env x ty q dur" for env x ty q dur
  by unfold_locales (auto simp: lease_task_def Let_def res_simps dest!: view_dest split: view_split)

lemma cancel_timer_view: "cancel_timer x w reason t s = Inr s' \<Longrightarrow> sched_view (fst s') = sched_view (fst s)"
  by (auto simp: cancel_timer_def Let_def res_simps split_beta dest!: view_dest split: if_splits)

lemma cancel_pending_timers_view [view_dest]:
  "cancel_pending_timers x w n reason d = Inr (d', n') \<Longrightarrow> sched_view d' = sched_view d"
  unfolding cancel_pending_timers_def
  by (drule foldR_invariant[where P = "\<lambda>s. sched_view (fst s) = sched_view d"])
    (auto dest: cancel_timer_view)

lemma reject_pending_updates_view [simp]: "sched_view (reject_pending_updates x w reason d) = sched_view d"
  by (simp add: reject_pending_updates_def)

lemma terminate_child_view [view_dest]: "terminate_child x c d = Inr d' \<Longrightarrow> sched_view d' = sched_view d"
  by (auto simp: terminate_child_def res_simps dest!: view_dest)

lemma terminate_descendants_view [view_dest]:
  "terminate_descendants k x p d = Inr d' \<Longrightarrow> sched_view d' = sched_view d"
proof (induction k arbitrary: p d d')
  case (Suc k)
  then have "foldR (\<lambda>c d. bindR (terminate_descendants k x (ex_id c) d) (terminate_child x c))
      (running_children p d) d = Inr d'" by simp
  then show ?case by (rule foldR_view) (auto simp: res_simps dest!: Suc.IH view_dest)
qed simp

lemma notify_parent_view [view_dest]:
  "notify_parent_of_child_terminal x i c p s v d = Inr d' \<Longrightarrow> sched_view d' = sched_view d"
  by (auto simp: notify_parent_of_child_terminal_def res_simps dest!: view_dest split: view_split)

interpretation worker_view: schedule_neutral "heartbeat_worker x w h p q roles" for x w h p q roles
  by unfold_locales (auto simp: sched_view_def dest: heartbeat_worker_Inr)

interpretation stop_worker_view: schedule_neutral "stop_worker x w" for x w
  by unfold_locales (auto simp: stop_worker_def sched_view_def)

interpretation worker_tx: transaction "heartbeat_worker x w h p q roles" for x w h p q roles
proof
  fix d d' r
  assume "committed d" and "heartbeat_worker x w h p q roles d = Inr (d', r)"
  then show "progress Map.empty {} {} d d'"
    by (intro progress_frame[OF committed_progress[of d]]) (auto dest: heartbeat_worker_Inr)
qed

interpretation stop_worker_tx: transaction "stop_worker x w" for x w
proof
  fix d d' r
  assume "committed d" and "stop_worker x w d = Inr (d', r)"
  then show "progress Map.empty {} {} d d'"
    by (intro progress_frame[OF committed_progress[of d]]) (auto simp: stop_worker_def)
qed

interpretation terminate_view: schedule_neutral "terminate_workflow k x w reason a" for k x w reason a
  by unfold_locales (auto simp: terminate_workflow_def duplicate_request_def Let_def res_simps
      dest!: view_dest split: view_split)

lemma append_command_view:
  assumes "append_command env x w q ic s = Inr s'"
  shows "sched_view (fst s') = sched_view (fst s)"
  using assms
  by (cases "snd ic")
    (auto simp: append_command_def append_activity_command_def append_timer_command_def
      append_marker_command_def append_child_workflow_command_def append_update_resolution_def
      Let_def res_simps split_beta not_from_schedule dest!: view_dest create_execution_view split: view_split)

lemma append_commands_view [view_dest]:
  assumes "append_commands env x w q n cs d = Inr d'"
  shows "sched_view d' = sched_view d"
proof -
  obtain d1 n1 where 1: "foldR (append_command env x w q) (List.enumerate 0 cs) (d, n) = Inr (d1, n1)"
    and 2: "sched_view d' = sched_view d1"
    using assms by (auto simp: append_commands_def res_simps dest!: view_dest split: if_splits)
  have "sched_view (fst (d1, n1)) = sched_view d"
    by (rule foldR_invariant[OF 1, where P = "\<lambda>s. sched_view (fst s) = sched_view d"])
      (auto dest: append_command_view)
  with 2 show ?thesis by simp
qed

lemma commit_continue_as_new_view [view_dest]:
  assumes "commit_continue_as_new env x w t n c d = Inr d'"
  shows "sched_view d' = sched_view d"
  using assms
  by (auto simp: commit_continue_as_new_def Let_def res_simps not_from_schedule
      dest!: view_dest create_execution_view split: view_split)

lemma commit_cancellation_view [view_dest]:
  "commit_cancellation k x task e d = Inr d' \<Longrightarrow> sched_view d' = sched_view d"
  by (auto simp: commit_cancellation_def Let_def res_simps dest!: view_dest)

lemma commit_commands_view [view_dest]:
  assumes "commit_commands env k x task q e cs d = Inr d'"
  shows "sched_view d' = sched_view d"
proof (cases "filter is_continuation cs")
  case Nil
  with assms show ?thesis by (auto simp: commit_commands_def dest: view_dest split: if_splits)
next
  case (Cons c rest)
  with assms show ?thesis
    by (cases c) (auto simp: commit_commands_def res_simps dest!: view_dest split: if_splits)
qed

lemma commit_close_view [view_dest]:
  "commit_close k x task e b v d = Inr d' \<Longrightarrow> sched_view d' = sched_view d"
  by (auto simp: commit_close_def Let_def res_simps dest!: view_dest)

interpretation commit_view: schedule_neutral "commit_workflow_replay env k x task rr" for env k x task rr
  by unfold_locales (auto simp: commit_workflow_replay_def res_simps dest!: view_dest
      split: view_split replay_status.splits simp del: insert_iff)

section \<open>The invariant of schedules\<close>

definition occurrence_key :: "occurrence_row \<Rightarrow> uuid \<times> timestamp" where
  "occurrence_key r = (oc_schedule_id r, oc_scheduled_at r)"

definition occurrence_entries :: "occurrence_row \<Rightarrow> (uuid \<times> uuid option \<times> timestamp option) set" where
  "occurrence_entries r =
     (case oc_workflow_id r of None \<Rightarrow> {}
      | Some w \<Rightarrow> {(w, Some (oc_schedule_id r), Some (oc_scheduled_at r))})"

text \<open>
  Every occurrence belongs to a schedule and is recorded once; a schedule has at most one buffered
  occurrence; and the executions that schedules have started are exactly those of the occurrences
  marked as started.
\<close>

fun view_ok ::
  "schedule_row list \<times> occurrence_row list \<times> (uuid \<times> uuid option \<times> timestamp option) list \<Rightarrow> bool" where
  "view_ok (ss, os, vs) \<longleftrightarrow>
     distinct (map sd_id ss) \<and> distinct (map occurrence_key os)
     \<and> (\<forall>r\<in>set os. occurrence_check r \<and> oc_schedule_id r \<in> sd_id ` set ss)
     \<and> (\<forall>r\<in>set os. \<forall>r'\<in>set os. oc_status r = OcBuffered \<longrightarrow> oc_status r' = OcBuffered
          \<longrightarrow> oc_schedule_id r = oc_schedule_id r' \<longrightarrow> r = r')
     \<and> set vs = (\<Union>r\<in>set os. occurrence_entries r)"

definition schedule_ok :: "db \<Rightarrow> bool" where
  "schedule_ok d \<longleftrightarrow> view_ok (sched_view d)"

locale scheduling =
  fixes op :: "'a txn"
  assumes keeps_schedules: "schedule_ok d \<Longrightarrow> op d = Inr (d', r) \<Longrightarrow> schedule_ok d'"

sublocale schedule_neutral \<subseteq> scheduling op
  by unfold_locales (simp add: schedule_ok_def same_schedules)

lemma record_api_audit_ok: "record_api_audit x a w acc det d = Inr d' \<Longrightarrow> schedule_ok d \<Longrightarrow> schedule_ok d'"
  by (simp add: schedule_ok_def record_api_audit_view)

lemma map_sum_Inr_iff: "map_sum f g r = Inr y \<longleftrightarrow> (\<exists>v. r = Inr v \<and> y = g v)"
  by (cases r) auto

lemma schedule_exists_iff: "schedule_exists d i \<longleftrightarrow> i \<in> sd_id ` set (db_schedules d)"
  by (auto simp: schedule_exists_def list_ex_iff)

lemma insert_schedule_ok:
  assumes "insert_schedule env s d = Inr d'" and "schedule_ok d"
  shows "schedule_ok d'"
proof -
  have "d' = d\<lparr>db_schedules := db_schedules d @ [s]\<rparr>" and "sd_id s \<notin> sd_id ` set (db_schedules d)"
    using assms(1) by (auto simp: insert_schedule_def res_simps schedule_exists_iff)
  with assms(2) show ?thesis by (simp add: schedule_ok_def sched_view_def)
qed

lemma update_schedule_ok:
  assumes "\<And>s. sd_id (f s) = sd_id s" and "schedule_ok d"
  shows "schedule_ok (update_schedule i f d)"
proof -
  let ?g = "\<lambda>s. if sd_id s = i then f s else s"
  have ids: "map sd_id (map ?g ss) = map sd_id ss" for ss
    using assms(1) by simp
  have "sd_id ` set (map ?g ss) = sd_id ` set ss" for ss
    unfolding list.set_map[symmetric] ids ..
  with assms(2) ids show ?thesis
    by (simp add: schedule_ok_def sched_view_def update_schedule_def del: list.set_map map_map)
qed

text \<open>Recording one more occurrence, together with the execution it started if there is one.\<close>

lemma view_ok_append:
  assumes "view_ok (ss, os, vs)" and "oc_schedule_id r \<in> sd_id ` set ss"
    and "occurrence_key r \<notin> occurrence_key ` set os" and "occurrence_check r"
    and "\<And>o'. oc_status r = OcBuffered \<Longrightarrow> o' \<in> set os \<Longrightarrow> oc_status o' = OcBuffered \<Longrightarrow>
      oc_schedule_id o' \<noteq> oc_schedule_id r"
    and "set us = occurrence_entries r"
  shows "view_ok (ss, os @ [r], vs @ us)"
proof -
  have "\<forall>a\<in>set (os @ [r]). \<forall>b\<in>set (os @ [r]). oc_status a = OcBuffered \<longrightarrow> oc_status b = OcBuffered
      \<longrightarrow> oc_schedule_id a = oc_schedule_id b \<longrightarrow> a = b"
    using assms(1,5) by fastforce
  moreover have "set (vs @ us) = (\<Union>r\<in>set (os @ [r]). occurrence_entries r)"
    using assms(1,6) by auto
  ultimately show ?thesis using assms(1-4) by simp
qed

lemma insert_occurrence_checks:
  assumes "insert_occurrence r d = Inr d'"
  shows "d' = d\<lparr>db_occurrences := db_occurrences d @ [r]\<rparr>"
    and "oc_schedule_id r \<in> sd_id ` set (db_schedules d)"
    and "occurrence_key r \<notin> occurrence_key ` set (db_occurrences d)" and "occurrence_check r"
    and "\<And>o'. oc_status r = OcBuffered \<Longrightarrow> o' \<in> set (db_occurrences d) \<Longrightarrow> oc_status o' = OcBuffered
      \<Longrightarrow> oc_schedule_id o' \<noteq> oc_schedule_id r"
  using assms
  by (auto simp: insert_occurrence_def res_simps list_all_iff occurrence_key_def schedule_exists_iff)

lemma insert_occurrence_ok:
  assumes "insert_occurrence r d = Inr d'" and "oc_workflow_id r = None" and "schedule_ok d"
  shows "schedule_ok d'"
proof -
  note c = insert_occurrence_checks[OF assms(1)]
  have "view_ok (db_schedules d, db_occurrences d @ [r], snd (snd (sched_view d)) @ [])"
    by (rule view_ok_append[OF _ c(2-5)])
      (use assms(2,3) in \<open>simp_all add: schedule_ok_def sched_view_def occurrence_entries_def\<close>)
  then show ?thesis by (simp add: schedule_ok_def sched_view_def c(1))
qed

text \<open>Starting the buffered occurrence of a schedule.\<close>

lemma view_ok_start_buffered:
  fixes w :: uuid
  assumes "view_ok (ss, os, vs)" and "r0 \<in> set os" and "oc_status r0 = OcBuffered"
    and "occurrence_key r0 = (i, t)"
  defines "g \<equiv> \<lambda>r. if oc_schedule_id r = i \<and> oc_scheduled_at r = t \<and> oc_status r = OcBuffered
      then r\<lparr>oc_status := OcStarted, oc_workflow_id := Some w, oc_reason := None\<rparr> else r"
  shows "view_ok (ss, map g os, vs @ [(w, Some i, Some t)])"
proof -
  have keys: "occurrence_key (g r) = occurrence_key r" "oc_schedule_id (g r) = oc_schedule_id r" for r
    by (simp_all add: g_def occurrence_key_def)
  have buf: "oc_status (g r) = OcBuffered \<Longrightarrow> g r = r" for r by (auto simp: g_def split: if_splits)
  have chk: "occurrence_check r \<Longrightarrow> occurrence_check (g r)" for r by (simp add: g_def occurrence_check_def)
  have ents: "occurrence_entries (g r) = (if g r = r then occurrence_entries r else {(w, Some i, Some t)})" for r
    by (cases "g r = r") (auto simp: g_def occurrence_entries_def split: if_splits)
  have none: "occurrence_entries r = {}" if "r \<in> set os" "g r \<noteq> r" for r
  proof -
    have "oc_status r = OcBuffered" using that(2) by (auto simp: g_def split: if_splits)
    moreover have "occurrence_check r" using assms(1) that(1) by simp
    ultimately show ?thesis by (simp add: occurrence_check_def occurrence_entries_def)
  qed
  have "oc_status (g r0) = OcStarted" using assms(3,4) by (simp add: g_def occurrence_key_def)
  then have "g r0 \<noteq> r0" using assms(3) by auto
  then have "(\<Union>r\<in>set (map g os). occurrence_entries r)
      = insert (w, Some i, Some t) (\<Union>r\<in>set os. occurrence_entries r)"
    using assms(2) none by (auto simp: ents split: if_splits)
  moreover have "\<forall>a\<in>set (map g os). \<forall>b\<in>set (map g os). oc_status a = OcBuffered \<longrightarrow>
      oc_status b = OcBuffered \<longrightarrow> oc_schedule_id a = oc_schedule_id b \<longrightarrow> a = b"
    using assms(1) buf by (auto simp: image_iff) metis
  moreover have "distinct (map occurrence_key (map g os))"
    using assms(1) by (simp add: keys comp_def)
  moreover have "\<forall>r\<in>set (map g os). occurrence_check r \<and> oc_schedule_id r \<in> sd_id ` set ss"
    using assms(1) chk keys by auto
  ultimately show ?thesis using assms(1) by simp
qed

lemma record_occurrence_ok:
  assumes "record_occurrence x i t w b d = Inr d'" and "schedule_ok d0"
    and "sched_view d = (db_schedules d0, db_occurrences d0, snd (snd (sched_view d0)) @ [(w, Some i, Some t)])"
    and "b \<Longrightarrow> \<exists>r\<in>set (db_occurrences d0). oc_status r = OcBuffered \<and> occurrence_key r = (i, t)"
  shows "schedule_ok d'"
proof -
  have ok: "view_ok (db_schedules d0, db_occurrences d0, snd (snd (sched_view d0)))"
    using assms(2) by (simp add: schedule_ok_def sched_view_def)
  have same: "db_schedules d = db_schedules d0" "db_occurrences d = db_occurrences d0"
    using assms(3) by (simp_all add: sched_view_def)
  show ?thesis
  proof (cases b)
    case False
    with assms(1) obtain r where r: "insert_occurrence r d = Inr d'" "oc_status r = OcStarted"
      "occurrence_entries r = set [(w, Some i, Some t)]"
      by (auto simp: record_occurrence_def occurrence_entries_def)
    note c = insert_occurrence_checks[OF r(1), unfolded same]
    from view_ok_append[OF ok c(2-4) _ r(3)[symmetric]] r(2) assms(3) same show ?thesis
      by (simp add: schedule_ok_def sched_view_def c(1))
  next
    case True
    then obtain r0 where "r0 \<in> set (db_occurrences d0)" "oc_status r0 = OcBuffered" "occurrence_key r0 = (i, t)"
      using assms(4) by blast
    note view = view_ok_start_buffered[OF ok this, of w]
    have "d' = update_occurrences
        (\<lambda>r. oc_schedule_id r = i \<and> oc_scheduled_at r = t \<and> oc_status r = OcBuffered)
        (\<lambda>r. r\<lparr>oc_status := OcStarted, oc_workflow_id := Some w, oc_reason := None\<rparr>) d"
      using True assms(1) by (simp add: record_occurrence_def)
    then have "db_schedules d' = db_schedules d" "db_executions d' = db_executions d"
      "db_occurrences d' = map (\<lambda>r. if oc_schedule_id r = i \<and> oc_scheduled_at r = t \<and> oc_status r = OcBuffered
         then r\<lparr>oc_status := OcStarted, oc_workflow_id := Some w, oc_reason := None\<rparr> else r) (db_occurrences d)"
      by (simp_all add: update_occurrences_def)
    moreover have "snd (snd (sched_view d)) = snd (snd (sched_view d0)) @ [(w, Some i, Some t)]"
      using assms(3) by simp
    ultimately have "sched_view d' = (db_schedules d0, map (\<lambda>r. if oc_schedule_id r = i
        \<and> oc_scheduled_at r = t \<and> oc_status r = OcBuffered
         then r\<lparr>oc_status := OcStarted, oc_workflow_id := Some w, oc_reason := None\<rparr> else r) (db_occurrences d0),
        snd (snd (sched_view d0)) @ [(w, Some i, Some t)])"
      using same by (simp only: sched_view_def snd_conv)
    with view show ?thesis by (simp only: schedule_ok_def)
  qed
qed

subsection \<open>Starting an occurrence\<close>

lemma occurrence_execution_simps [simp]:
  "ex_id (occurrence_execution env w t s u) = w"
  "ex_status (occurrence_execution env w t s u) = WfRunning"
  "ex_next_seq (occurrence_execution env w t s u) = 2"
  "ex_schedule_id (occurrence_execution env w t s u) = Some (sd_id s)"
  "ex_scheduled_at (occurrence_execution env w t s u) = Some u"
  "from_schedule (occurrence_execution env w t s u)"
  by (simp_all add: occurrence_execution_def from_schedule_def new_execution_def)

lemma create_scheduled_view:
  assumes "create_execution env x i e attrs d = Inr d'" and "from_schedule e"
  shows "sched_view d' = (db_schedules d, db_occurrences d,
    snd (snd (sched_view d)) @ [(ex_id e, ex_schedule_id e, ex_scheduled_at e)])"
proof -
  obtain d1 where 1: "insert_execution env e d = Inr d1" and "sched_view d' = sched_view d1"
    using assms(1) by (auto simp: create_execution_def res_simps dest!: view_dest)
  moreover have "sched_view d1 = (db_schedules d, db_occurrences d,
      snd (snd (sched_view d)) @ [(ex_id e, ex_schedule_id e, ex_scheduled_at e)])"
    using 1 assms(2) by (simp add: insert_execution_def res_simps sched_view_def)
  ultimately show ?thesis by simp
qed

lemma start_occurrence_cases:
  assumes "start_occurrence env x i j s t b d = Inr d'"
  obtains attrs d1 where
    "create_execution env x (tx_uuid x (i + 1)) (occurrence_execution env (tx_uuid x i) (tx_clock x j) s t) attrs d
      = Inr d1"
    and "record_occurrence x (sd_id s) t (tx_uuid x i) b d1 = Inr d'"
  using assms by (auto simp: start_occurrence_def Let_def res_simps)

lemma start_occurrence_ok:
  assumes "start_occurrence env x i j s t b d = Inr d'" and "schedule_ok d"
    and "b \<Longrightarrow> \<exists>r\<in>set (db_occurrences d). oc_status r = OcBuffered \<and> occurrence_key r = (sd_id s, t)"
  shows "schedule_ok d'"
proof -
  obtain attrs d1 where 1: "create_execution env x (tx_uuid x (i + 1))
      (occurrence_execution env (tx_uuid x i) (tx_clock x j) s t) attrs d = Inr d1"
    and 2: "record_occurrence x (sd_id s) t (tx_uuid x i) b d1 = Inr d'"
    by (rule start_occurrence_cases[OF assms(1)])
  from record_occurrence_ok[OF 2 assms(2) _ assms(3)] create_scheduled_view[OF 1] show ?thesis by simp
qed

lemma schedule_statements_progress:
  "insert_schedule env s d = Inr d' \<Longrightarrow> progress ov X Y d0 d \<Longrightarrow> progress ov X Y d0 d'"
  "insert_occurrence r d = Inr d' \<Longrightarrow> progress ov X Y d0 d \<Longrightarrow> progress ov X Y d0 d'"
  "progress ov X Y d0 d \<Longrightarrow> progress ov X Y d0 (update_schedule i f d)"
  "progress ov X Y d0 d \<Longrightarrow> progress ov X Y d0 (update_occurrences p g d)"
  by (rule progress_frame, assumption;
      auto simp: insert_schedule_def insert_occurrence_def update_schedule_def update_occurrences_def res_simps)+

lemma record_occurrence_progress:
  "record_occurrence x i t w b d = Inr d' \<Longrightarrow> progress ov X Y d0 d \<Longrightarrow> progress ov X Y d0 d'"
  by (auto simp: record_occurrence_def intro: schedule_statements_progress split: if_splits)

lemma start_occurrence_progress:
  assumes "start_occurrence env x i j s t b d = Inr d'" and "progress Map.empty X Y d0 d"
  shows "progress Map.empty X Y d0 d'"
proof -
  obtain attrs d1 where 1: "create_execution env x (tx_uuid x (i + 1))
      (occurrence_execution env (tx_uuid x i) (tx_clock x j) s t) attrs d = Inr d1"
    and 2: "record_occurrence x (sd_id s) t (tx_uuid x i) b d1 = Inr d'"
    by (rule start_occurrence_cases[OF assms(1)])
  have "progress (Map.empty(tx_uuid x i := None)) X Y d0 d1"
    using create_execution_progress(1)[OF 1 assms(2)] by simp
  with record_occurrence_progress[OF 2] show ?thesis by simp
qed

section \<open>The operations on schedules\<close>

interpretation create_schedule_tx:
  transaction "create_schedule env zs x n wt v i c tz q sa op clk a" for env zs x n wt v i c tz q sa op clk a
proof
  fix d d' r
  assume ok: "committed d" and "create_schedule env zs x n wt v i c tz q sa op clk a d = Inr (d', r)"
  then obtain s d1 det where "insert_schedule env s d = Inr d1" "record_api_audit x a None True det d1 = Inr d'"
    by (auto simp: create_schedule_def Let_def res_simps)
  with committed_progress[OF ok] show "progress Map.empty {} {} d d'"
    by (blast intro: schedule_statements_progress(1) record_api_audit_progress)
qed

interpretation create_schedule_view:
  scheduling "create_schedule env zs x n wt v i c tz q sa op clk a" for env zs x n wt v i c tz q sa op clk a
proof
  fix d d' r
  assume ok: "schedule_ok d" and "create_schedule env zs x n wt v i c tz q sa op clk a d = Inr (d', r)"
  then obtain s d1 det where "insert_schedule env s d = Inr d1" "record_api_audit x a None True det d1 = Inr d'"
    by (auto simp: create_schedule_def Let_def res_simps)
  with insert_schedule_ok[OF _ ok] record_api_audit_view show "schedule_ok d'"
    by (metis schedule_ok_def)
qed

interpretation pause_schedule_tx: transaction "set_schedule_paused zs x i p clk a" for zs x i p clk a
proof
  fix d d' r
  assume ok: "committed d" and "set_schedule_paused zs x i p clk a d = Inr (d', r)"
  then obtain f b det d1 where "record_api_audit x a None b det d1 = Inr d'" "d1 = d \<or> d1 = update_schedule i f d"
    by (auto simp: set_schedule_paused_def Let_def res_simps split: option.splits if_splits)
  with committed_progress[OF ok] show "progress Map.empty {} {} d d'"
    by (blast intro: schedule_statements_progress(3) record_api_audit_progress)
qed

interpretation pause_schedule_view: scheduling "set_schedule_paused zs x i p clk a" for zs x i p clk a
proof
  fix d d' r
  assume ok: "schedule_ok d" and "set_schedule_paused zs x i p clk a d = Inr (d', r)"
  then show "schedule_ok d'"
    by (auto simp: set_schedule_paused_def Let_def res_simps elim!: record_api_audit_ok
        intro!: update_schedule_ok split: option.splits if_splits)
qed

lemma due_overlapped [simp]: "oc_workflow_id (overlapped_occurrence x s d) = None"
  by (simp add: overlapped_occurrence_def Let_def)

lemma materialize_occurrence_steps:
  assumes "materialize_occurrence env x j s d = Inr d'"
  shows "progress Map.empty {} {} d0 d \<Longrightarrow> progress Map.empty {} {} d0 d'"
    and "schedule_ok d \<Longrightarrow> schedule_ok d'"
  using assms
  by (auto simp: materialize_occurrence_def intro: schedule_statements_progress(2) start_occurrence_progress
      insert_occurrence_ok start_occurrence_ok split: if_splits)

lemma buffered_candidate_Some:
  assumes "buffered_candidate x d = Some (s, r)"
  shows "r \<in> set (db_occurrences d)" and "s \<in> set (db_schedules d)" and "oc_status r = OcBuffered"
    and "occurrence_key r = (sd_id s, oc_scheduled_at r)" and "sd_paused_at s = None"
    and "\<not> schedule_active d (sd_id s)"
  using select_first_Some(1,2)[OF assms[unfolded buffered_candidate_def]]
  by (auto simp: occurrence_join_def occurrence_key_def)

lemma materialize_cases:
  assumes "materialize_due_schedule env zs x clk d = Inr (d', b)"
  obtains (idle) "d' = d" "\<not> b" 
  | (buffered) s r j where "b" "buffered_candidate x d = Some (s, r)"
      "start_occurrence env x 0 j s (oc_scheduled_at r) True d = Inr d'"
  | (due) s now n j d1 where "b" "buffered_candidate x d = None" "due_schedule x now d = Some s"
      "next_cron_time zs (sd_cron_expression s) (Aware (sd_next_run_at s)) (sd_timezone s) = Inr n"
      "materialize_occurrence env x j s d = Inr d1"
      "d' = update_schedule (sd_id s) (\<lambda>r. r\<lparr>sd_next_run_at := n,
          sd_last_run_at := Some (sd_next_run_at s), sd_updated_at := now\<rparr>) d1"
  using assms
  by (auto simp: materialize_due_schedule_def cron_txn_def Let_def res_simps map_sum_Inr_iff
      split: option.splits)

interpretation materialize_tx: transaction "materialize_due_schedule env zs x clk" for env zs x clk
proof
  fix d d' r
  assume ok: "committed d" and op: "materialize_due_schedule env zs x clk d = Inr (d', r)"
  note p = committed_progress[OF ok]
  from op show "progress Map.empty {} {} d d'"
    by (cases rule: materialize_cases) (auto intro: p start_occurrence_progress schedule_statements_progress(3)
        materialize_occurrence_steps(1))
qed

interpretation materialize_view: scheduling "materialize_due_schedule env zs x clk" for env zs x clk
proof
  fix d d' r
  assume ok: "schedule_ok d" and op: "materialize_due_schedule env zs x clk d = Inr (d', r)"
  from op show "schedule_ok d'"
  proof (cases rule: materialize_cases)
    case (buffered s r j)
    with buffered_candidate_Some[OF buffered(2)] show ?thesis
      by (intro start_occurrence_ok[OF buffered(3) ok]) auto
  next
    case (due s now n j d1)
    then show ?thesis by (auto intro!: update_schedule_ok materialize_occurrence_steps(2)[OF due(5) ok])
  qed (use ok in simp)
qed

lemma backfill_one_steps:
  assumes "backfill_one env x s t st = Inr st'"
  shows "progress Map.empty {} {} d0 (fst st) \<Longrightarrow> progress Map.empty {} {} d0 (fst st')"
    and "schedule_ok (fst st) \<Longrightarrow> schedule_ok (fst st')"
  using assms
  by (auto simp: backfill_one_def res_simps split_beta intro: start_occurrence_progress start_occurrence_ok
      split: if_splits)

lemma backfill_cases:
  assumes "backfill_schedule env zs x i a b l au d = Inr (d', n)"
  obtains row start stop ts d1 det where "find_schedule d i = Some row" "a = Aware start" "b = Aware stop"
    and "start \<le> stop" and "1 \<le> l" and "l \<le> 100"
    and "backfill_times (\<lambda>c. cron_txn (next_cron_time zs (sd_cron_expression row) (Aware c) (sd_timezone row)))
      l stop [] (start - minute_us) = Inr ts"
    and "foldR (backfill_one env x row) ts (d, 0) = Inr (d1, n)"
    and "record_api_audit x au None True det d1 = Inr d'"
  using assms
  by (cases a; cases b) (auto simp: backfill_schedule_def res_simps not_less)

interpretation backfill_tx: transaction "backfill_schedule env zs x i a b l au" for env zs x i a b l au
proof
  fix d d' r
  assume ok: "committed d" and op: "backfill_schedule env zs x i a b l au d = Inr (d', r)"
  obtain row ts d1 det where 1: "foldR (backfill_one env x row) ts (d, 0) = Inr (d1, r)"
    and 2: "record_api_audit x au None True det d1 = Inr d'"
    by (rule backfill_cases[OF op])
  have "progress Map.empty {} {} d (fst (d1, r))"
    by (rule foldR_invariant[OF 1, where P = "\<lambda>st. progress Map.empty {} {} d (fst st)"])
      (auto intro: committed_progress[OF ok] backfill_one_steps(1))
  with record_api_audit_progress[OF 2] show "progress Map.empty {} {} d d'" by simp
qed

interpretation backfill_view: scheduling "backfill_schedule env zs x i a b l au" for env zs x i a b l au
proof
  fix d d' r
  assume ok: "schedule_ok d" and op: "backfill_schedule env zs x i a b l au d = Inr (d', r)"
  obtain row ts d1 det where 1: "foldR (backfill_one env x row) ts (d, 0) = Inr (d1, r)"
    and 2: "record_api_audit x au None True det d1 = Inr d'"
    by (rule backfill_cases[OF op])
  have "schedule_ok (fst (d1, r))"
    by (rule foldR_invariant[OF 1, where P = "\<lambda>st. schedule_ok (fst st)"])
      (auto intro: ok backfill_one_steps(2))
  with record_api_audit_ok[OF 2] show "schedule_ok d'" by simp
qed

end
