(* ===== verification/System.thy ===== *)
theory System
  imports Schedule_Laws
begin

text \<open>
  The engine as a state machine: one step is one committed transaction of any client, worker or
  maintenance loop, with any arguments, clock and random values. The reachable databases are those
  that sequences of such steps produce from the empty one. The relation has two parameters, what the
  owner of a task may say of its task and which replay results it may commit; \<open>step\<close> leaves both open.
\<close>

section \<open>Steps\<close>

inductive step_where ::
  "(leased_task \<Rightarrow> db \<Rightarrow> bool) \<Rightarrow> (pyenv \<Rightarrow> uuid \<Rightarrow> replay_result \<Rightarrow> bool) \<Rightarrow> db \<Rightarrow> db \<Rightarrow> bool"
  for T :: "leased_task \<Rightarrow> db \<Rightarrow> bool" and R :: "pyenv \<Rightarrow> uuid \<Rightarrow> replay_result \<Rightarrow> bool" where
  step_register: "register_workflow_definition n v h d = Inr (d', u) \<Longrightarrow> step_where T R d d'"
| step_start: "start_workflow env x n v i q w attrs ro a d = Inr (d', r) \<Longrightarrow> step_where T R d d'"
| step_retry: "retry_workflow env x w a d0 d = Inr (d', r) \<Longrightarrow> step_where T R d d'"
| step_pause: "pause_workflow x w reason a d = Inr (d', b) \<Longrightarrow> step_where T R d d'"
| step_resume: "resume_workflow env x w reason a d = Inr (d', b) \<Longrightarrow> step_where T R d d'"
| step_attributes: "update_search_attributes env x w attrs unset a d = Inr (d', m) \<Longrightarrow> step_where T R d d'"
| step_terminate: "terminate_workflow k x w reason a d = Inr (d', b) \<Longrightarrow> step_where T R d d'"
| step_cancel: "request_workflow_cancellation x w reason a d = Inr (d', b) \<Longrightarrow> step_where T R d d'"
| step_signal: "send_signal x w i n p a d = Inr (d', b) \<Longrightarrow> step_where T R d d'"
| step_update: "send_update x w i n p a d = Inr (d', res) \<Longrightarrow> step_where T R d d'"
| step_effect: "record_idempotent_effect x key p d = Inr (d', b) \<Longrightarrow> step_where T R d d'"
| step_lease: "lease_task env x ty q dur d = Inr (d', lt) \<Longrightarrow> step_where T R d d'"
| step_renew: "renew_lease env x i tok dur d = Inr (d', t) \<Longrightarrow> step_where T R d d'"
| step_heartbeat: "heartbeat_activity env x i tok det dur d = Inr (d', t) \<Longrightarrow> step_where T R d d'"
| step_reclaim: "reclaim_expired_workflow_tasks x limit d = Inr (d', c) \<Longrightarrow> step_where T R d d'"
| step_release: "release_workflow_task env x task delay d = Inr (d', u) \<Longrightarrow> step_where T R d d'"
| commit_where: "T task d \<Longrightarrow> R env (lt_workflow_id task) rr \<Longrightarrow>
    commit_workflow_replay env k x task rr d = Inr (d', u) \<Longrightarrow> step_where T R d d'"
| complete_where: "T task d \<Longrightarrow> complete_activity x task p d = Inr (d', u) \<Longrightarrow> step_where T R d d'"
| fail_where: "T task d \<Longrightarrow> fail_activity env x task p rv d = Inr (d', b) \<Longrightarrow> step_where T R d d'"
| step_timer: "fire_due_timer env x oq clk d = Inr (d', b) \<Longrightarrow> step_where T R d d'"
| step_timeout: "process_activity_timeout env x oq rv d = Inr (d', b) \<Longrightarrow> step_where T R d d'"
| step_create_schedule:
    "create_schedule env zs x n wt v i c tz q sa op clk a d = Inr (d', s) \<Longrightarrow> step_where T R d d'"
| step_pause_schedule: "set_schedule_paused zs x i p clk a d = Inr (d', b) \<Longrightarrow> step_where T R d d'"
| step_materialize: "materialize_due_schedule env zs x clk d = Inr (d', b) \<Longrightarrow> step_where T R d d'"
| step_backfill: "backfill_schedule env zs x i from to l a d = Inr (d', c) \<Longrightarrow> step_where T R d d'"
| step_worker: "heartbeat_worker x w h p q roles d = Inr (d', u) \<Longrightarrow> step_where T R d d'"
| step_stop_worker: "stop_worker x w d = Inr (d', u) \<Longrightarrow> step_where T R d d'"

text \<open>Task owners may call with any arguments.\<close>

abbreviation step :: "db \<Rightarrow> db \<Rightarrow> bool" where
  "step \<equiv> step_where (\<lambda>_ _. True) (\<lambda>_ _ _. True)"

lemma step_commit: "commit_workflow_replay env k x task rr d = Inr (d', u) \<Longrightarrow> step d d'"
  by (rule commit_where) simp_all

lemma step_complete: "complete_activity x task p d = Inr (d', u) \<Longrightarrow> step d d'"
  by (rule complete_where) simp_all

lemma step_fail: "fail_activity env x task p rv d = Inr (d', b) \<Longrightarrow> step d d'"
  by (rule fail_where) simp_all

lemma step_where_mono:
  assumes "step_where T R d d'" and "\<And>task. T task d \<Longrightarrow> T' task d" and "\<And>env w rr. R env w rr \<Longrightarrow> R' env w rr"
  shows "step_where T' R' d d'"
  using assms(1) by cases (auto intro: step_where.intros assms(2,3))

inductive reachable :: "db \<Rightarrow> bool" where
  reachable_empty: "reachable empty_db"
| reachable_step: "reachable d \<Longrightarrow> step d d' \<Longrightarrow> reachable d'"

text \<open>A call of a transaction: its effect on the database, which is none when it raises.\<close>

definition transact :: "'a txn \<Rightarrow> db \<Rightarrow> db" where
  "transact op d = (case op d of Inl e \<Rightarrow> d | Inr (d', r) \<Rightarrow> d')"

lemma reachable_transact:
  "reachable d \<Longrightarrow> (\<And>d' r. op d = Inr (d', r) \<Longrightarrow> step d d') \<Longrightarrow> reachable (transact op d)"
  by (auto simp: transact_def split: sum.splits intro: reachable_step)

lemma step_progress:
  assumes "step d d'" and "committed d"
  shows "progress Map.empty {} {} d d'"
  using assms
proof cases
  case step_register then show ?thesis using register_tx.safe assms(2) by blast
next
  case step_start then show ?thesis using start_tx.safe assms(2) by blast
next
  case step_retry then show ?thesis using retry_tx.safe assms(2) by blast
next
  case step_pause then show ?thesis using pause_tx.safe assms(2) by blast
next
  case step_resume then show ?thesis using resume_tx.safe assms(2) by blast
next
  case step_attributes then show ?thesis using attributes_tx.safe assms(2) by blast
next
  case step_terminate then show ?thesis using terminate_tx.safe assms(2) by blast
next
  case step_cancel then show ?thesis using cancel_tx.safe assms(2) by blast
next
  case step_signal then show ?thesis using signal_tx.safe assms(2) by blast
next
  case step_update then show ?thesis using update_tx.safe assms(2) by blast
next
  case step_effect then show ?thesis using effect_tx.safe assms(2) by blast
next
  case step_lease then show ?thesis using lease_tx.safe assms(2) by blast
next
  case step_renew then show ?thesis using renew_tx.safe assms(2) by blast
next
  case step_heartbeat then show ?thesis using heartbeat_tx.safe assms(2) by blast
next
  case step_reclaim then show ?thesis using reclaim_tx.safe assms(2) by blast
next
  case step_release then show ?thesis using release_tx.safe assms(2) by blast
next
  case commit_where then show ?thesis using commit_tx.safe assms(2) by blast
next
  case complete_where then show ?thesis using complete_tx.safe assms(2) by blast
next
  case fail_where then show ?thesis using fail_tx.safe assms(2) by blast
next
  case step_timer then show ?thesis using timer_tx.safe assms(2) by blast
next
  case step_timeout then show ?thesis using timeout_tx.safe assms(2) by blast
next
  case step_create_schedule then show ?thesis using create_schedule_tx.safe assms(2) by blast
next
  case step_pause_schedule then show ?thesis using pause_schedule_tx.safe assms(2) by blast
next
  case step_materialize then show ?thesis using materialize_tx.safe assms(2) by blast
next
  case step_backfill then show ?thesis using backfill_tx.safe assms(2) by blast
next
  case step_worker then show ?thesis using worker_tx.safe assms(2) by blast
next
  case step_stop_worker then show ?thesis using stop_worker_tx.safe assms(2) by blast
qed

lemma step_schedules:
  assumes "step d d'" and "schedule_ok d"
  shows "schedule_ok d'"
  using assms
proof cases
  case step_register then show ?thesis using register_view.keeps_schedules assms(2) by blast
next
  case step_start then show ?thesis using start_view.keeps_schedules assms(2) by blast
next
  case step_retry then show ?thesis using retry_view.keeps_schedules assms(2) by blast
next
  case step_pause then show ?thesis using pause_view.keeps_schedules assms(2) by blast
next
  case step_resume then show ?thesis using resume_view.keeps_schedules assms(2) by blast
next
  case step_attributes then show ?thesis using attributes_view.keeps_schedules assms(2) by blast
next
  case step_terminate then show ?thesis using terminate_view.keeps_schedules assms(2) by blast
next
  case step_cancel then show ?thesis using cancel_view.keeps_schedules assms(2) by blast
next
  case step_signal then show ?thesis using signal_view.keeps_schedules assms(2) by blast
next
  case step_update then show ?thesis using update_view.keeps_schedules assms(2) by blast
next
  case step_effect then show ?thesis using effect_view.keeps_schedules assms(2) by blast
next
  case step_lease then show ?thesis using lease_view.keeps_schedules assms(2) by blast
next
  case step_renew then show ?thesis using renew_view.keeps_schedules assms(2) by blast
next
  case step_heartbeat then show ?thesis using heartbeat_view.keeps_schedules assms(2) by blast
next
  case step_reclaim then show ?thesis using reclaim_view.keeps_schedules assms(2) by blast
next
  case step_release then show ?thesis using release_view.keeps_schedules assms(2) by blast
next
  case commit_where then show ?thesis using commit_view.keeps_schedules assms(2) by blast
next
  case complete_where then show ?thesis using complete_view.keeps_schedules assms(2) by blast
next
  case fail_where then show ?thesis using fail_view.keeps_schedules assms(2) by blast
next
  case step_timer then show ?thesis using timer_view.keeps_schedules assms(2) by blast
next
  case step_timeout then show ?thesis using timeout_view.keeps_schedules assms(2) by blast
next
  case step_create_schedule then show ?thesis using create_schedule_view.keeps_schedules assms(2) by blast
next
  case step_pause_schedule then show ?thesis using pause_schedule_view.keeps_schedules assms(2) by blast
next
  case step_materialize then show ?thesis using materialize_view.keeps_schedules assms(2) by blast
next
  case step_backfill then show ?thesis using backfill_view.keeps_schedules assms(2) by blast
next
  case step_worker then show ?thesis using worker_view.keeps_schedules assms(2) by blast
next
  case step_stop_worker then show ?thesis using stop_worker_view.keeps_schedules assms(2) by blast
qed

lemma committed_empty: "committed empty_db"
  by (simp add: committed_def store_ok_def empty_db_def parents_first_def)

lemma reachable_committed: "reachable d \<Longrightarrow> committed d"
proof (induction rule: reachable.induct)
  case (reachable_step d d')
  then show ?case using step_progress[of d d'] by (simp add: progress_def committed_def)
qed (rule committed_empty)

lemma reachable_schedules: "reachable d \<Longrightarrow> schedule_ok d"
proof (induction rule: reachable.induct)
  case reachable_empty
  show ?case by (simp add: schedule_ok_def sched_view_def empty_db_def)
qed (rule step_schedules)

lemma steps_progress:
  assumes "step\<^sup>*\<^sup>* d d'" and "committed d"
  shows "committed d' \<and> only_appends d d'"
  using assms
proof (induction rule: rtranclp_induct)
  case (step y z)
  then have "progress Map.empty {} {} y z" by (auto intro: step_progress)
  with step show ?case
    using only_appends_trans by (auto simp: progress_def committed_def)
qed simp

section \<open>The log of one workflow\<close>

text \<open>
  What the rest of the system may assume of one workflow's history, as an abstract machine: a list
  of numbered events that can be extended while it is open, closed for good, and nothing else.
\<close>

record workflow_log =
  lg_events :: "history_event list"
  lg_closed :: bool

inductive log_step :: "workflow_log \<Rightarrow> workflow_log \<Rightarrow> bool" where
  log_idle: "log_step l l"
| log_extend: "\<not> lg_closed l \<Longrightarrow>
    map ev_seq (lg_events l @ new) = [1..int (length (lg_events l @ new))] \<Longrightarrow>
    log_step l (l\<lparr>lg_events := lg_events l @ new, lg_closed := c\<rparr>)"

definition log_of :: "db \<Rightarrow> uuid \<Rightarrow> workflow_log" where
  "log_of d w = \<lparr>lg_events = map history_event_from_row (workflow_history d w),
     lg_closed = (\<not> running d w)\<rparr>"

lemma committed_sequence:
  assumes "committed d" and "find_execution d w = Some e"
  shows "map hr_seq (workflow_history d w) = [1..ex_next_seq e - 1]"
    and "int (length (workflow_history d w)) = ex_next_seq e - 1"
proof -
  have "ex_id e = w" "e \<in> set (db_executions d)" using find_execution_Some[OF assms(2)] by auto
  then show seqs: "map hr_seq (workflow_history d w) = [1..ex_next_seq e - 1]"
    using assms(1) by (auto simp: committed_def store_ok_def)
  have "1 \<le> ex_next_seq e"
    using assms(1) \<open>e \<in> set (db_executions d)\<close> by (auto simp: committed_def store_ok_def)
  with arg_cong[OF seqs, of length] show "int (length (workflow_history d w)) = ex_next_seq e - 1"
    by simp
qed

lemma log_of_seqs:
  assumes "committed d" and "find_execution d w = Some e"
  shows "map ev_seq (lg_events (log_of d w)) = [1..int (length (lg_events (log_of d w)))]"
proof -
  have "ev_seq \<circ> history_event_from_row = hr_seq"
    by (simp add: fun_eq_iff history_event_from_row_def)
  then show ?thesis using committed_sequence[OF assms] by (simp add: log_of_def)
qed

lemma only_appends_log:
  assumes "only_appends d d'" and "committed d'" and "find_execution d w = Some e"
  shows "log_step (log_of d w) (log_of d' w)"
proof -
  obtain h where h: "db_history d' = db_history d @ h"
    "\<forall>r\<in>set h. \<forall>e. find_execution d (hr_workflow_id r) = Some e \<longrightarrow> ex_status e = WfRunning"
    using assms(1) unfolding only_appends_def by blast
  obtain e' where e': "find_execution d' w = Some e'" "execution_le e e'"
    using assms(1,3) unfolding only_appends_def by blast
  define new where "new = map history_event_from_row (filter (\<lambda>r. hr_workflow_id r = w) h)"
  have new: "lg_events (log_of d' w) = lg_events (log_of d w) @ new"
    by (simp add: log_of_def workflow_history_def h new_def)
  show ?thesis
  proof (cases "ex_status e = WfRunning")
    case True
    have "log_of d' w = (log_of d w)\<lparr>lg_events := lg_events (log_of d w) @ new,
        lg_closed := lg_closed (log_of d' w)\<rparr>"
      using new by (simp add: log_of_def)
    moreover have "\<not> lg_closed (log_of d w)" using True assms(3) by (simp add: log_of_def running_def)
    ultimately show ?thesis
      using log_of_seqs[OF assms(2) e'(1)] new by (metis log_extend)
  next
    case False
    then have "new = []" using h(2) assms(3) by (fastforce simp: new_def filter_empty_conv)
    moreover have "lg_closed (log_of d' w) = lg_closed (log_of d w)"
      using False e' assms(3) by (auto simp: log_of_def running_def execution_le_def)
    ultimately have "log_of d' w = log_of d w" using new by (simp add: log_of_def)
    then show ?thesis by (simp add: log_idle)
  qed
qed

lemma reachable_steps: "step\<^sup>*\<^sup>* d d' \<Longrightarrow> reachable d \<Longrightarrow> reachable d'"
  by (induction rule: rtranclp_induct) (auto intro: reachable_step)

text \<open>A closed execution stays as it is, whatever happens later.\<close>

lemma closed_stays:
  assumes "reachable d" and "find_execution d w = Some e" and "ex_status e \<noteq> WfRunning"
    and "step\<^sup>*\<^sup>* d d'"
  shows "workflow_history d' w = workflow_history d w" and
    "\<exists>e'. find_execution d' w = Some e' \<and> ex_status e' = ex_status e \<and> ex_result e' = ex_result e
      \<and> ex_failure e' = ex_failure e \<and> ex_closed_at e' = ex_closed_at e"
proof -
  have app: "only_appends d d'"
    using steps_progress[OF assms(4) reachable_committed[OF assms(1)]] by simp
  obtain h where h: "db_history d' = db_history d @ h"
    "\<forall>r\<in>set h. \<forall>e. find_execution d (hr_workflow_id r) = Some e \<longrightarrow> ex_status e = WfRunning"
    using app unfolding only_appends_def by blast
  have "filter (\<lambda>r. hr_workflow_id r = w) h = []"
    using h(2) assms(2,3) by (fastforce simp: filter_empty_conv)
  with h(1) show "workflow_history d' w = workflow_history d w" by (simp add: workflow_history_def)
  obtain e' where "find_execution d' w = Some e'" "execution_le e e'"
    using app assms(2) unfolding only_appends_def by blast
  then show "\<exists>e'. find_execution d' w = Some e' \<and> ex_status e' = ex_status e \<and> ex_result e' = ex_result e
      \<and> ex_failure e' = ex_failure e \<and> ex_closed_at e' = ex_closed_at e"
    using assms(3) by (auto simp: execution_le_def)
qed

lemma execution_stays:
  assumes "reachable d" and "find_execution d w = Some e" and "step\<^sup>*\<^sup>* d d'"
  shows "\<exists>e'. find_execution d' w = Some e'"
proof -
  have "only_appends d d'" using steps_progress[OF assms(3) reachable_committed[OF assms(1)]] by simp
  with assms(2) show ?thesis unfolding only_appends_def by blast
qed

end
