(* ===== verification/Audit_Laws.thy ===== *)
theory Audit_Laws
  imports System
begin

text \<open>
  Every control operation that is given an audit context records it exactly once in the
  transaction that makes its change (locale \<open>audited\<close>), whatever branch it takes.
\<close>

definition audited_by :: "audit_context \<Rightarrow> db \<Rightarrow> db \<Rightarrow> bool" where
  "audited_by a d d' \<longleftrightarrow> (\<exists>row. db_audit d' = db_audit d @ [row] \<and> al_context row = a)"

locale audited =
  fixes op :: "audit_context option \<Rightarrow> 'a txn"
  assumes records_context: "op (Some a) d = Inr (d', r) \<Longrightarrow> audited_by a d d'"

named_theorems audit_dest \<open>statements and calls that do not write to the audit log, and the one that does\<close>

section \<open>Statements\<close>

lemma record_api_audit_row [audit_dest]:
  "record_api_audit x (Some a) w acc det d = Inr d' \<Longrightarrow>
    \<exists>row. db_audit d' = db_audit d @ [row] \<and> al_context row = a"
  by (auto simp: record_api_audit_def res_simps)

lemma insert_audit [audit_dest]:
  "insert_event x w n ty c e ext attrs d = Inr d' \<Longrightarrow> db_audit d' = db_audit d"
  "insert_task t d = Inr d' \<Longrightarrow> db_audit d' = db_audit d"
  "insert_workflow_task x i w q d = Inr d' \<Longrightarrow> db_audit d' = db_audit d"
  "insert_update u d = Inr d' \<Longrightarrow> db_audit d' = db_audit d"
  "insert_execution env ex d = Inr d' \<Longrightarrow> db_audit d' = db_audit d"
  "insert_schedule env s d = Inr d' \<Longrightarrow> db_audit d' = db_audit d"
  "insert_occurrence r d = Inr d' \<Longrightarrow> db_audit d' = db_audit d"
  by (auto simp: insert_event_def insert_history_def insert_task_def insert_workflow_task_def insert_update_def
      insert_execution_def insert_schedule_def insert_occurrence_def res_simps)

lemma create_execution_audit [audit_dest]:
  "create_execution env x i e attrs d = Inr d' \<Longrightarrow> db_audit d' = db_audit d"
  by (auto simp: create_execution_def res_simps dest!: audit_dest)

lemma updates_audit [simp]:
  "db_audit (update_tasks p f d) = db_audit d"
  "db_audit (update_updates q g d) = db_audit d"
  "db_audit (update_execution w h d) = db_audit d"
  "db_audit (update_executions k h d) = db_audit d"
  "db_audit (set_next_seq w n d) = db_audit d"
  "db_audit (kill_tasks x w d) = db_audit d"
  "db_audit (kill_other_tasks x w i d) = db_audit d"
  "db_audit (update_schedule s fs d) = db_audit d"
  "db_audit (update_occurrences po fo d) = db_audit d"
  "db_audit (reject_pending_updates x w reason d) = db_audit d"
  by (simp_all add: update_tasks_def update_updates_def update_execution_def update_executions_def
      set_next_seq_def kill_tasks_def kill_other_tasks_def update_schedule_def update_occurrences_def
      reject_pending_updates_def)

section \<open>Calls\<close>

lemma cancel_pending_timers_audit [audit_dest]:
  "cancel_pending_timers x w n reason d = Inr (d', n') \<Longrightarrow> db_audit d' = db_audit d"
  unfolding cancel_pending_timers_def
  by (drule foldR_invariant[where P = "\<lambda>s. db_audit (fst s) = db_audit d"])
    (auto simp: cancel_timer_def Let_def res_simps split_beta dest!: audit_dest split: if_splits)

lemma terminate_child_audit: "terminate_child x c d = Inr d' \<Longrightarrow> db_audit d' = db_audit d"
  by (auto simp: terminate_child_def res_simps dest!: audit_dest)

lemma terminate_descendants_audit [audit_dest]:
  "terminate_descendants k x p d = Inr d' \<Longrightarrow> db_audit d' = db_audit d"
proof (induction k arbitrary: p d d')
  case (Suc k)
  then have "foldR (\<lambda>c d. bindR (terminate_descendants k x (ex_id c) d) (terminate_child x c))
      (running_children p d) d = Inr d'" by simp
  then show ?case
    by (drule_tac foldR_invariant[where P = "\<lambda>s. db_audit s = db_audit d"])
      (auto simp: res_simps dest!: Suc.IH terminate_child_audit)
qed simp

lemma notify_parent_audit [audit_dest]:
  "notify_parent_of_child_terminal x i c p s v d = Inr d' \<Longrightarrow> db_audit d' = db_audit d"
  by (auto simp: notify_parent_of_child_terminal_def res_simps dest!: audit_dest split: option.splits if_splits)

lemma start_occurrence_audit [audit_dest]:
  "start_occurrence env x i j s t b d = Inr d' \<Longrightarrow> db_audit d' = db_audit d"
  by (auto simp: start_occurrence_def record_occurrence_def Let_def res_simps dest!: audit_dest split: if_splits)

section \<open>The control operations\<close>

lemmas audit_split = if_splits option.splits

interpretation signal_audit: audited "send_signal x w i n p" for x w i n p
  by unfold_locales (auto simp: audited_by_def send_signal_def res_simps dest!: audit_dest split: audit_split)

interpretation update_audit: audited "send_update x w i n p" for x w i n p
  by unfold_locales (auto simp: audited_by_def send_update_def Let_def res_simps dest!: audit_dest split: audit_split)

interpretation start_audit: audited "start_workflow env x n v i q w attrs ro" for env x n v i q w attrs ro
  by unfold_locales (auto simp: audited_by_def start_workflow_def Let_def res_simps dest!: audit_dest split: audit_split)

interpretation retry_audit: audited "\<lambda>a. retry_workflow env x w a d0" for env x w d0
  by unfold_locales (auto simp: retry_workflow_def split: audit_split intro: start_audit.records_context)

interpretation pause_audit: audited "pause_workflow x w reason" for x w reason
  by unfold_locales (auto simp: audited_by_def pause_workflow_def duplicate_request_def Let_def res_simps
      dest!: audit_dest split: audit_split)

interpretation resume_audit: audited "resume_workflow env x w reason" for env x w reason
  by unfold_locales (auto simp: audited_by_def resume_workflow_def duplicate_request_def Let_def res_simps
      dest!: audit_dest split: audit_split)

interpretation cancel_audit: audited "request_workflow_cancellation x w reason" for x w reason
  by unfold_locales (auto simp: audited_by_def request_workflow_cancellation_def duplicate_request_def Let_def res_simps
      dest!: audit_dest split: audit_split)

interpretation attributes_audit: audited "update_search_attributes env x w attrs unset" for env x w attrs unset
  by unfold_locales (auto simp: audited_by_def update_search_attributes_def Let_def res_simps
      dest!: audit_dest split: audit_split)

interpretation terminate_audit: audited "terminate_workflow k x w reason" for k x w reason
  by unfold_locales (auto simp: audited_by_def terminate_workflow_def duplicate_request_def Let_def res_simps
      dest!: audit_dest split: audit_split)

interpretation create_schedule_audit: audited "create_schedule env zs x n wt v i c tz q sa op clk"
  for env zs x n wt v i c tz q sa op clk
  by unfold_locales (auto simp: audited_by_def create_schedule_def Let_def res_simps dest!: audit_dest)

interpretation pause_schedule_audit: audited "set_schedule_paused zs x i p clk" for zs x i p clk
  by unfold_locales (auto simp: audited_by_def set_schedule_paused_def Let_def res_simps
      dest!: audit_dest split: audit_split)

lemma backfill_one_audit: "backfill_one env x s t st = Inr st' \<Longrightarrow> db_audit (fst st') = db_audit (fst st)"
  by (auto simp: backfill_one_def res_simps split_beta dest!: audit_dest split: if_splits)

interpretation backfill_audit: audited "backfill_schedule env zs x i a b l" for env zs x i a b l
proof
  fix au d d' r
  assume "backfill_schedule env zs x i a b l (Some au) d = Inr (d', r)"
  then obtain row ts d1 det where 1: "foldR (backfill_one env x row) ts (d, 0) = Inr (d1, r)"
    and 2: "record_api_audit x (Some au) None True det d1 = Inr d'"
    by (rule backfill_cases)
  have "db_audit (fst (d1, r)) = db_audit d"
    by (rule foldR_invariant[OF 1, where P = "\<lambda>st. db_audit (fst st) = db_audit d"])
      (auto dest: backfill_one_audit)
  with record_api_audit_row[OF 2] show "audited_by au d d'" by (simp add: audited_by_def)
qed

end
