(* ===== verification/Lease_Laws.thy ===== *)
theory Lease_Laws
  imports System
begin

text \<open>
  Which lease tokens the tasks carry. Only \<^verbatim>\<open>lease_task\<close> hands out a token; every other transaction
  leaves the tokens alone (locale \<open>lease_neutral\<close>) or takes one back. An owner whose token is not the
  one its task carries can do nothing with it.
\<close>

section \<open>Transactions that hand out no lease\<close>

named_theorems lease_dest \<open>statements and calls that leave the lease tokens alone\<close>

definition task_lease :: "task_row \<Rightarrow> uuid \<Rightarrow> uuid \<Rightarrow> bool" where
  "task_lease t i token \<longleftrightarrow> tk_id t = i \<and> tk_lease_token t = Some token"

definition leases :: "db \<Rightarrow> uuid \<Rightarrow> uuid \<Rightarrow> bool" where
  "leases d i token \<longleftrightarrow> list_ex (\<lambda>t. task_lease t i token) (db_tasks d)"

locale lease_neutral =
  fixes op :: "'a txn"
  assumes same_leases: "op d = Inr (d', r) \<Longrightarrow> leases d' = leases d"

lemma same_tasks_leases: "db_tasks d' = db_tasks d \<Longrightarrow> leases d' = leases d"
  by (simp add: leases_def fun_eq_iff)

lemma leases_frame [simp]:
  "leases (d\<lparr>db_executions := es\<rparr>) = leases d" "leases (d\<lparr>db_history := hs\<rparr>) = leases d"
  "leases (d\<lparr>db_updates := us\<rparr>) = leases d" "leases (d\<lparr>db_definitions := ds\<rparr>) = leases d"
  "leases (d\<lparr>db_audit := as\<rparr>) = leases d" "leases (d\<lparr>db_effects := fs\<rparr>) = leases d"
  "leases (d\<lparr>db_schedules := ss\<rparr>) = leases d" "leases (d\<lparr>db_occurrences := os\<rparr>) = leases d"
  "leases (d\<lparr>db_workers := ws\<rparr>) = leases d"
  by (simp_all add: leases_def fun_eq_iff)

lemma insert_event_leases [lease_dest]:
  "insert_event x w n ty c e ext attrs d = Inr d' \<Longrightarrow> leases d' = leases d"
  by (rule same_tasks_leases) (rule insert_event_frame(2))

lemma insert_task_leases:
  "insert_task t d = Inr d' \<Longrightarrow> tk_lease_token t = None \<Longrightarrow> leases d' = leases d"
  by (simp add: insert_task_def res_simps leases_def task_lease_def fun_eq_iff)

lemma insert_workflow_task_leases [lease_dest]:
  "insert_workflow_task x i w q d = Inr d' \<Longrightarrow> leases d' = leases d"
  by (auto simp: insert_workflow_task_def workflow_task_def elim!: insert_task_leases)

lemma insert_update_leases [lease_dest]: "insert_update u d = Inr d' \<Longrightarrow> leases d' = leases d"
  by (rule same_tasks_leases) (rule insert_update_frame(3))

lemma record_api_audit_leases [lease_dest]: "record_api_audit x a w acc det d = Inr d' \<Longrightarrow> leases d' = leases d"
  by (rule same_tasks_leases) (rule record_api_audit_frame(3))

lemma update_tasks_leases [simp]:
  assumes "\<And>t. task_lease (f t) = task_lease t"
  shows "leases (update_tasks p f d) = leases d"
proof -
  have "task_lease (if p t then f t else t) = task_lease t" for t using assms by simp
  then have "list_ex (\<lambda>t. task_lease t i token) (map (\<lambda>t. if p t then f t else t) ts)
      = list_ex (\<lambda>t. task_lease t i token) ts" for i token ts
    by (induction ts) (simp_all del: split_paired_All)
  then show ?thesis by (simp add: leases_def update_tasks_def fun_eq_iff)
qed

lemma finish_task_lease [simp]: "task_lease (finish_task x s t) = task_lease t"
  by (simp add: task_lease_def finish_task_def fun_eq_iff)

lemma update_leases [simp]:
  "leases (update_updates q g d) = leases d" "leases (kill_tasks x w d) = leases d"
  "leases (kill_other_tasks x w i d) = leases d" "leases (update_execution w h d) = leases d"
  "leases (set_next_seq w n d) = leases d" "leases (reject_pending_updates x w reason d) = leases d"
  by (simp_all add: update_updates_def kill_tasks_def kill_other_tasks_def update_execution_def update_executions_def set_next_seq_def
      reject_pending_updates_def)

lemma insert_execution_leases [lease_dest]: "insert_execution env e d = Inr d' \<Longrightarrow> leases d' = leases d"
  by (auto simp: insert_execution_def res_simps)

lemma create_execution_leases [lease_dest]: "create_execution env x i e attrs d = Inr d' \<Longrightarrow> leases d' = leases d"
  by (auto simp: create_execution_def res_simps dest!: lease_dest)

lemma foldR_leases:
  "foldR f xs d = Inr d' \<Longrightarrow> (\<And>x d d'. f x d = Inr d' \<Longrightarrow> leases d' = leases d) \<Longrightarrow> leases d' = leases d"
  by (induction xs arbitrary: d) (auto simp: res_simps)

interpretation signal_leases: lease_neutral "send_signal x w i n p a" for x w i n p a
  by unfold_locales (auto simp: send_signal_def res_simps dest!: lease_dest split: view_split)

interpretation update_leases: lease_neutral "send_update x w i n p a" for x w i n p a
  by unfold_locales (auto simp: send_update_def Let_def res_simps dest!: lease_dest split: view_split)

interpretation effect_leases: lease_neutral "record_idempotent_effect x k p" for x k p
  by unfold_locales (auto simp: record_idempotent_effect_def res_simps split: view_split)

interpretation register_leases: lease_neutral "register_workflow_definition n v h" for n v h
  by unfold_locales (auto simp: register_workflow_definition_def Let_def res_simps split: view_split)

interpretation timer_leases: lease_neutral "fire_due_timer env x q c" for env x q c
  by unfold_locales (auto simp: fire_due_timer_def Let_def res_simps dest!: lease_dest split: view_split)

lemma retry_task_lease [simp]: "tk_lease_token (retry_task x i w e c n v old) = None"
  by (simp add: retry_task_def workflow_task_def)

interpretation timeout_leases: lease_neutral "process_activity_timeout env x q rv" for env x q rv
  by unfold_locales (auto simp: process_activity_timeout_def Let_def res_simps
      dest!: lease_dest insert_task_leases split: view_split)

lemma complete_task_leases [lease_dest]: "complete_task x task d = Inr d' \<Longrightarrow> leases d' = leases d"
  by (auto simp: complete_task_def split: if_splits)

interpretation complete_leases: lease_neutral "complete_activity x task v" for x task v
  by unfold_locales (auto simp: complete_activity_def Let_def res_simps dest!: lease_dest split: view_split)

interpretation fail_leases: lease_neutral "fail_activity env x task v rv" for env x task v rv
  by unfold_locales (auto simp: fail_activity_def Let_def res_simps
      dest!: lease_dest insert_task_leases split: view_split)

interpretation pause_leases: lease_neutral "pause_workflow x w reason a" for x w reason a
  by unfold_locales (auto simp: pause_workflow_def duplicate_request_def Let_def res_simps
      dest!: lease_dest split: view_split)

interpretation resume_leases: lease_neutral "resume_workflow env x w reason a" for env x w reason a
  by unfold_locales (auto simp: resume_workflow_def duplicate_request_def Let_def res_simps task_lease_def fun_eq_iff
      dest!: lease_dest split: view_split)

interpretation cancel_leases: lease_neutral "request_workflow_cancellation x w reason a" for x w reason a
  by unfold_locales (auto simp: request_workflow_cancellation_def duplicate_request_def Let_def res_simps
      dest!: lease_dest split: view_split)

interpretation attributes_leases: lease_neutral "update_search_attributes env x w attrs unset a"
  for env x w attrs unset a
  by unfold_locales (auto simp: update_search_attributes_def Let_def res_simps
      dest!: lease_dest split: view_split)

interpretation start_leases: lease_neutral "start_workflow env x n v i q w attrs ro a"
  for env x n v i q w attrs ro a
  by unfold_locales (auto simp: start_workflow_def Let_def res_simps dest!: lease_dest split: view_split)

interpretation retry_leases: lease_neutral "retry_workflow env x w a d0" for env x w a d0
  by unfold_locales (auto simp: retry_workflow_def split: view_split intro: start_leases.same_leases)

interpretation renew_leases: lease_neutral "renew_lease env x i tok dur" for env x i tok dur
  by unfold_locales (auto simp: renew_lease_def Let_def res_simps task_lease_def fun_eq_iff split: view_split)

interpretation heartbeat_leases: lease_neutral "heartbeat_activity env x i tok det dur" for env x i tok det dur
  by unfold_locales (auto simp: heartbeat_activity_def Let_def res_simps task_lease_def fun_eq_iff split: view_split)

lemma cancel_timer_leases: "cancel_timer x w reason t s = Inr s' \<Longrightarrow> leases (fst s') = leases (fst s)"
  by (auto simp: cancel_timer_def Let_def res_simps split_beta dest!: lease_dest split: if_splits)

lemma cancel_pending_timers_leases [lease_dest]:
  "cancel_pending_timers x w n reason d = Inr (d', n') \<Longrightarrow> leases d' = leases d"
  unfolding cancel_pending_timers_def
  by (drule foldR_invariant[where P = "\<lambda>s. leases (fst s) = leases d"]) (auto dest: cancel_timer_leases)

lemma terminate_child_leases [lease_dest]: "terminate_child x c d = Inr d' \<Longrightarrow> leases d' = leases d"
  by (auto simp: terminate_child_def res_simps dest!: lease_dest)

lemma terminate_descendants_leases [lease_dest]:
  "terminate_descendants k x p d = Inr d' \<Longrightarrow> leases d' = leases d"
proof (induction k arbitrary: p d d')
  case (Suc k)
  then have "foldR (\<lambda>c d. bindR (terminate_descendants k x (ex_id c) d) (terminate_child x c))
      (running_children p d) d = Inr d'" by simp
  then show ?case by (rule foldR_leases) (auto simp: res_simps dest!: Suc.IH lease_dest)
qed simp

lemma notify_parent_leases [lease_dest]:
  "notify_parent_of_child_terminal x i c p s v d = Inr d' \<Longrightarrow> leases d' = leases d"
  by (auto simp: notify_parent_of_child_terminal_def res_simps dest!: lease_dest split: view_split)

interpretation terminate_leases: lease_neutral "terminate_workflow k x w reason a" for k x w reason a
  by unfold_locales (auto simp: terminate_workflow_def duplicate_request_def Let_def res_simps
      dest!: lease_dest split: view_split)

lemma append_command_leases:
  assumes "append_command env x w q ic s = Inr s'"
  shows "leases (fst s') = leases (fst s)"
  using assms
  by (cases "snd ic")
    (auto simp: append_command_def append_activity_command_def append_timer_command_def workflow_task_def
      append_marker_command_def append_child_workflow_command_def append_update_resolution_def
      Let_def res_simps split_beta dest!: lease_dest insert_task_leases split: view_split)

lemma append_commands_leases [lease_dest]:
  assumes "append_commands env x w q n cs d = Inr d'"
  shows "leases d' = leases d"
proof -
  obtain d1 n1 where 1: "foldR (append_command env x w q) (List.enumerate 0 cs) (d, n) = Inr (d1, n1)"
    and 2: "leases d' = leases d1"
    using assms by (auto simp: append_commands_def res_simps dest!: lease_dest split: if_splits)
  have "leases (fst (d1, n1)) = leases d"
    by (rule foldR_invariant[OF 1, where P = "\<lambda>s. leases (fst s) = leases d"])
      (auto dest: append_command_leases)
  with 2 show ?thesis by simp
qed

lemma commit_continue_as_new_leases [lease_dest]:
  "commit_continue_as_new env x w t n c d = Inr d' \<Longrightarrow> leases d' = leases d"
  by (auto simp: commit_continue_as_new_def Let_def res_simps dest!: lease_dest split: view_split)

lemma commit_cancellation_leases [lease_dest]:
  "commit_cancellation k x task e d = Inr d' \<Longrightarrow> leases d' = leases d"
  by (auto simp: commit_cancellation_def Let_def res_simps dest!: lease_dest)

lemma commit_commands_leases [lease_dest]:
  assumes "commit_commands env k x task q e cs d = Inr d'"
  shows "leases d' = leases d"
proof (cases "filter is_continuation cs")
  case Nil
  with assms show ?thesis by (auto simp: commit_commands_def dest: lease_dest split: if_splits)
next
  case (Cons c rest)
  with assms show ?thesis
    by (cases c) (auto simp: commit_commands_def res_simps dest!: lease_dest split: if_splits)
qed

lemma commit_close_leases [lease_dest]: "commit_close k x task e b v d = Inr d' \<Longrightarrow> leases d' = leases d"
  by (auto simp: commit_close_def Let_def res_simps dest!: lease_dest)

interpretation commit_leases: lease_neutral "commit_workflow_replay env k x task rr" for env k x task rr
  by unfold_locales (auto simp: commit_workflow_replay_def res_simps dest!: lease_dest
      split: view_split replay_status.splits simp del: insert_iff)

interpretation worker_leases: lease_neutral "heartbeat_worker x w h p q roles" for x w h p q roles
  by unfold_locales (auto dest: heartbeat_worker_Inr)

interpretation stop_worker_leases: lease_neutral "stop_worker x w" for x w
  by unfold_locales (auto simp: stop_worker_def)

lemma schedule_statement_leases [lease_dest]:
  "insert_schedule env s d = Inr d' \<Longrightarrow> leases d' = leases d"
  "insert_occurrence r d = Inr d' \<Longrightarrow> leases d' = leases d"
  by (auto simp: insert_schedule_def insert_occurrence_def res_simps)

lemma update_schedule_leases [simp]:
  "leases (update_schedule i f d) = leases d" "leases (update_occurrences p g d) = leases d"
  by (simp_all add: update_schedule_def update_occurrences_def)

lemma start_occurrence_leases [lease_dest]:
  "start_occurrence env x i j s t b d = Inr d' \<Longrightarrow> leases d' = leases d"
  by (auto simp: start_occurrence_def record_occurrence_def Let_def res_simps dest!: lease_dest split: if_splits)

interpretation create_schedule_leases:
  lease_neutral "create_schedule env zs x n wt v i c tz q sa op clk a" for env zs x n wt v i c tz q sa op clk a
  by unfold_locales (auto simp: create_schedule_def Let_def res_simps dest!: lease_dest split: view_split)

interpretation pause_schedule_leases: lease_neutral "set_schedule_paused zs x i p clk a" for zs x i p clk a
  by unfold_locales (auto simp: set_schedule_paused_def Let_def res_simps dest!: lease_dest split: view_split)

interpretation materialize_leases: lease_neutral "materialize_due_schedule env zs x clk" for env zs x clk
  by unfold_locales (auto simp: materialize_occurrence_def elim!: materialize_cases dest!: lease_dest split: if_splits)

interpretation backfill_leases: lease_neutral "backfill_schedule env zs x i a b l au" for env zs x i a b l au
proof
  fix d d' r
  assume "backfill_schedule env zs x i a b l au d = Inr (d', r)"
  then obtain row ts d1 det where 1: "foldR (backfill_one env x row) ts (d, 0) = Inr (d1, r)"
    and 2: "record_api_audit x au None True det d1 = Inr d'"
    by (rule backfill_cases)
  have "leases (fst (d1, r)) = leases d"
    by (rule foldR_invariant[OF 1, where P = "\<lambda>s. leases (fst s) = leases d"])
      (auto simp: backfill_one_def res_simps split_beta dest!: lease_dest split: if_splits)
  with 2 show "leases d' = leases d" by (auto dest!: lease_dest)
qed

section \<open>Tokens that are taken back and tokens that are handed out\<close>

lemma update_tasks_fewer_leases:
  assumes "\<And>t. task_lease (f t) i token \<Longrightarrow> task_lease t i token"
    and "leases (update_tasks p f d) i token"
  shows "leases d i token"
proof -
  obtain t where "t \<in> set (db_tasks d)" "task_lease (if p t then f t else t) i token"
    using assms(2) by (auto simp: leases_def update_tasks_def list_ex_iff)
  with assms(1) show ?thesis by (auto simp: leases_def list_ex_iff split: if_splits)
qed

lemma release_leases:
  "release_workflow_task env x task delay d = Inr (d', u) \<Longrightarrow> leases d' i token \<Longrightarrow> leases d i token"
  by (auto simp: release_workflow_task_def Let_def task_lease_def split: if_splits elim!: update_tasks_fewer_leases[rotated])

lemma reclaim_leases:
  "reclaim_expired_workflow_tasks x limit d = Inr (d', n) \<Longrightarrow> leases d' i token \<Longrightarrow> leases d i token"
  by (auto simp: reclaim_expired_workflow_tasks_def Let_def task_lease_def split: if_splits
      elim!: update_tasks_fewer_leases[rotated])

lemma lease_cases:
  assumes "lease_task env x ty q dur d = Inr (d', r)"
  obtains (none) "d' = d" "r = None"
  | (leased) t where "lease_candidate x ty q d = Some t" "r = Some (leased_task_of x (tx_uuid x 0) dur t)"
      "db_tasks d' = db_tasks (update_tasks (\<lambda>s. tk_id s = tk_id t \<and> tk_status s = TkPending)
        (take_lease x (tx_uuid x 0) dur) d)"
  using assms
  by (auto simp: lease_task_def res_simps Let_def set_next_seq_def update_execution_def update_executions_def
      split: if_splits option.splits dest!: insert_event_frame(2))

lemma lease_leases:
  assumes "lease_task env x ty q dur d = Inr (d', r)" and "leases d' i token"
    and "\<And>lt. r = Some lt \<Longrightarrow> lt_id lt = i \<Longrightarrow> lt_lease_token lt \<noteq> token"
  shows "leases d i token"
  using assms(1)
proof (cases rule: lease_cases)
  case (leased t)
  then obtain s where s: "s \<in> set (db_tasks d)" and
    "task_lease (if tk_id s = tk_id t \<and> tk_status s = TkPending then take_lease x (tx_uuid x 0) dur s else s) i token"
    using assms(2) by (auto simp: leases_def update_tasks_def list_ex_iff)
  moreover have "tk_id t = i \<Longrightarrow> tx_uuid x 0 \<noteq> token" using assms(3) leased(2) by (auto simp: leased_task_of_def)
  ultimately have "task_lease s i token" by (auto simp: task_lease_def take_lease_def split: if_splits)
  with s show ?thesis by (auto simp: leases_def list_ex_iff)
qed (use assms(2) in simp)

section \<open>Old tokens\<close>

text \<open>A step that does not hand out the token again: tokens come from \<^verbatim>\<open>uuid4\<close>.\<close>

definition step_without :: "uuid \<Rightarrow> uuid \<Rightarrow> db \<Rightarrow> db \<Rightarrow> bool" where
  "step_without i token d d' \<longleftrightarrow> step d d' \<and>
     (\<forall>env x ty q dur lt. lease_task env x ty q dur d = Inr (d', Some lt) \<longrightarrow> lt_id lt = i
        \<longrightarrow> lt_lease_token lt \<noteq> token)"

lemma step_without_leases:
  assumes "step_without i token d d'" and "leases d' i token"
  shows "leases d i token"
proof -
  have "step d d'" using assms(1) by (simp add: step_without_def)
  then show ?thesis
  proof cases
    case step_register then show ?thesis using register_leases.same_leases assms(2) by metis
  next
    case step_start then show ?thesis using start_leases.same_leases assms(2) by metis
  next
    case step_retry then show ?thesis using retry_leases.same_leases assms(2) by metis
  next
    case step_pause then show ?thesis using pause_leases.same_leases assms(2) by metis
  next
    case step_resume then show ?thesis using resume_leases.same_leases assms(2) by metis
  next
    case step_attributes then show ?thesis using attributes_leases.same_leases assms(2) by metis
  next
    case step_terminate then show ?thesis using terminate_leases.same_leases assms(2) by metis
  next
    case step_cancel then show ?thesis using cancel_leases.same_leases assms(2) by metis
  next
    case step_signal then show ?thesis using signal_leases.same_leases assms(2) by metis
  next
    case step_update then show ?thesis using update_leases.same_leases assms(2) by metis
  next
    case step_effect then show ?thesis using effect_leases.same_leases assms(2) by metis
  next
    case (step_lease env x ty q dur lt)
    with assms(1) show ?thesis by (intro lease_leases[OF step_lease assms(2)]) (auto simp: step_without_def)
  next
    case step_renew then show ?thesis using renew_leases.same_leases assms(2) by metis
  next
    case step_heartbeat then show ?thesis using heartbeat_leases.same_leases assms(2) by metis
  next
    case step_reclaim then show ?thesis using reclaim_leases assms(2) by blast
  next
    case step_release then show ?thesis using release_leases assms(2) by blast
  next
    case commit_where then show ?thesis using commit_leases.same_leases assms(2) by metis
  next
    case complete_where then show ?thesis using complete_leases.same_leases assms(2) by metis
  next
    case fail_where then show ?thesis using fail_leases.same_leases assms(2) by metis
  next
    case step_timer then show ?thesis using timer_leases.same_leases assms(2) by metis
  next
    case step_timeout then show ?thesis using timeout_leases.same_leases assms(2) by metis
  next
    case step_create_schedule then show ?thesis using create_schedule_leases.same_leases assms(2) by metis
  next
    case step_pause_schedule then show ?thesis using pause_schedule_leases.same_leases assms(2) by metis
  next
    case step_materialize then show ?thesis using materialize_leases.same_leases assms(2) by metis
  next
    case step_backfill then show ?thesis using backfill_leases.same_leases assms(2) by metis
  next
    case step_worker then show ?thesis using worker_leases.same_leases assms(2) by metis
  next
    case step_stop_worker then show ?thesis using stop_worker_leases.same_leases assms(2) by metis
  qed
qed

lemma steps_without_leases:
  "(step_without i token)\<^sup>*\<^sup>* d d' \<Longrightarrow> leases d' i token \<Longrightarrow> leases d i token"
  by (induction rule: rtranclp_induct) (auto dest: step_without_leases)

text \<open>Every transaction of an owner looks for a task that carries its token.\<close>

lemma stale_owner:
  assumes "\<not> leases d i token"
  shows "\<not> list_ex (holds_lease x i token) (db_tasks d)" and "List.find (holds_lease x i token) (db_tasks d) = None"
    and "filter (holds_lease x i token) (db_tasks d) = []"
    and "lt_id task = i \<Longrightarrow> lt_lease_token task = token \<Longrightarrow> List.find (activity_live x task) (db_tasks d) = None"
    and "List.find (\<lambda>t. (holds_lease x i token t \<and> P t) \<and> Q t) (db_tasks d) = None"
  using assms
  by (auto simp: leases_def list_ex_iff task_lease_def holds_lease_def activity_live_def find_None_iff filter_empty_conv)

lemma stale_owner_refused:
  assumes "\<not> leases d (lt_id old) (lt_lease_token old)"
  shows "load_workflow_replay_state x old d d3 d4 \<noteq> Inr st" and "commit_workflow_replay env k x old rr d \<noteq> Inr r1"
    and "complete_activity x old v d \<noteq> Inr r1" and "fail_activity env x old v rv d \<noteq> Inr r2"
    and "renew_lease env x (lt_id old) (lt_lease_token old) dur d \<noteq> Inr r3"
    and "heartbeat_activity env x (lt_id old) (lt_lease_token old) det dur d \<noteq> Inr r3"
    and "release_workflow_task env x old delay d \<noteq> Inr r1"
proof -
  note none = stale_owner[OF assms]
  show "load_workflow_replay_state x old d d3 d4 \<noteq> Inr st" using none by (simp add: load_workflow_replay_state_def)
  show "commit_workflow_replay env k x old rr d \<noteq> Inr r1" using none by (simp add: commit_workflow_replay_def)
  show "complete_activity x old v d \<noteq> Inr r1" using none by (simp add: complete_activity_def)
  show "fail_activity env x old v rv d \<noteq> Inr r2" using none by (auto simp: fail_activity_def res_simps Let_def)
  show "renew_lease env x (lt_id old) (lt_lease_token old) dur d \<noteq> Inr r3" using none by (simp add: renew_lease_def)
  show "heartbeat_activity env x (lt_id old) (lt_lease_token old) det dur d \<noteq> Inr r3"
    using none by (simp add: heartbeat_activity_def Let_def)
  show "release_workflow_task env x old delay d \<noteq> Inr r1" using none by (simp add: release_workflow_task_def Let_def)
qed

end
