(* ===== verification/Liveness.thy ===== *)
theory Liveness
  imports Transition_Laws
begin

text \<open>
  Statements and transitions that cannot fail: on a database that satisfies the invariant no
  constraint stops the events that closing a workflow records, and the recursion over its
  descendants ends. The depth that is enough is the number of executions, because a child is
  always younger than its parent.
\<close>

lemma insert_event_succeeds:
  assumes "progress ov X Y d0 d" and "find_execution d w = Some r" and "cursor ov r = n"
  shows "\<exists>d'. insert_event x w n ty None ent None attrs d = Inr d'"
proof -
  have ok: "store_ok ov X Y d" using assms(1) by (simp add: progress_def)
  have r: "r \<in> set (db_executions d)" "ex_id r = w" using find_execution_Some[OF assms(2)] by auto
  then have n: "1 \<le> n" "map hr_seq (workflow_history d w) = [1..n - 1]"
    using ok assms(3) by (auto simp: store_ok_def)
  have "hr_seq s \<noteq> n" if "s \<in> set (db_history d)" "hr_workflow_id s = w" for s
  proof -
    have "s \<in> set (workflow_history d w)" using that by (simp add: workflow_history_def)
    then have "hr_seq s \<in> set [1..n - 1]" using n(2) by (metis image_eqI list.set_map)
    then show ?thesis by simp
  qed
  moreover have "execution_exists d w"
    using r by (auto simp: execution_exists_def list_ex_iff)
  ultimately show ?thesis
    using n(1) by (auto simp: insert_event_def insert_history_def history_entry_def check_all_def
        list_all_iff opt_exists_def)
qed

lemma terminate_child_succeeds:
  assumes "progress ov X Y d0 d" and "find_execution d (ex_id c) = Some c" and "ov (ex_id c) = None"
  shows "\<exists>d'. terminate_child x c d = Inr d'"
proof -
  have "cursor ov c = ex_next_seq c" using assms(3) by (simp add: cursor_def)
  from insert_event_succeeds[OF assms(1,2) this] show ?thesis
    by (auto simp: terminate_child_def bindR_def split: sum.splits) (metis sum.distinct(1))
qed

lemma terminate_children_succeed:
  assumes rec: "\<And>q d. progress ov X Y d0 d \<Longrightarrow> execution_exists d q \<Longrightarrow>
      \<forall>v\<in>dom ov. position d v \<le> position d q \<Longrightarrow> length (db_executions d) \<le> k + position d q \<Longrightarrow>
      \<exists>d'. terminate_descendants k x q d = Inr d'"
    and "progress ov X Y d0 d" and "\<forall>v\<in>dom ov. position d v \<le> position d p"
    and "length (db_executions d) \<le> Suc k + position d p"
    and "distinct (map ex_id cs)"
    and "\<forall>c\<in>set cs. find_execution d (ex_id c) = Some c \<and> ex_parent_workflow_id c = Some p
      \<and> ex_status c = WfRunning"
  shows "\<exists>d'. foldR (\<lambda>c d. bindR (terminate_descendants k x (ex_id c) d) (terminate_child x c)) cs d = Inr d'"
  using assms(2-)
proof (induction cs arbitrary: d)
  case (Cons c cs)
  have c: "find_execution d (ex_id c) = Some c" "ex_parent_workflow_id c = Some p" "ex_status c = WfRunning"
    using Cons.prems(5) by simp_all
  have pos: "position d p < position d (ex_id c)"
    using Cons.prems(1) find_execution_Some[OF c(1)] c(2)
    by (auto simp: progress_def store_ok_def parents_first_def)
  have below: "\<forall>v\<in>dom ov. position d v \<le> position d (ex_id c)"
    using Cons.prems(2) pos by (meson less_imp_le_nat order_trans)
  have "execution_exists d (ex_id c)" using c(1) find_execution_None[of d "ex_id c"] by simp
  then obtain d1 where 1: "terminate_descendants k x (ex_id c) d = Inr d1"
    using rec[OF Cons.prems(1) _ below] pos Cons.prems(3) by auto
  note d1 = terminate_descendants_progress[OF 1 Cons.prems(1) below child_closing_True,
      unfolded descends_ok_def]
  have child: "find_execution d1 (ex_id b) = Some b" if "b \<in> set (c # cs)" for b
    using d1 Cons.prems(5) that pos by (auto simp: above_def)
  have none: "ov (ex_id c) = None"
    using Cons.prems(2) pos by (metis domI leD not_None_eq)
  have c1: "find_execution d1 (ex_id c) = Some c" by (rule child) simp
  obtain d2 where 2: "terminate_child x c d1 = Inr d2"
    using terminate_child_succeeds[OF conjunct1[OF d1] c1 none] by blast
  note d2 = terminate_child_progress[OF 2 conjunct1[OF d1] c1 c(3) none]
  have ids: "same_ids d d2" using d1 d2(2) same_ids_trans by auto
  have "\<forall>b\<in>set cs. find_execution d2 (ex_id b) = Some b \<and> ex_parent_workflow_id b = Some p
      \<and> ex_status b = WfRunning"
    using child d2(3) Cons.prems(4,5)
    by (metis image_eqI list.set_map distinct.simps(2) list.simps(9) list.set_intros(1,2))
  moreover have "length (db_executions d2) = length (db_executions d)"
    using ids by (metis same_ids_def length_map)
  ultimately have "\<exists>d'. foldR (\<lambda>c d. bindR (terminate_descendants k x (ex_id c) d) (terminate_child x c)) cs d2
      = Inr d'"
    using Cons.prems(2-4) same_ids_simps(1)[OF ids] d2(1) by (intro Cons.IH) auto
  with 1 2 show ?case by simp
qed simp

lemma terminate_descendants_succeeds:
  assumes "progress ov X Y d0 d" and "execution_exists d p" and "\<forall>v\<in>dom ov. position d v \<le> position d p"
    and "length (db_executions d) \<le> k + position d p"
  shows "\<exists>d'. terminate_descendants k x p d = Inr d'"
  using assms
proof (induction k arbitrary: p d)
  case 0
  then show ?case using position_less[of d p] by simp
next
  case (Suc k)
  have "store_ok ov X Y d" using Suc.prems(1) by (simp add: progress_def)
  note children = running_children_simps[OF this, of p]
  show ?case unfolding terminate_descendants.simps
    by (rule terminate_children_succeed[where p = p]) (use Suc children in auto)
qed

lemma cancel_timers_succeed:
  assumes "progress ov X Y d0 d" and "find_execution d w = Some r" and "ex_status r = WfRunning"
    and "cursor ov r = n"
  shows "\<exists>d' n'. foldR (cancel_timer x w reason) ts (d, n) = Inr (d', n')"
  using assms
proof (induction ts arbitrary: d n ov)
  case (Cons t ts)
  let ?d = "update_tasks (\<lambda>s. tk_id s = tk_id t \<and> tk_status s = TkPending) (finish_task x TkDead) d"
  have p: "progress ov X Y d0 ?d"
    by (rule finish_tasks_progress[OF Cons.prems(1)]) (auto simp: open_task_def)
  obtain d' where "insert_event x w n TimerCanceled None (tk_entity_id t) None
      [(''reason'', JStr reason)] ?d = Inr d'"
    using insert_event_succeeds[OF p _ Cons.prems(4), of w x TimerCanceled] Cons.prems(2)
    by (metis update_tasks_frame(7))
  then have "\<exists>s. cancel_timer x w reason t (d, n) = Inr s"
    by (auto simp: cancel_timer_def Let_def)
  then obtain d1 n1 where 1: "cancel_timer x w reason t (d, n) = Inr (d1, n1)" by auto
  from cancel_timer_progress[OF 1 Cons.prems] obtain ov1 where
    ov1: "progress ov1 X Y d0 d1" "cursor ov1 r = n1" "db_executions d1 = db_executions d" by blast
  have "find_execution d1 w = Some r" using find_execution_cong[OF ov1(3)] Cons.prems(2) by simp
  from Cons.IH[OF ov1(1) this Cons.prems(3) ov1(2)] 1 show ?case by simp
qed simp

lemma insert_workflow_task_succeeds:
  assumes "execution_exists d w" and "\<forall>t\<in>set (db_tasks d). tk_id t \<noteq> i"
  shows "\<exists>d'. insert_workflow_task x i w q d = Inr d'"
  using assms by (auto simp: insert_workflow_task_def insert_task_def check_all_def workflow_task_def
      task_check_def positive_def list_all_iff)


section \<open>Terminating a workflow\<close>

definition same_task_ids :: "db \<Rightarrow> db \<Rightarrow> bool" where
  "same_task_ids d d' \<longleftrightarrow> map tk_id (db_tasks d') = map tk_id (db_tasks d)"

lemma same_task_ids_trans: "same_task_ids a b \<Longrightarrow> same_task_ids b c \<Longrightarrow> same_task_ids a c"
  by (simp add: same_task_ids_def)

lemma same_task_ids_fresh:
  assumes "same_task_ids d d'" and "\<forall>t\<in>set (db_tasks d). tk_id t \<noteq> i"
  shows "\<forall>t\<in>set (db_tasks d'). tk_id t \<noteq> i"
proof -
  have "tk_id ` set (db_tasks d') = tk_id ` set (db_tasks d)"
    using arg_cong[OF assms(1)[unfolded same_task_ids_def], of set] by simp
  with assms(2) show ?thesis by (metis imageE imageI)
qed

lemma finish_same_task_ids: "same_task_ids d (update_tasks p (finish_task x s) d)"
  by (simp add: same_task_ids_def update_tasks_def)

lemma terminate_child_task_ids:
  assumes "terminate_child x c d = Inr d'"
  shows "same_task_ids d d'"
proof -
  obtain attrs d1 f where
    "insert_event x (ex_id c) (ex_next_seq c) WorkflowExecutionTerminated None None None attrs d = Inr d1"
    and "d' = reject_pending_updates x (ex_id c) ''parent workflow closed''
       (kill_tasks x (ex_id c) (update_execution (ex_id c) f d1))"
    using assms by (auto simp: terminate_child_def res_simps)
  then show ?thesis
    using insert_event_frame(2) finish_same_task_ids
    by (simp add: same_task_ids_def reject_pending_updates_def kill_tasks_def)
qed

lemma terminate_descendants_task_ids:
  "terminate_descendants k x p d = Inr d' \<Longrightarrow> same_task_ids d d'"
proof (induction k arbitrary: p d d')
  case (Suc k)
  show ?case
  proof (rule foldR_invariant[where P = "same_task_ids d"])
    show "foldR (\<lambda>c d. bindR (terminate_descendants k x (ex_id c) d) (terminate_child x c))
        (running_children p d) d = Inr d'"
      using Suc.prems by simp
    show "same_task_ids d t" if "same_task_ids d s"
      "bindR (terminate_descendants k x (ex_id c) s) (terminate_child x c) = Inr t" for c s t
      using that Suc.IH terminate_child_task_ids same_task_ids_trans by (auto simp: res_simps) blast
  qed (simp add: same_task_ids_def)
qed simp

lemma cancel_timers_task_ids:
  "foldR (cancel_timer x w reason) ts (d, n) = Inr (d', n') \<Longrightarrow> same_task_ids d d'"
proof (induction ts arbitrary: d n)
  case (Cons t ts)
  obtain d1 n1 where 1: "cancel_timer x w reason t (d, n) = Inr (d1, n1)"
    and 2: "foldR (cancel_timer x w reason) ts (d1, n1) = Inr (d', n')"
    using Cons.prems by (auto simp: res_simps)
  have "same_task_ids d d1"
    using 1 finish_same_task_ids insert_event_frame(2)
    by (auto simp: cancel_timer_def Let_def res_simps same_task_ids_def split: if_splits)
  from this Cons.IH[OF 2] show ?case by (rule same_task_ids_trans)
qed (simp add: same_task_ids_def)

lemma notify_parent_succeeds:
  assumes "progress Map.empty X Y d0 d" and "\<forall>t\<in>set (db_tasks d). tk_id t \<noteq> i"
  shows "\<exists>d'. notify_parent_of_child_terminal x i child parent st payload d = Inr d'"
proof (cases "\<exists>p e. parent = Some p \<and> find_execution d p = Some e \<and> ex_status e = WfRunning")
  case True
  then obtain p e where e: "parent = Some p" "find_execution d p = Some e" "ex_status e = WfRunning"
    by auto
  obtain d1 where 1: "insert_event x p (ex_next_seq e) (child_event_type st) None (Some child) None
      [(if st = WfCompleted then ''result'' else ''failure'', payload)] d = Inr d1"
    using insert_event_succeeds[OF assms(1) e(2) cursor_simps(1)] by metis
  have "find_execution (set_next_seq p (ex_next_seq e + 1) d1) p \<noteq> None"
    using e(2) insert_event_find[OF 1] by simp
  then have "execution_exists (set_next_seq p (ex_next_seq e + 1) d1) p"
    unfolding find_execution_None by simp
  moreover have "\<forall>t\<in>set (db_tasks (set_next_seq p (ex_next_seq e + 1) d1)). tk_id t \<noteq> i"
    using assms(2) insert_event_frame(2)[OF 1] by (simp add: set_next_seq_def)
  ultimately obtain d2 where
    "insert_workflow_task x i p (ex_queue_name e) (set_next_seq p (ex_next_seq e + 1) d1) = Inr d2"
    using insert_workflow_task_succeeds by blast
  with 1 e show ?thesis by (simp add: notify_parent_of_child_terminal_def)
next
  case False
  then show ?thesis
    by (auto simp: notify_parent_of_child_terminal_def split: option.splits)
qed

lemma terminate_workflow_succeeds:
  assumes "committed d" and "find_execution d w = Some e" and "ex_status e = WfRunning"
    and "length (db_executions d) \<le> k" and "\<forall>t\<in>set (db_tasks d). tk_id t \<noteq> tx_uuid x 0"
  shows "\<exists>d' e'. terminate_workflow k x w reason None d = Inr (d', True)
    \<and> find_execution d' w = Some e' \<and> ex_status e' = WfTerminated"
proof -
  note p = committed_progress[OF assms(1)]
  let ?f = "\<lambda>n e. e\<lparr>ex_status := WfTerminated, ex_next_seq := n + 1, ex_closed_at := Some (tx_now x)\<rparr>"
  have "execution_exists d w" using assms(2) find_execution_None[of d w] by simp
  then obtain d1 where 1: "terminate_descendants k x w d = Inr d1"
    using terminate_descendants_succeeds[OF p, of w k x] assms(4) by auto
  note d1 = terminate_descendants_of_progress[OF 1 p _ assms(2)]
  define r1 where "r1 = reject_pending_updates x w ''workflow terminated'' d1"
  have p1: "progress Map.empty {} {} d r1" and e1: "find_execution r1 w = Some e"
    using d1 by (auto simp: r1_def reject_pending_updates_def intro: update_updates_progress)
  obtain d2 n where 2: "cancel_pending_timers x w (ex_next_seq e) ''workflow terminated'' r1 = Inr (d2, n)"
    unfolding cancel_pending_timers_def
    using cancel_timers_succeed[OF p1 e1 assms(3) cursor_simps(1)] by metis
  note d2 = cancel_pending_timers_progress[OF 2 p1 e1 assms(3) refl]
  have e2: "find_execution d2 w = Some e" and id: "ex_id e = w"
    using d2(2) e1 find_execution_Some[OF assms(2)] by auto
  obtain d3 where 3: "insert_event x w n WorkflowExecutionTerminated None None None
      [(''reason'', reason_json reason)] d2 = Inr d3"
    using insert_event_succeeds[OF d2(1) e2 cursor_simps(2)[OF id]] by metis
  let ?d4 = "kill_tasks x w (update_execution w (?f n) d3)"
  have "progress Map.empty (insert w {}) {} d (update_execution w (?f n) d3)"
    by (rule close_execution_progress[OF 3 d2(1) e2 assms(3)])
      (use assms(3) in \<open>auto simp: same_identity_def close_execution_check\<close>)
  then have p4: "progress Map.empty {} {} d ?d4" by (rule kill_tasks_progress)
  have "same_task_ids d ?d4"
    using terminate_descendants_task_ids[OF 1] cancel_timers_task_ids[OF 2[unfolded cancel_pending_timers_def]]
      insert_event_frame(2)[OF 3] finish_same_task_ids[of "update_execution w (?f n) d3"]
    by (simp add: same_task_ids_def r1_def reject_pending_updates_def kill_tasks_def)
  then have "\<forall>t\<in>set (db_tasks ?d4). tk_id t \<noteq> tx_uuid x 0"
    using assms(5) same_task_ids_fresh by blast
  from notify_parent_succeeds[OF p4 this] obtain d5 where
    5: "notify_parent_of_child_terminal x (tx_uuid x 0) w (ex_parent_workflow_id e) WfTerminated
      (JObj [(''reason'', reason_json reason)]) ?d4 = Inr d5" by blast
  have "progress Map.empty {} {} ?d4 ?d4" using p4 by (simp add: progress_def)
  from notify_parent_progress[OF 5 this] have "only_appends ?d4 d5" by (simp add: progress_def)
  moreover have "find_execution ?d4 w = Some (?f n e)"
    using e2 insert_event_find[OF 3] by (simp add: kill_tasks_def find_update_execution)
  ultimately obtain e' where "find_execution d5 w = Some e'" and "execution_le (?f n e) e'"
    unfolding only_appends_def by blast
  with assms(2,3) 1 2 3 5 show ?thesis
    by (simp add: terminate_workflow_def r1_def record_api_audit_def execution_le_def)
qed

section \<open>Draining the due timers\<close>

text \<open>Maintenance fires one timer per pass; the loop goes on while a pass has found one.\<close>

primrec fire_timers ::
  "nat \<Rightarrow> pyenv \<Rightarrow> (nat \<Rightarrow> tx) \<Rightarrow> string option \<Rightarrow> timestamp \<Rightarrow> db \<Rightarrow> (db_error + db) option" where
  "fire_timers 0 env x q t d = None"
| "fire_timers (Suc n) env x q t d =
     (case fire_due_timer env (x n) q (Some t) d of
        Inl e \<Rightarrow> Some (Inl e)
      | Inr (d, fired) \<Rightarrow> if fired then fire_timers n env x q t d else Some (Inr d))"

definition timer_backlog :: "string option \<Rightarrow> timestamp \<Rightarrow> db \<Rightarrow> task_row list" where
  "timer_backlog q t d =
     filter (\<lambda>r. tk_task_type r = TimerTask \<and> tk_status r = TkPending \<and> tk_visible_at r \<le> t \<and> queue_matches q r
       \<and> (case find_execution d (tk_workflow_id r) of
            None \<Rightarrow> False
          | Some e \<Rightarrow> ex_status e = WfRunning \<and> ex_paused_at e = None \<and> ex_cancellation_requested_at e = None))
       (db_tasks d)"

lemma timer_backlog_due:
  "tx_locked x = [] \<Longrightarrow> timer_backlog q t d = filter (due_timer x q (Some t) d) (db_tasks d)"
  by (simp add: timer_backlog_def due_timer_def cong: filter_cong)

lemma filter_shorter:
  assumes "\<And>x. x \<in> set xs \<Longrightarrow> Q x \<Longrightarrow> P x" and "y \<in> set xs" and "P y" and "\<not> Q y"
  shows "length (filter Q xs) < length (filter P xs)"
proof -
  have "filter Q xs = filter Q (filter P xs)" using assms(1) by (auto intro: filter_cong)
  moreover have "length (filter Q (filter P xs)) < length (filter P xs)"
    by (rule length_filter_less[of y]) (use assms in auto)
  ultimately show ?thesis by simp
qed

lemma backlog_shrinks:
  assumes "tx_locked x = []" and timer: "timer \<in> set (db_tasks d)" "due_timer x q (Some t) d timer"
    and tasks: "db_tasks d' = map (\<lambda>r. if tk_id r = tk_id timer then finish_task x TkCompleted r else r) (db_tasks d)
      @ [workflow_task x i w qn]"
    and find: "\<And>v. find_execution d' v = map_option (\<lambda>r. if v = w then r\<lparr>ex_next_seq := n\<rparr> else r)
      (find_execution d v)"
  shows "length (timer_backlog q t d') < length (timer_backlog q t d)"
proof -
  let ?g = "\<lambda>r. if tk_id r = tk_id timer then finish_task x TkCompleted r else r"
  have new: "\<not> due_timer x q (Some t) d' (workflow_task x i w qn)" by (simp add: due_timer_def workflow_task_def)
  have fired: "\<not> due_timer x q (Some t) d' (?g timer)" by (simp add: due_timer_def finish_task_def)
  have old: "due_timer x q (Some t) d r" if "due_timer x q (Some t) d' (?g r)" for r
    using that by (auto simp: due_timer_def find finish_task_def split: option.splits if_splits)
  have "length (filter (due_timer x q (Some t) d' \<circ> ?g) (db_tasks d))
      < length (filter (due_timer x q (Some t) d) (db_tasks d))"
    by (rule filter_shorter[where y = timer]) (use timer old fired in \<open>simp_all add: comp_def\<close>)
  with new show ?thesis by (simp add: timer_backlog_due[OF assms(1)] tasks filter_map)
qed

lemma fire_due_timer_cases:
  assumes com: "committed d" and "tx_locked x = []" and fresh: "\<forall>r\<in>set (db_tasks d). tk_id r \<noteq> tx_uuid x 0"
  obtains (idle) "fire_due_timer env x q (Some t) d = Inr (d, False)" "timer_backlog q t d = []"
  | (fired) d' where "fire_due_timer env x q (Some t) d = Inr (d', True)" "committed d'"
      "length (timer_backlog q t d') < length (timer_backlog q t d)"
      "tk_id ` set (db_tasks d') = insert (tx_uuid x 0) (tk_id ` set (db_tasks d))"
proof (cases "select_first (due_timer x q (Some t) d) (\<lambda>r. (tk_visible_at r, tk_id r)) (db_tasks d)")
  case None
  then show ?thesis
    using idle None unfolding select_first_None
    by (simp add: fire_due_timer_def timer_backlog_due[OF assms(2)] filter_empty_conv select_first_None[THEN iffD2])
next
  case (Some timer)
  have timer: "timer \<in> set (db_tasks d)" "due_timer x q (Some t) d timer" using select_first_Some[OF Some] by auto
  then obtain e where e: "find_execution d (tk_workflow_id timer) = Some e" "ex_status e = WfRunning"
    by (auto simp: due_timer_def split: option.splits)
  let ?w = "tk_workflow_id timer"
  note p = committed_progress[OF com]
  obtain d1 where 1: "insert_event x ?w (ex_next_seq e) TimerFired None (tk_entity_id timer) None
      [(''scheduled_for'', JStr (py_isoformat env (tk_visible_at timer)))] d = Inr d1"
    using insert_event_succeeds[OF p e(1) cursor_simps(1)] by metis
  let ?g = "\<lambda>r. if tk_id r = tk_id timer then finish_task x TkCompleted r else r"
  let ?da = "update_tasks (\<lambda>r. tk_id r = tk_id timer) (finish_task x TkCompleted) d1"
  have "execution_exists ?da ?w"
    using e(1) insert_event_find[OF 1] find_execution_None[of ?da ?w] by simp
  moreover have ids: "map tk_id (db_tasks ?da) = map tk_id (db_tasks d)"
    using insert_event_frame(2)[OF 1] by (simp add: update_tasks_def)
  then have "\<forall>r\<in>set (db_tasks ?da). tk_id r \<noteq> tx_uuid x 0"
    using fresh by (metis (no_types, lifting) imageE imageI list.set_map)
  ultimately obtain d2 where 2: "insert_workflow_task x (tx_uuid x 0) ?w (tk_queue_name timer) ?da = Inr d2"
    using insert_workflow_task_succeeds by blast
  let ?d = "set_next_seq ?w (ex_next_seq e + 1) d2"
  have op: "fire_due_timer env x q (Some t) d = Inr (?d, True)"
    using Some e 1 2 by (simp add: fire_due_timer_def)
  have tasks: "db_tasks ?d = map ?g (db_tasks d) @ [workflow_task x (tx_uuid x 0) ?w (tk_queue_name timer)]"
    using insert_task_frame(5)[OF 2[unfolded insert_workflow_task_def]] insert_event_frame(2)[OF 1]
    by (simp add: set_next_seq_def update_tasks_def)
  have find: "find_execution ?d v = map_option (\<lambda>r. if v = ?w then r\<lparr>ex_next_seq := ex_next_seq e + 1\<rparr> else r)
      (find_execution d v)" for v
    using insert_task_find[OF 2[unfolded insert_workflow_task_def]] insert_event_find[OF 1]
    by (simp add: set_next_seq_def find_update_execution option.map_ident)
  have "length (timer_backlog q t ?d) < length (timer_backlog q t d)"
    by (rule backlog_shrinks[OF assms(2) timer tasks find])
  moreover have "map tk_id (db_tasks ?d) = map tk_id (db_tasks d) @ [tx_uuid x 0]"
    unfolding tasks by (simp add: workflow_task_def)
  from arg_cong[OF this, of set] have "tk_id ` set (db_tasks ?d) = insert (tx_uuid x 0) (tk_id ` set (db_tasks d))"
    by simp
  ultimately show ?thesis using fired[OF op timer_tx.keeps_committed[OF com op]] by blast
qed


lemma fire_timers_ends:
  assumes "committed d" and "\<forall>i. tx_locked (x i) = []" and "inj_on (\<lambda>i. tx_uuid (x i) 0) {..<n}"
    and "\<forall>i<n. tx_uuid (x i) 0 \<notin> tk_id ` set (db_tasks d)" and "length (timer_backlog q t d) < n"
  shows "\<exists>d'. fire_timers n env x q t d = Some (Inr d') \<and> timer_backlog q t d' = []"
  using assms
proof (induction n arbitrary: d)
  case (Suc n)
  have fresh: "\<forall>r\<in>set (db_tasks d). tk_id r \<noteq> tx_uuid (x n) 0" using Suc.prems(4) by (metis imageI lessI)
  have lock: "tx_locked (x n) = []" using Suc.prems(2) by simp
  from Suc.prems(1) lock fresh show ?case
  proof (cases rule: fire_due_timer_cases[where env = env and q = q and t = t])
    case idle
    then show ?thesis by simp
  next
    case (fired d')
    have "inj_on (\<lambda>i. tx_uuid (x i) 0) {..<n}"
      by (rule inj_on_subset[OF Suc.prems(3)]) auto
    moreover have "tx_uuid (x i) 0 \<notin> tk_id ` set (db_tasks d')" if "i < n" for i
      using Suc.prems(3,4) that inj_onD[OF Suc.prems(3), of i n] by (auto simp: fired(4))
    ultimately show ?thesis using Suc.IH[OF fired(2) Suc.prems(2)] fired(1,3) Suc.prems(5) by simp
  qed
qed simp

end
