(* ===== verification/Replay_Properties.thy ===== *)
theory Replay_Properties
  imports Replay
begin

text \<open>
  The properties of history indexing and replay, with small concrete workflows and histories on
  which they are applied. \<open>sample_env\<close> fixes the Python library functions to simple total
  functions, so that replay computes.
\<close>

section \<open>Sample workflows and histories\<close>

definition sample_env :: pyenv where
  "sample_env = \<lparr>py_sha256 = (\<lambda>s. []), py_uuid5 = (\<lambda>s. 7), py_float_repr = (\<lambda>q. []),
     py_repr = (\<lambda>v. []), py_isoformat = int_str, py_fromisoformat = (\<lambda>s. None),
     py_parse_uuid = (\<lambda>s. None), py_round = (\<lambda>q. q),
     py_pow = (\<lambda>q n. Some (q ^ nat n)), py_mul = (\<lambda>p q. Some (p * q)),
     py_timedelta = (\<lambda>q. Some \<lfloor>q * 1000000\<rfloor>), pg_seconds = (\<lambda>q. \<lfloor>q * 1000000\<rfloor>),
     pg_column_size = (\<lambda>v. 0)\<rparr>"

definition sample_event ::
  "int \<Rightarrow> event_type \<Rightarrow> dict \<Rightarrow> int option \<Rightarrow> uuid option \<Rightarrow> string option \<Rightarrow> history_event" where
  "sample_event n t a c e x = \<lparr>ev_seq = n, ev_type = t, ev_attributes = a, ev_command_id = c,
     ev_entity_id = e, ev_external_id = x\<rparr>"

definition finish :: "exn + answer \<Rightarrow> prog" where
  "finish r = (case r of Inl e \<Rightarrow> Fail e | Inr v \<Rightarrow> Done JNull)"

text \<open>Waits for a signal, then sleeps for a second.\<close>

definition wait_then_sleep :: "json \<Rightarrow> prog" where
  "wait_then_sleep input =
     Await (ReqWaitSignal ''go'' None) (\<lambda>_. Await (ReqSleep 1000000) finish)"

definition started :: "history_event list" where
  "started = [sample_event 1 WorkflowExecutionStarted [] None None None]"

definition started_and_signaled :: "history_event list" where
  "started_and_signaled = started @
     [sample_event 2 SignalReceived [(''name'', JStr ''go'')] None None (Some ''s1'')]"

definition slept :: "history_event list" where
  "slept = started_and_signaled @
     [sample_event 3 TimerStarted [(''fingerprint'', JStr [])] (Some 0) (Some 10) None,
      sample_event 4 TimerFired [] None (Some 10) None]"

text \<open>Starts activities together; the arguments of \<^verbatim>\<open>ctx.activity\<close> come as tuples.\<close>

type_synonym activity_args =
  "string \<times> json list \<times> dict \<times> retry_policy option \<times> interval option \<times> interval option \<times> interval option"

fun fan_out :: "activity_args list \<Rightarrow> nat list \<Rightarrow> (exn + json list \<Rightarrow> prog) \<Rightarrow> prog" where
  "fan_out [] calls k = Gather calls k"
| "fan_out ((d, args, kwargs, retry, s2s, s2c, hb) # acts) calls k =
     NewActivity d args kwargs retry s2s s2c hb (\<lambda>i. fan_out acts (calls @ [i]) k)"

text \<open>Catches \<^verbatim>\<open>ActivityError\<close>, and nothing else, around a \<^verbatim>\<open>gather\<close>, sleeps and goes on.\<close>

definition recover :: "interval \<Rightarrow> (answer \<Rightarrow> prog) \<Rightarrow> (json list \<Rightarrow> prog) \<Rightarrow> exn + json list \<Rightarrow> prog" where
  "recover t after rest r =
     (case r of
        Inr vs \<Rightarrow> rest vs
      | Inl (ActivityError d v) \<Rightarrow>
          Await (ReqSleep t) (\<lambda>a. case a of Inl e \<Rightarrow> Fail e | Inr u \<Rightarrow> after u)
      | Inl e \<Rightarrow> Fail e)"

definition two_activities :: "activity_args list" where
  "two_activities = [(''a'', [], [], None, None, None, None), (''b'', [], [], None, None, None, None)]"

definition gather_and_recover :: "json \<Rightarrow> prog" where
  "gather_and_recover input =
     fan_out two_activities [] (recover 1000000 (\<lambda>_. Done JNull) (\<lambda>_. Done JNull))"

definition gathered :: "history_event list" where
  "gathered = started @
    [sample_event 2 ActivityScheduled [(''fingerprint'', JStr [])] (Some 0) (Some 10) None,
     sample_event 3 ActivityScheduled [(''fingerprint'', JStr [])] (Some 1) (Some 11) None]"

text \<open>Sleeps for a second unless cancellation has been requested.\<close>

definition cancel_aware :: "json \<Rightarrow> prog" where
  "cancel_aware input = CancellationRequested (\<lambda>b.
     if b then Done JNull else Await (ReqSleep 1000000) finish)"

definition sleeping :: "history_event list" where
  "sleeping = started @
     [sample_event 2 TimerStarted [(''fingerprint'', JStr [])] (Some 0) (Some 10) None]"

section \<open>Histories\<close>

text \<open>
  C1. The index constructor accepts exactly the well-formed histories and builds exactly the
  dictionaries that the declarative reference definition describes; every other history is
  refused.
\<close>

theorem history_index_accepts_exactly_valid:
  "HistoryIndex h = Inr ix \<longleftrightarrow> valid_history h \<and> ix = reference_index h h"
  by (rule HistoryIndex_iff)

section \<open>Replay\<close>

text \<open>
  C3. A decision of replay (new commands, completion, failure or divergence) is the same over a
  history to which other transactions have added events while the worker was deciding: signals,
  updates, results, timers, a request for cancellation. This is what makes it sound to commit a
  decision computed from an older snapshot. \<open>replay_steady\<close> names the two cases in which the decision
  may change: a \<^verbatim>\<open>gather\<close> that passed a call still running and then raised or asked for commands, and,
  when a request for cancellation is among the events, a test of the cancellation flag before it.
\<close>

theorem replay_decision_unchanged_by_external_events:
  assumes "replay_steady (cancels later) env f w i H"
    and "\<forall>r. replay_workflow env f w i H = Inr r \<longrightarrow> rr_status r \<noteq> BLOCKED"
    and "valid_history (H @ later)" and "\<forall>ev\<in>set later. external_event ev"
  shows "replay_workflow env f w i (H @ later) = replay_workflow env f w i H"
  by (rule replay_decision_stable[OF assms])

text \<open>A fan-out is decided while a signal and a request for cancellation arrive.\<close>

definition arrivals :: "history_event list" where
  "arrivals = [sample_event 2 SignalReceived [(''name'', JStr ''go'')] None None (Some ''s''),
     sample_event 3 WorkflowCancellationRequested [] None None None]"

theorem replay_decision_unchanged_by_external_events_witness:
  "map_sum id rr_status (replay_workflow sample_env gather_and_recover 0 JNull started) = Inr COMMANDS
   \<and> replay_workflow sample_env gather_and_recover 0 JNull (started @ arrivals)
      = replay_workflow sample_env gather_and_recover 0 JNull started"
proof
  show commands: "map_sum id rr_status (replay_workflow sample_env gather_and_recover 0 JNull started) = Inr COMMANDS"
    by code_simp
  show "replay_workflow sample_env gather_and_recover 0 JNull (started @ arrivals)
      = replay_workflow sample_env gather_and_recover 0 JNull started"
  proof (rule replay_decision_unchanged_by_external_events)
    show "replay_steady (cancels arrivals) sample_env gather_and_recover 0 JNull started" by code_simp
    show "\<forall>r. replay_workflow sample_env gather_and_recover 0 JNull started = Inr r \<longrightarrow> rr_status r \<noteq> BLOCKED"
      using commands by auto
  qed (code_simp, code_simp)
qed

text \<open>
  C31. Replay asks only for commands that the history does not hold: no command id that replay
  returns is recorded, so committing the commands never schedules one twice.
\<close>

theorem replay_commands_are_new:
  assumes "replay_workflow env f w i H = Inr r" and "rr_status r = COMMANDS"
  shows "rr_commands r \<noteq> [] \<and>
    (\<forall>c\<in>set (rr_commands r). \<forall>ev\<in>set H. is_schedule ev \<longrightarrow> ev_command_id ev \<noteq> Some (command_id c))"
  by (rule replay_commands_fresh[OF assms])

theorem replay_commands_are_new_witness:
  "\<exists>r. replay_workflow sample_env wait_then_sleep 0 JNull started_and_signaled = Inr r
    \<and> rr_commands r \<noteq> []"
proof -
  have "map_sum id rr_status
      (replay_workflow sample_env wait_then_sleep 0 JNull started_and_signaled) = Inr COMMANDS"
    by code_simp
  then obtain r where "replay_workflow sample_env wait_then_sleep 0 JNull started_and_signaled = Inr r"
    and "rr_status r = COMMANDS"
    by (cases "replay_workflow sample_env wait_then_sleep 0 JNull started_and_signaled") auto
  with replay_commands_are_new[of sample_env wait_then_sleep 0 JNull started_and_signaled r]
  show ?thesis by blast
qed

text \<open>
  C32. A replay completes only when the function has returned after passing every recorded command
  (its command counter is beyond every recorded id), or when the history records its continuation
  as a new execution.
\<close>

theorem replay_completion_covers_history:
  assumes "replay_workflow env f w i H = Inr r" and "rr_status r = COMPLETED"
  shows "(\<exists>u cx. run env (f (clone_json i)) (WorkflowContext 0 w (reference_index H H))
        = (Suspend (ContinueAsNewRecorded u), cx)) \<or>
    (\<exists>v cx. run env (f (clone_json i)) (WorkflowContext 0 w (reference_index H H)) = (Return v, cx)
      \<and> rr_result r = clone_json v
      \<and> (\<forall>ev\<in>set H. is_schedule ev \<longrightarrow>
            (\<forall>c. ev_command_id ev = Some c \<longrightarrow> c < cx_next_command_id cx)))"
  using replay_completed_visits_all[OF assms] by metis

theorem replay_completion_covers_history_witness:
  "\<exists>cx. run sample_env (wait_then_sleep JNull) (WorkflowContext 0 0 (reference_index slept slept))
      = (Return JNull, cx) \<and> 0 < cx_next_command_id cx"
proof -
  have "map_sum id rr_status (replay_workflow sample_env wait_then_sleep 0 JNull slept)
      = Inr COMPLETED"
    by code_simp
  then obtain r where r: "replay_workflow sample_env wait_then_sleep 0 JNull slept = Inr r"
    and "rr_status r = COMPLETED"
    by (cases "replay_workflow sample_env wait_then_sleep 0 JNull slept") auto
  note covered = replay_completion_covers_history[OF this]
  have run: "fst (run sample_env (wait_then_sleep JNull) (WorkflowContext 0 0 (reference_index slept slept)))
      = Return JNull" by code_simp
  have "list_ex (\<lambda>ev. is_schedule ev \<and> ev_command_id ev = Some 0) slept" by code_simp
  then obtain ev where "ev \<in> set slept" "is_schedule ev" "ev_command_id ev = Some 0"
    by (auto simp: list_ex_iff)
  with covered run show ?thesis by auto
qed

text \<open>
  A wait for a signal with a timeout whose timer is recorded is decided by sequence numbers
  alone: the signal wins when it was recorded before the timer ended, a timer that fired first
  times the wait out, and otherwise the wait stays blocked.
\<close>

lemma signal_timeout_race_by_sequence:
  assumes "name \<noteq> []" and "0 \<le> total_seconds env t"
    and "scheduled_get cx (cx_next_command_id cx) = Some s" and "ev_type s = TimerStarted"
    and "dget (ev_attributes s) ''fingerprint'' = JStr (fingerprint env (JObj
          [(''command_type'', JStr ''signal_timeout''), (''signal_name'', JStr name),
           (''delay_seconds'', JFloat (total_seconds env t))]))"
    and "ev_entity_id s = Some e"
  shows "fst (wait_signal env name (Some t) cx) =
    (case (matching_signal name cx, hi_timer_terminal (cx_history cx) e) of
       (Some ev, None) \<Rightarrow> Return (clone_json (dget (ev_attributes ev) ''payload''))
     | (Some ev, Some end) \<Rightarrow>
         if ev_seq ev < ev_seq end then Return (clone_json (dget (ev_attributes ev) ''payload''))
         else if ev_type end = TimerFired then Raise (SignalTimeoutError name)
         else Suspend Blocked
     | (None, Some end) \<Rightarrow>
         if ev_type end = TimerFired then Raise (SignalTimeoutError name) else Suspend Blocked
     | (None, None) \<Rightarrow> Suspend Blocked)"
  using assms
  by (auto simp: wait_signal_def signal_race_def consume_signal_def allocate_command_def
      scheduled_get_def not_less split: option.splits)

text \<open>
  Fingerprints do not depend on the order in which a dictionary's keys were inserted: a value
  and its detached copy have the same fingerprint, and copying is idempotent.
\<close>

lemma fingerprint_of_detached_copy:
  "fingerprint env (clone_json v) = fingerprint env v \<and> clone_json (clone_json v) = clone_json v"
  by (simp add: fingerprint_def)

section \<open>Where replay diverges from its own history\<close>

fun fresh_call :: "nat \<Rightarrow> activity_args \<Rightarrow> activity_call" where
  "fresh_call self (d, args, kwargs, retry, s2s, s2c, hb) =
     \<lparr>ac_context = self, ac_definition = d, ac_args = args, ac_kwargs = kwargs, ac_retry = retry,
      ac_schedule_to_start = s2s, ac_start_to_close = s2c, ac_heartbeat_timeout = hb, ac_command_id = None\<rparr>"

lemma fresh_call_simps [simp]:
  "ac_context (fresh_call self a) = self" "ac_command_id (fresh_call self a) = None"
  by (cases a; simp)+

lemma run_fan_out:
  "run env (fan_out acts is k) cx
    = run env (Gather (is @ map ((+) (length (cx_calls cx))) [0..<length acts]) k)
        (cx\<lparr>cx_calls := cx_calls cx @ map (fresh_call (cx_self cx)) acts\<rparr>)"
proof (induction acts "is" k arbitrary: cx rule: fan_out.induct)
  case (2 d args kwargs retry s2s s2c hb acts calls k)
  have "map ((+) n) [0..<Suc m] = n # map ((+) (Suc n)) [0..<m]" for n m :: nat
    by (induction m) simp_all
  with 2 show ?case by (simp add: new_activity_call_def del: upt_Suc)
qed simp

text \<open>The first call of a \<^verbatim>\<open>gather\<close> of fresh calls is given the first command id; its failure leaves the loop.\<close>

definition first_call :: "activity_args list \<Rightarrow> activity_call" where
  "first_call acts = (fresh_call 0 (hd acts))\<lparr>ac_command_id := Some 0\<rparr>"

definition after_first :: "uuid \<Rightarrow> activity_args list \<Rightarrow> history_index \<Rightarrow> wcontext" where
  "after_first w acts ix = (WorkflowContext 0 w ix)
     \<lparr>cx_next_command_id := 1, cx_calls := first_call acts # map (fresh_call 0) (tl acts)\<rparr>"

lemma run_fan_out_raises:
  assumes "acts \<noteq> []" and "resolve_activity env (first_call acts) 0 (after_first w acts ix) = Raise x"
  shows "run env (fan_out acts [] k) (WorkflowContext 0 w ix) = run env (k (Inl x)) (after_first w acts ix)"
proof -
  obtain a as where acts: "acts = a # as" using assms(1) by (cases acts) auto
  have "map ((+) 0) ns = ns" for ns :: "nat list" by (induction ns) simp_all
  then have "map ((+) 0) [0..<length acts] = 0 # [1..<length acts]" by (simp add: acts upt_conv_Cons del: upt_Suc)
  moreover have "evaluate_activity env 0 ((WorkflowContext 0 w ix)\<lparr>cx_calls := map (fresh_call 0) acts\<rparr>)
      = (Raise x, after_first w acts ix)"
    using assms(2) by (simp add: acts evaluate_activity_def allocate_command_def WorkflowContext_def
        after_first_def first_call_def)
  ultimately show ?thesis
    using run_fan_out[of env acts "[]" k "WorkflowContext 0 w ix"] by (simp add: gather_def WorkflowContext_def)
qed

text \<open>A recorded call that has not ended is running, or its evaluation raises something other than its failure.\<close>

lemma resolve_open:
  assumes "scheduled_get cx c = Some s" and "ev_entity_id s = Some e" and "hi_activity_terminal (cx_history cx) e = None"
  shows "resolve_activity env call c cx = Suspend Blocked
    \<or> (\<exists>x. resolve_activity env call c cx = Raise x \<and> (\<forall>d v. x \<noteq> ActivityError d v))"
  using assms by (auto simp: resolve_activity_def Let_def split: option.split)

lemma resolve_failed:
  assumes "resolve_activity env call c cx = Suspend Blocked" and "scheduled_get cx c = Some s"
    and "ev_entity_id s = Some e" and "scheduled_get cx' c = Some s"
    and "hi_activity_terminal (cx_history cx') e = Some ev" and "ev_type ev \<noteq> ActivityCompleted"
  shows "\<exists>v. resolve_activity env call c cx' = Raise (ActivityError (ac_definition call) v)"
  using assms by (auto simp: resolve_activity_def Let_def split: option.splits if_splits)

lemma closing_event_index:
  assumes "valid_history (H @ [ev])" and "H \<noteq> []" and "is_activity_close ev" and "ev_entity_id ev = Some e"
  shows "hi_activity_terminal (reference_index H H) e = None"
    and "hi_activity_terminal (reference_index (H @ [ev]) (H @ [ev])) e = Some ev"
    and "hi_scheduled (reference_index (H @ [ev]) (H @ [ev])) = hi_scheduled (reference_index H H)"
proof -
  have "event_ok pre ev" if "events_ok pre0 (evs @ [ev])" "pre = pre0 @ evs" for pre pre0 evs
    using that by (induction evs arbitrary: pre0) auto
  then have ok: "event_ok H ev" using assms(1) by (simp add: valid_history_def)
  then have "terminal_ok ActivityScheduled is_activity_close H ev"
    using assms(3) by (simp add: event_ok_def is_activity_close_def)
  then show "hi_activity_terminal (reference_index H H) e = None"
    using assms(3,4) by (auto simp: terminal_ok_def reference_index_def)
  show "hi_activity_terminal (reference_index (H @ [ev]) (H @ [ev])) e = Some ev"
    using assms(3,4) by (simp add: reference_index_def)
  have "\<not> is_schedule ev" using assms(3) by (auto simp: is_activity_close_def is_schedule_def event_type_defs)
  then show "hi_scheduled (reference_index (H @ [ev]) (H @ [ev])) = hi_scheduled (reference_index H H)"
    by (simp add: reference_index_def)
qed

lemma not_blocked:
  "run env (f (clone_json inp)) (WorkflowContext 0 w ix) = (Raise x, cx) \<Longrightarrow> HistoryIndex H = Inr ix \<Longrightarrow>
    replay_workflow env f w inp H = Inr r \<Longrightarrow> rr_status r \<noteq> BLOCKED"
  by (auto simp: replay_workflow_def split: exn.splits)

text \<open>
  C38. A workflow that starts two or more activities together with \<^verbatim>\<open>gather\<close>, catches their failure and
  then sleeps diverges from its own history: it waits, the first activity fails, and from then on every
  replay ends with non-determinism at command 1. The failure leaves the loop before the second
  call has been given its command id, so the sleep is given the id that the history holds for that
  call. It does not matter which activities they are, what the history holds besides, and what the
  workflow does after the sleep or without a failure.
\<close>

theorem gather_recovery_diverges:
  assumes "f (clone_json inp) = fan_out acts [] (recover t after rest)" and "2 \<le> length acts"
    and "0 \<le> total_seconds env t"
    and "replay_workflow env f w inp H = Inr r" and "rr_status r = BLOCKED"
    and "map_of (hi_scheduled (reference_index H H)) 0 = Some sa" and "ev_entity_id sa = Some e"
    and "map_of (hi_scheduled (reference_index H H)) 1 = Some sb" and "ev_type sb = ActivityScheduled"
    and "is_activity_close ev" and "ev_type ev \<noteq> ActivityCompleted" and "ev_entity_id ev = Some e"
    and "valid_history (H @ [ev])"
  shows "replay_workflow env f w inp (H @ [ev]) = Inl (Diverged 1 (ExpectedKind ''timer'' ActivityScheduled))"
proof -
  have ix: "HistoryIndex H = Inr (reference_index H H)"
    using assms(4) by (cases "HistoryIndex H") (auto simp: replay_workflow_def HistoryIndex_iff)
  then have "H \<noteq> []" by (auto simp: HistoryIndex_iff valid_history_def)
  note index = closing_event_index[OF assms(13) this assms(10,12)]
  have acts: "acts \<noteq> []" using assms(2) by auto
  let ?old = "after_first w acts (reference_index H H)" and ?new = "after_first w acts (reference_index (H @ [ev]) (H @ [ev]))"
  have old: "scheduled_get ?old 0 = Some sa" "hi_activity_terminal (cx_history ?old) e = None"
    using assms(6) index(1) by (simp_all add: after_first_def WorkflowContext_def scheduled_get_def)
  have new: "scheduled_get ?new 0 = Some sa" "scheduled_get ?new 1 = Some sb"
    "hi_activity_terminal (cx_history ?new) e = Some ev" "cx_next_command_id ?new = 1"
    using assms(6,8) index(2,3) by (simp_all add: after_first_def WorkflowContext_def scheduled_get_def)
  have "resolve_activity env (first_call acts) 0 ?old = Suspend Blocked"
  proof (rule ccontr)
    assume "\<not> ?thesis"
    then obtain x where x: "resolve_activity env (first_call acts) 0 ?old = Raise x" "\<forall>d v. x \<noteq> ActivityError d v"
      using resolve_open[OF old(1) assms(7) old(2)] by blast
    then have "recover t after rest (Inl x) = Fail x" by (cases x) (simp_all add: recover_def)
    then have "run env (f (clone_json inp)) (WorkflowContext 0 w (reference_index H H)) = (Raise x, ?old)"
      using run_fan_out_raises[OF acts x(1)] assms(1) by simp
    from not_blocked[OF this ix assms(4)] assms(5) show False by simp
  qed
  then obtain v where "resolve_activity env (first_call acts) 0 ?new = Raise (ActivityError (ac_definition (first_call acts)) v)"
    using resolve_failed[OF _ old(1) assms(7) new(1,3) assms(11)] by blast
  note run = run_fan_out_raises[OF acts this, of "recover t after rest", folded assms(1)]
  have "fst (run env (f (clone_json inp)) (WorkflowContext 0 w (reference_index (H @ [ev]) (H @ [ev]))))
      = Raise (NonDeterminismError 1 (ExpectedKind ''timer'' ActivityScheduled))"
    using new(2,4) assms(3,9)
    by (simp add: run recover_def sleep_def allocate_command_def scheduled_get_def Let_def)
  then show ?thesis
    using assms(13) by (auto simp: replay_workflow_def HistoryIndex_iff[THEN iffD2] split: prod.splits)
qed

theorem gather_recovery_diverges_witness:
  "map_sum id rr_status (replay_workflow sample_env gather_and_recover 0 JNull gathered) = Inr BLOCKED
   \<and> replay_workflow sample_env gather_and_recover 0 JNull
      (gathered @ [sample_event 4 ActivityFailed [] None (Some 10) None])
    = Inl (Diverged 1 (ExpectedKind ''timer'' ActivityScheduled))"
proof
  show blocked: "map_sum id rr_status (replay_workflow sample_env gather_and_recover 0 JNull gathered) = Inr BLOCKED"
    by code_simp
  then obtain r where r: "replay_workflow sample_env gather_and_recover 0 JNull gathered = Inr r" "rr_status r = BLOCKED"
    by (cases "replay_workflow sample_env gather_and_recover 0 JNull gathered") auto
  let ?s = "\<lambda>n c e. sample_event n ActivityScheduled [(''fingerprint'', JStr [])] (Some c) (Some e) None"
  have "map_of (hi_scheduled (reference_index gathered gathered)) 0 = Some (?s 2 0 10)"
    "map_of (hi_scheduled (reference_index gathered gathered)) 1 = Some (?s 3 1 11)" by code_simp+
  moreover have "is_activity_close (sample_event 4 ActivityFailed [] None (Some 10) None)"
    "valid_history (gathered @ [sample_event 4 ActivityFailed [] None (Some 10) None])"
    "0 \<le> total_seconds sample_env 1000000" "2 \<le> length two_activities" by code_simp+
  ultimately show "replay_workflow sample_env gather_and_recover 0 JNull
      (gathered @ [sample_event 4 ActivityFailed [] None (Some 10) None])
    = Inl (Diverged 1 (ExpectedKind ''timer'' ActivityScheduled))"
    by (intro gather_recovery_diverges[OF _ _ _ r, where e = 10 and sa = "?s 2 0 10" and sb = "?s 3 1 11"])
       (simp_all add: gather_and_recover_def sample_event_def)
qed

text \<open>
  C39. A workflow that begins with a test of the cancellation flag and returns when it is set diverges from
  its own history once cancellation is requested, as soon as it has recorded any command: the
  request is read from the whole history, also by the replay of what had been decided before it.
\<close>

theorem cancellation_flag_rewrites_the_past:
  assumes "f (clone_json inp) = CancellationRequested k" and "k True = Done v"
    and "x \<in> set H" and "is_schedule x" and "ev_command_id x = Some c" and "0 \<le> c"
    and "ev_type ev = WorkflowCancellationRequested" and "valid_history (H @ [ev])"
  shows "\<exists>y\<in>set H. is_schedule y \<and> (\<exists>n. ev_command_id y = Some n \<and>
    replay_workflow env f w inp (H @ [ev]) = Inl (Diverged n (UnvisitedCommand (ev_type y))))"
proof -
  let ?ix = "reference_index (H @ [ev]) (H @ [ev])"
  have ix: "HistoryIndex (H @ [ev]) = Inr ?ix" using assms(8) by (simp add: HistoryIndex_iff)
  have not: "\<not> is_schedule ev" using assms(7) by (simp add: is_schedule_def event_type_defs)
  have run: "run env (f (clone_json inp)) (WorkflowContext 0 w ?ix) = (Return v, WorkflowContext 0 w ?ix)"
  proof -
    have "hi_cancellation_requested ?ix \<noteq> None"
      using assms(7) by (auto simp: reference_index_def find_None_iff_set simp flip: not_None_eq)
    then have "cancellation_requested (WorkflowContext 0 w ?ix)" by (simp add: cancellation_requested_def)
    with assms(1,2) show ?thesis by simp
  qed
  let ?open = "filter (\<lambda>(c, ev). 0 \<le> c) (keyed is_schedule ev_command_id H)"
  have "(c, x) \<in> set ?open" using assms(3-6) by (simp add: set_keyed)
  then have "?open \<noteq> []" by (metis empty_iff list.set(1))
  then obtain y where y: "min_by_command ?open = Some y" using min_by_command_None_iff by blast
  have "\<And>c ev. (c, ev) \<in> set ?open \<Longrightarrow> ev_command_id ev = Some c" by (auto simp: set_keyed)
  from min_by_command_least[OF y this] obtain n where n: "(n, y) \<in> set ?open" by blast
  then have "y \<in> set H" "is_schedule y" "ev_command_id y = Some n" by (auto simp: set_keyed)
  moreover have "first_unvisited_command ?ix (cx_next_command_id (WorkflowContext 0 w ?ix)) = Some y"
    using y not by (simp add: first_unvisited_command_def reference_index_def WorkflowContext_def)
  ultimately show ?thesis using ix run by (auto simp: replay_workflow_def)
qed

theorem cancellation_flag_rewrites_the_past_witness:
  "map_sum id rr_status (replay_workflow sample_env cancel_aware 0 JNull sleeping) = Inr BLOCKED
   \<and> (\<exists>n ty. replay_workflow sample_env cancel_aware 0 JNull
      (sleeping @ [sample_event 3 WorkflowCancellationRequested [] None None None])
    = Inl (Diverged n (UnvisitedCommand ty)))"
proof
  show "map_sum id rr_status (replay_workflow sample_env cancel_aware 0 JNull sleeping) = Inr BLOCKED" by code_simp
  let ?x = "sample_event 2 TimerStarted [(''fingerprint'', JStr [])] (Some 0) (Some 10) None"
  have "valid_history (sleeping @ [sample_event 3 WorkflowCancellationRequested [] None None None])"
    "is_schedule ?x" by code_simp+
  from cancellation_flag_rewrites_the_past[of cancel_aware JNull _ JNull ?x sleeping 0
      "sample_event 3 WorkflowCancellationRequested [] None None None" sample_env 0, OF _ _ _ this(2) _ _ _ this(1)]
  show "\<exists>n ty. replay_workflow sample_env cancel_aware 0 JNull
      (sleeping @ [sample_event 3 WorkflowCancellationRequested [] None None None])
    = Inl (Diverged n (UnvisitedCommand ty))"
    by (auto simp: cancel_aware_def sleeping_def sample_event_def)
qed

end
