(* ===== verification/Engine_Properties.thy ===== *)
theory Engine_Properties
  imports Lease_Laws System Liveness Replay_Properties
begin

text \<open>
  The properties of the persistent engine: what holds of every reachable database and of every
  operation, with a small concrete run of the engine on which they are applied.
\<close>

section \<open>A sample run\<close>

definition sample_tx :: "int \<Rightarrow> tx" where
  "sample_tx n = \<lparr>tx_now = n, tx_clock = (\<lambda>i. n), tx_uuid = (\<lambda>i. word_of_int (100 * n + int i)),
     tx_random = 0, tx_locked = []\<rparr>"

text \<open>A definition is registered and execution 1 of it is started at time 10.\<close>

definition sample_started :: db where
  "sample_started =
     transact (start_workflow sample_env (sample_tx 10) ''w'' 1 JNull ''q'' (Some 1) [] None None)
       (transact (register_workflow_definition ''w'' 1 ''h'') empty_db)"

text \<open>At time 20 a worker leases its workflow task.\<close>

definition sample_leased :: db where
  "sample_leased =
     transact (lease_task sample_env (sample_tx 20) WorkflowTask ''q'' 50) sample_started"

definition sample_task :: leased_task where
  "sample_task = \<lparr>lt_id = 1001, lt_workflow_id = 1, lt_task_type = WorkflowTask, lt_queue_name = ''q'',
     lt_entity_id = None, lt_command_id = None, lt_attempt = 1, lt_input = JNull,
     lt_lease_token = 2000, lt_leased_at = 20, lt_lease_expires_at = 70,
     lt_start_to_close_deadline = None\<rparr>"

text \<open>At time 30 the replay asks for one activity and the worker commits it.\<close>

definition sample_activity :: schedule_activity where
  "sample_activity = \<lparr>sa_command_id = 0, sa_entity_id = 7, sa_activity_type = ''a'',
     sa_input = [], sa_retry_policy = [(''max_attempts'', JInt 1)],
     sa_schedule_to_start_seconds = None, sa_start_to_close_seconds = None,
     sa_heartbeat_timeout_seconds = None, sa_fingerprint = []\<rparr>"

definition sample_decision :: replay_result where
  "sample_decision = \<lparr>rr_status = COMMANDS, rr_commands = [ScheduleActivity sample_activity],
     rr_result = JNull, rr_failure = JNull\<rparr>"

definition sample_scheduled :: db where
  "sample_scheduled =
     transact (commit_workflow_replay sample_env 10 (sample_tx 30) sample_task sample_decision)
       sample_leased"

text \<open>At time 40 a worker leases the activity task, and completes it at time 50.\<close>

definition sample_running :: db where
  "sample_running =
     transact (lease_task sample_env (sample_tx 40) ActivityTask ''q'' 50) sample_scheduled"

definition sample_attempt :: leased_task where
  "sample_attempt = \<lparr>lt_id = 3000, lt_workflow_id = 1, lt_task_type = ActivityTask,
     lt_queue_name = ''q'', lt_entity_id = Some 7, lt_command_id = Some 0, lt_attempt = 1,
     lt_input = JNull, lt_lease_token = 4000, lt_leased_at = 40, lt_lease_expires_at = 90,
     lt_start_to_close_deadline = Some 90\<rparr>"

definition sample_completed :: db where
  "sample_completed =
     transact (complete_activity (sample_tx 50) sample_attempt (JInt 5)) sample_running"

text \<open>At time 60 the workflow is terminated.\<close>

definition sample_terminated :: db where
  "sample_terminated =
     transact (terminate_workflow 10 (sample_tx 60) 1 None None) sample_completed"

lemma sample_reachable:
  "reachable sample_started" "reachable sample_leased" "reachable sample_scheduled"
  "reachable sample_running" "reachable sample_completed" "reachable sample_terminated"
proof -
  show 1: "reachable sample_started" unfolding sample_started_def
    by (intro reachable_transact reachable_empty) (auto intro: step_start step_register)
  show 2: "reachable sample_leased" unfolding sample_leased_def
    by (rule reachable_transact[OF 1]) (rule step_lease)
  show 3: "reachable sample_scheduled" unfolding sample_scheduled_def
    by (rule reachable_transact[OF 2]) (rule step_commit)
  show 4: "reachable sample_running" unfolding sample_running_def
    by (rule reachable_transact[OF 3]) (rule step_lease)
  show 5: "reachable sample_completed" unfolding sample_completed_def
    by (rule reachable_transact[OF 4]) (rule step_complete)
  show "reachable sample_terminated" unfolding sample_terminated_def
    by (rule reachable_transact[OF 5]) (rule step_terminate)
qed


section \<open>The history of every workflow\<close>

text \<open>
  C5. In every reachable database the events of an execution are numbered 1, 2, 3 and so on
  without gap or repetition, in insertion order, and \<^verbatim>\<open>next_seq\<close> is the number the next event takes.
\<close>

theorem sequence_numbers_contiguous:
  assumes "reachable d" and "find_execution d w = Some e"
  shows "map hr_seq (workflow_history d w) = [1..ex_next_seq e - 1]"
  by (rule committed_sequence(1)[OF reachable_committed[OF assms(1)] assms(2)])

theorem sequence_numbers_contiguous_witness:
  "map hr_seq (workflow_history sample_terminated 1) = [1..5]"
proof -
  have "map_option ex_next_seq (find_execution sample_terminated 1) = Some 6" by code_simp
  then obtain e where "find_execution sample_terminated 1 = Some e" and "ex_next_seq e = 6" by auto
  with sequence_numbers_contiguous[OF sample_reachable(6) this(1)] show ?thesis by simp
qed

text \<open>
  C4. Every step of the engine refines the abstract log of each workflow: an open log may be
  extended with correctly numbered events and may be closed, a closed log never changes.
\<close>

theorem steps_refine_workflow_log:
  assumes "reachable d" and "step d d'" and "find_execution d w = Some e"
  shows "log_step (log_of d w) (log_of d' w)"
proof -
  have "progress Map.empty {} {} d d'"
    by (rule step_progress[OF assms(2) reachable_committed[OF assms(1)]])
  then show ?thesis
    using only_appends_log[OF _ _ assms(3)] by (simp add: progress_def committed_def)
qed

theorem steps_refine_workflow_log_witness:
  "log_step (log_of sample_completed 1) (log_of sample_terminated 1)"
proof -
  have "map_option ex_id (find_execution sample_completed 1) = Some 1" by code_simp
  then obtain e where e: "find_execution sample_completed 1 = Some e" by auto
  have "map_sum id snd (terminate_workflow 10 (sample_tx 60) 1 None None sample_completed) = Inr True"
    by code_simp
  then obtain d' where d': "terminate_workflow 10 (sample_tx 60) 1 None None sample_completed = Inr (d', True)"
    by (cases "terminate_workflow 10 (sample_tx 60) 1 None None sample_completed") auto
  then have "d' = sample_terminated" by (simp add: sample_terminated_def transact_def)
  with steps_refine_workflow_log[OF sample_reachable(5) step_terminate[OF d'] e] show ?thesis by simp
qed

text \<open>
  C6. A closed execution is final: whatever happens later, its history, status, result, failure
  and closing time stay as they are.
\<close>

theorem closed_execution_is_final:
  assumes "reachable d" and "find_execution d w = Some e" and "ex_status e \<noteq> WfRunning"
    and "step\<^sup>*\<^sup>* d d'"
  shows "workflow_history d' w = workflow_history d w \<and>
    (\<exists>e'. find_execution d' w = Some e' \<and> ex_status e' = ex_status e \<and> ex_result e' = ex_result e
      \<and> ex_failure e' = ex_failure e \<and> ex_closed_at e' = ex_closed_at e)"
  using closed_stays[OF assms] by blast

theorem closed_execution_is_final_witness:
  "workflow_history (transact (send_signal (sample_tx 70) 1 ''s'' ''go'' JNull None) sample_terminated) 1
    = workflow_history sample_terminated 1"
proof -
  let ?d = "transact (send_signal (sample_tx 70) 1 ''s'' ''go'' JNull None) sample_terminated"
  have "map_option ex_status (find_execution sample_terminated 1) = Some WfTerminated" by code_simp
  then obtain e where e: "find_execution sample_terminated 1 = Some e" "ex_status e \<noteq> WfRunning" by auto
  have "step\<^sup>*\<^sup>* sample_terminated ?d"
    by (auto simp: transact_def split: sum.splits intro: step_signal)
  from closed_execution_is_final[OF sample_reachable(6) e this] show ?thesis by simp
qed

text \<open>
  C7. When an execution is closed, none of its tasks is pending or leased: no worker can be handed
  work of a closed workflow and no timer of it is left.
\<close>

theorem closed_execution_has_no_open_task:
  assumes "reachable d" and "find_execution d w = Some e" and "ex_status e \<noteq> WfRunning"
    and "t \<in> set (db_tasks d)" and "tk_workflow_id t = w"
  shows "tk_status t \<in> {TkCompleted, TkDead}"
proof -
  have "store_ok Map.empty {} {} d"
    using reachable_committed[OF assms(1)] by (simp add: committed_def)
  from store_ok_closed[OF this _ assms(4,3)] find_execution_Some[OF assms(2)] assms(5)
  have "\<not> open_task t" by auto
  then show ?thesis by (cases "tk_status t") (auto simp: open_task_def)
qed

theorem closed_execution_has_no_open_task_witness:
  "map tk_status (db_tasks sample_terminated) = [TkCompleted, TkCompleted, TkDead] \<and>
    tk_status (hd (db_tasks sample_terminated)) \<in> {TkCompleted, TkDead}"
proof
  show "map tk_status (db_tasks sample_terminated) = [TkCompleted, TkCompleted, TkDead]" by code_simp
  have "map_option ex_status (find_execution sample_terminated 1) = Some WfTerminated" by code_simp
  then obtain e where e: "find_execution sample_terminated 1 = Some e" "ex_status e \<noteq> WfRunning" by auto
  have "map tk_workflow_id (db_tasks sample_terminated) = [1, 1, 1]" by code_simp
  then have "hd (db_tasks sample_terminated) \<in> set (db_tasks sample_terminated)"
    and "tk_workflow_id (hd (db_tasks sample_terminated)) = 1"
    by (cases "db_tasks sample_terminated"; auto)+
  from closed_execution_has_no_open_task[OF sample_reachable(6) e this]
  show "tk_status (hd (db_tasks sample_terminated)) \<in> {TkCompleted, TkDead}" .
qed

section \<open>Tasks and fencing\<close>

text \<open>
  C33. A task that has ended (completed or dead) is never touched again: its row is the same in
  every later database.
\<close>

theorem finished_task_is_final:
  assumes "reachable d" and "t \<in> set (db_tasks d)" and "\<not> open_task t" and "step\<^sup>*\<^sup>* d d'"
  shows "find_task d' (tk_id t) = Some t"
proof -
  have "committed d'" and "only_appends d d'"
    using steps_progress[OF assms(4) reachable_committed[OF assms(1)]] by auto
  then have "t \<in> set (db_tasks d')" and "distinct (map tk_id (db_tasks d'))"
    using assms(2,3) by (auto simp: only_appends_def committed_def store_ok_def)
  then show ?thesis by (simp add: find_task_def distinct_find)
qed

theorem finished_task_is_final_witness:
  "map_option tk_status (find_task sample_terminated 3000) = Some TkCompleted"
proof -
  have "map_option (\<lambda>t. (tk_status t, tk_id t)) (find_task sample_completed 3000) = Some (TkCompleted, 3000)"
    by code_simp
  then obtain t where t: "find_task sample_completed 3000 = Some t" "tk_status t = TkCompleted" "tk_id t = 3000"
    by auto
  then have "t \<in> set (db_tasks sample_completed)" by (auto simp: find_task_def find_Some_iff)
  moreover have "\<not> open_task t" using t(2) by (simp add: open_task_def)
  moreover have "step\<^sup>*\<^sup>* sample_completed sample_terminated"
    by (auto simp: sample_terminated_def transact_def split: sum.splits intro: step_terminate)
  ultimately have "find_task sample_terminated (tk_id t) = Some t"
    by (rule finished_task_is_final[OF sample_reachable(5)])
  with t show ?thesis by simp
qed


text \<open>The row that a successful owner has ended; helper of the at-most-once properties.\<close>

lemma complete_task_ends:
  assumes "complete_task x task d = Inr d'"
  shows "\<exists>t\<in>set (db_tasks d'). tk_id t = lt_id task \<and> \<not> open_task t"
proof -
  have d': "d' = update_tasks (owned task) (finish_task x TkCompleted) d"
    and "length (filter (owned task) (db_tasks d)) = 1"
    using assms by (auto simp: complete_task_def split: if_splits)
  then obtain t where t: "t \<in> set (db_tasks d)" "owned task t"
    by (metis One_nat_def Suc_neq_Zero filter_False list.size(3))
  then have "finish_task x TkCompleted t \<in> set (db_tasks d')"
    unfolding d' update_tasks_def by auto
  with t show ?thesis by (metis finish_task_simps(1,5) owned_def)
qed

lemma ended_task_not_leased:
  assumes "committed d" and "t \<in> set (db_tasks d)" and "\<not> open_task t" and "tk_id t = i"
  shows "\<not> holds_lease x i token s \<or> s \<notin> set (db_tasks d)"
proof (rule disjCI, rule notI)
  assume "holds_lease x i token s" and "\<not> s \<notin> set (db_tasks d)"
  then have "tk_id s = i" and "open_task s" and "s \<in> set (db_tasks d)"
    by (auto simp: holds_lease_def open_task_def)
  with committed_task_unique[OF assms(1,2), of s] assms(3,4) show False by auto
qed

lemma ended_task_rejects:
  assumes "committed d" and "t \<in> set (db_tasks d)" and "\<not> open_task t" and "tk_id t = lt_id task"
  shows "List.find (activity_live x task) (db_tasks d) = None"
    and "List.find (holds_lease x (lt_id task) tok) (db_tasks d) = None"
  using ended_task_not_leased[OF assms] by (auto simp: find_None_iff activity_live_def)

lemma open_after_insert:
  "insert_task t d = Inr d' \<Longrightarrow> s \<in> set (db_tasks d) \<Longrightarrow> s \<in> set (db_tasks d')"
  using insert_task_frame(5)[of t d d'] by simp

lemma set_next_seq_tasks [simp]: "db_tasks (set_next_seq w n d) = db_tasks d"
  by (simp add: set_next_seq_def)

lemma complete_activity_ends:
  assumes "complete_activity x task v d = Inr (d', u)"
  shows "\<exists>t\<in>set (db_tasks d'). tk_id t = lt_id task \<and> \<not> open_task t"
proof -
  obtain w q d1 d2 d3 where 1: "complete_task x task d1 = Inr d2"
    and 2: "insert_workflow_task x (tx_uuid x 0) w q d2 = Inr d3" and 3: "db_tasks d' = db_tasks d3"
    using assms by (auto simp: complete_activity_def res_simps split: if_splits option.splits)
  from complete_task_ends[OF 1] open_after_insert[OF 2[unfolded insert_workflow_task_def]] 3
  show ?thesis by metis
qed

text \<open>
  C10. An activity task completes at most once: after a successful completion every later call for
  the same task, with whatever token and at whatever time, is refused as stale, whatever happened
  in between.
\<close>

theorem activity_completes_at_most_once:
  assumes "reachable d" and "complete_activity x task v d = Inr (d1, u)" and "step\<^sup>*\<^sup>* d1 d2"
    and "lt_id task2 = lt_id task" and "lt_task_type task2 = ActivityTask" and "lt_entity_id task2 \<noteq> None"
  shows "complete_activity y task2 v2 d2 = Inl (StaleLeaseError (lt_id task))"
proof -
  obtain t where t: "t \<in> set (db_tasks d1)" "tk_id t = lt_id task" "\<not> open_task t"
    using complete_activity_ends[OF assms(2)] by blast
  have "reachable d1" using assms(1,2) by (blast intro: reachable_step step_complete)
  then have "committed d2" and "only_appends d1 d2"
    using steps_progress[OF assms(3)] reachable_committed by auto
  then have "t \<in> set (db_tasks d2)" using t by (auto simp: only_appends_def)
  from ended_task_rejects(1)[OF \<open>committed d2\<close> this t(3), of task2 y] t(2) assms(4-6)
  show ?thesis by (simp add: complete_activity_def)
qed

theorem activity_completes_at_most_once_witness:
  "complete_activity (sample_tx 60) sample_attempt JNull sample_terminated = Inl (StaleLeaseError 3000)"
proof -
  have "map_sum id snd (complete_activity (sample_tx 50) sample_attempt (JInt 5) sample_running) = Inr ()"
    by code_simp
  then obtain d1 where d1: "complete_activity (sample_tx 50) sample_attempt (JInt 5) sample_running = Inr (d1, ())"
    by (cases "complete_activity (sample_tx 50) sample_attempt (JInt 5) sample_running") auto
  then have "d1 = sample_completed" by (simp add: sample_completed_def transact_def)
  then have "step\<^sup>*\<^sup>* d1 sample_terminated"
    by (auto simp: sample_terminated_def transact_def split: sum.splits intro: step_terminate)
  from activity_completes_at_most_once[OF sample_reachable(4) d1 this]
  show ?thesis by (simp add: sample_attempt_def)
qed

text \<open>
  C9. A workflow task is committed at most once: a second commit for the same task is refused as
  stale in every later database, so a decision is never applied twice.
\<close>

theorem decision_commits_at_most_once:
  assumes "reachable d" and "commit_workflow_replay env k x task rr d = Inr (d1, u)"
    and "step\<^sup>*\<^sup>* d1 d2" and "lt_id task2 = lt_id task" and "lt_task_type task2 = WorkflowTask"
  shows "commit_workflow_replay env2 k2 y task2 rr2 d2 = Inl (StaleLeaseError (lt_id task))"
proof -
  obtain d0 where 1: "complete_task x task d0 = Inr d1"
    using assms(2) by (auto simp: commit_workflow_replay_def res_simps simp del: insert_iff
        split: if_splits option.splits)
  obtain t where t: "t \<in> set (db_tasks d1)" "tk_id t = lt_id task" "\<not> open_task t"
    using complete_task_ends[OF 1] by blast
  have "reachable d1" using assms(1,2) by (blast intro: reachable_step step_commit)
  then have "committed d2" and "only_appends d1 d2"
    using steps_progress[OF assms(3)] reachable_committed by auto
  then have "t \<in> set (db_tasks d2)" using t by (auto simp: only_appends_def)
  from ended_task_rejects(2)[OF \<open>committed d2\<close> this t(3), of task2 y "lt_lease_token task2"] t(2) assms(4,5)
  show ?thesis by (simp add: commit_workflow_replay_def)
qed

theorem decision_commits_at_most_once_witness:
  "commit_workflow_replay sample_env 10 (sample_tx 31) sample_task sample_decision sample_scheduled
    = Inl (StaleLeaseError 1001)"
proof -
  have "map_sum id snd (commit_workflow_replay sample_env 10 (sample_tx 30) sample_task sample_decision
      sample_leased) = Inr ()"
    by code_simp
  then obtain d1 where d1: "commit_workflow_replay sample_env 10 (sample_tx 30) sample_task
      sample_decision sample_leased = Inr (d1, ())"
    by (cases "commit_workflow_replay sample_env 10 (sample_tx 30) sample_task sample_decision
      sample_leased") auto
  then have "d1 = sample_scheduled" by (simp add: sample_scheduled_def transact_def)
  with decision_commits_at_most_once[OF sample_reachable(2) d1, of d1 sample_task]
  show ?thesis by (simp add: sample_task_def)
qed

text \<open>
  C11. Fencing: once a task has been leased to a new owner, the token of a previous owner is worth nothing,
  then and in every later database, as long as \<^verbatim>\<open>uuid4\<close> does not draw that token again: nothing can be
  loaded, no decision is committed, no activity completed or failed, no lease renewed, no heartbeat
  recorded and no task released with it.
\<close>

theorem new_lease_fences_old_owner:
  assumes "reachable d" and "lease_task env x ty q dur d = Inr (d1, Some lt)"
    and "lt_id old = lt_id lt" and "lt_lease_token old \<noteq> lt_lease_token lt"
    and "(step_without (lt_id old) (lt_lease_token old))\<^sup>*\<^sup>* d1 d2"
  shows "(\<forall>y d3 d4 st. load_workflow_replay_state y old d2 d3 d4 \<noteq> Inr st)
    \<and> (\<forall>env k y rr r. commit_workflow_replay env k y old rr d2 \<noteq> Inr r)
    \<and> (\<forall>y v r. complete_activity y old v d2 \<noteq> Inr r)
    \<and> (\<forall>env y v rv r. fail_activity env y old v rv d2 \<noteq> Inr r)
    \<and> (\<forall>env y dur r. renew_lease env y (lt_id old) (lt_lease_token old) dur d2 \<noteq> Inr r)
    \<and> (\<forall>env y det dur r. heartbeat_activity env y (lt_id old) (lt_lease_token old) det dur d2 \<noteq> Inr r)
    \<and> (\<forall>env y delay r. release_workflow_task env y old delay d2 \<noteq> Inr r)"
proof -
  from assms(2) obtain t where t: "lease_candidate x ty q d = Some t" and lt: "lt = leased_task_of x (tx_uuid x 0) dur t"
    and tasks: "db_tasks d1 = db_tasks (update_tasks (\<lambda>s. tk_id s = tk_id t \<and> tk_status s = TkPending)
      (take_lease x (tx_uuid x 0) dur) d)"
    by (cases rule: lease_cases) auto
  have com: "committed d1" using lease_tx.keeps_committed[OF reachable_committed[OF assms(1)] assms(2)] .
  have "t \<in> set (db_tasks d)" "tk_status t = TkPending"
    using select_first_Some[OF t[unfolded lease_candidate_def]] by (auto simp: leasable_def)
  then have row: "take_lease x (tx_uuid x 0) dur t \<in> set (db_tasks d1)" by (auto simp: tasks update_tasks_def)
  have "\<not> leases d1 (lt_id old) (lt_lease_token old)"
  proof
    assume "leases d1 (lt_id old) (lt_lease_token old)"
    then obtain s where "s \<in> set (db_tasks d1)" "tk_id s = lt_id old" "tk_lease_token s = Some (lt_lease_token old)"
      by (auto simp: leases_def list_ex_iff task_lease_def)
    with committed_task_unique[OF com this(1) row] assms(3,4) lt show False
      by (simp add: take_lease_def leased_task_of_def)
  qed
  then have "\<not> leases d2 (lt_id old) (lt_lease_token old)" using steps_without_leases[OF assms(5)] by blast
  from stale_owner_refused[OF this] show ?thesis by blast
qed

theorem new_lease_fences_old_owner_witness:
  "(\<forall>y v r. complete_activity y (sample_attempt\<lparr>lt_lease_token := 1\<rparr>) v sample_running \<noteq> Inr r)
    \<and> (\<forall>env y v rv r. fail_activity env y (sample_attempt\<lparr>lt_lease_token := 1\<rparr>) v rv sample_running \<noteq> Inr r)"
proof -
  have "map_sum id (map_option (\<lambda>lt. (lt_id lt, lt_lease_token lt)) \<circ> snd)
      (lease_task sample_env (sample_tx 40) ActivityTask ''q'' 50 sample_scheduled) = Inr (Some (3000, 4000))"
    by code_simp
  then obtain d' lt where d': "lease_task sample_env (sample_tx 40) ActivityTask ''q'' 50 sample_scheduled
      = Inr (d', Some lt)" "lt_id lt = 3000" "lt_lease_token lt = 4000"
    by (cases "lease_task sample_env (sample_tx 40) ActivityTask ''q'' 50 sample_scheduled") auto
  then have "d' = sample_running" by (simp add: sample_running_def transact_def)
  with new_lease_fences_old_owner[OF sample_reachable(3) d'(1), of "sample_attempt\<lparr>lt_lease_token := 1\<rparr>" d']
    d'(2,3) show ?thesis by (simp add: sample_attempt_def)
qed

text \<open>
  C15. Leasing hands out the oldest runnable task: the row it leases was pending, visible, of the
  requested type and queue, its workflow was running and not paused, and no other such row comes
  before it in the order of visibility time, creation time and id.
\<close>

theorem lease_takes_first_runnable:
  assumes "lease_task env x ty q dur d = Inr (d', Some lt)"
  shows "\<exists>t e. t \<in> set (db_tasks d) \<and> tk_id t = lt_id lt \<and> tk_status t = TkPending
    \<and> tk_task_type t = ty \<and> tk_queue_name t = q \<and> tk_visible_at t \<le> tx_now x
    \<and> find_execution d (tk_workflow_id t) = Some e \<and> ex_status e = WfRunning \<and> ex_paused_at e = None
    \<and> (\<forall>s\<in>set (db_tasks d). leasable x ty q d s \<longrightarrow>
        (tk_visible_at t, tk_created_at t, tk_id t) \<le> (tk_visible_at s, tk_created_at s, tk_id s))"
proof -
  obtain t where t: "lease_candidate x ty q d = Some t" and lt: "lt = leased_task_of x (tx_uuid x 0) dur t"
    using assms by (auto simp: lease_task_def res_simps Let_def split: if_splits option.splits)
  note first = select_first_Some[OF t[unfolded lease_candidate_def]]
  then have "leasable x ty q d t" by simp
  then obtain e where "find_execution d (tk_workflow_id t) = Some e"
    by (auto simp: leasable_def split: option.splits)
  with first \<open>leasable x ty q d t\<close> lt show ?thesis
    by (intro exI[of _ t] exI[of _ e]) (simp add: leasable_def leased_task_of_def)
qed

theorem lease_takes_first_runnable_witness:
  "\<exists>t\<in>set (db_tasks sample_scheduled). tk_id t = 3000 \<and> tk_status t = TkPending \<and> tk_visible_at t \<le> 40"
proof -
  have "map_sum id (map_option lt_id \<circ> snd)
      (lease_task sample_env (sample_tx 40) ActivityTask ''q'' 50 sample_scheduled) = Inr (Some 3000)"
    by code_simp
  then obtain d' lt where "lease_task sample_env (sample_tx 40) ActivityTask ''q'' 50 sample_scheduled
      = Inr (d', Some lt)" "lt_id lt = 3000"
    by (cases "lease_task sample_env (sample_tx 40) ActivityTask ''q'' 50 sample_scheduled") auto
  with lease_takes_first_runnable[OF this(1)] show ?thesis by (auto simp: sample_tx_def)
qed


section \<open>Requests\<close>

text \<open>
  C34. Signals are deduplicated for good: once a signal has been accepted, sending one with the same
  id again, at any later time and with any payload, returns false and changes nothing.
\<close>

theorem signal_accepted_once:
  assumes "reachable d" and "send_signal x w i n p a d = Inr (d1, True)" and "step\<^sup>*\<^sup>* d1 d2"
    and "n2 \<noteq> []"
  shows "send_signal y w i n2 p2 None d2 = Inr (d2, False)"
proof -
  obtain e d0 attrs where i: "i \<noteq> []" and e: "find_execution d w = Some e"
    and ev: "insert_event x w (ex_next_seq e) SignalReceived None None (Some i) attrs d = Inr d0"
    and d1: "db_history d1 = db_history d0"
    using assms(2) by (auto simp: send_signal_def res_simps insert_workflow_task_def set_next_seq_def
        dest!: record_api_audit_frame(2) insert_task_frame(2) split: if_splits option.splits)
  have c1: "committed d1"
    using signal_tx.keeps_committed[OF reachable_committed[OF assms(1)] assms(2)] .
  then have app: "only_appends d1 d2" using steps_progress[OF assms(3)] by simp
  have "external_id_used d1 w i"
    using insert_event_frame(5)[OF ev] d1 by (simp add: external_id_used_def history_entry_def)
  then have used: "external_id_used d2 w i"
    using app by (auto simp: only_appends_def external_id_used_def)
  have "only_appends d d1" using signal_tx.appends[OF reachable_committed[OF assms(1)] assms(2)] .
  then obtain e2 where "find_execution d2 w = Some e2"
    using only_appends_find[OF only_appends_trans[OF _ app] e] by blast
  with used i assms(4) show ?thesis by (simp add: send_signal_def record_api_audit_def)
qed

theorem signal_accepted_once_witness:
  "send_signal (sample_tx 35) 1 ''s'' ''go'' (JInt 1) None
      (transact (send_signal (sample_tx 15) 1 ''s'' ''go'' JNull None) sample_started)
    = Inr (transact (send_signal (sample_tx 15) 1 ''s'' ''go'' JNull None) sample_started, False)"
proof -
  have "map_sum id snd (send_signal (sample_tx 15) 1 ''s'' ''go'' JNull None sample_started) = Inr True"
    by code_simp
  then obtain d1 where d1: "send_signal (sample_tx 15) 1 ''s'' ''go'' JNull None sample_started = Inr (d1, True)"
    by (cases "send_signal (sample_tx 15) 1 ''s'' ''go'' JNull None sample_started") auto
  then show ?thesis
    using signal_accepted_once[OF sample_reachable(1) d1, of d1 "''go''" "sample_tx 35" "JInt 1"]
    by (simp add: transact_def)
qed

text \<open>
  C35. A definition version is pinned: once it is registered with a code hash, registering it with
  a different hash is refused in every later database.
\<close>

theorem definition_version_pinned:
  assumes "reachable d" and "register_workflow_definition n v h d = Inr (d1, u)" and "step\<^sup>*\<^sup>* d1 d2"
    and "h2 \<noteq> h"
  shows "register_workflow_definition n v h2 d2 = Inl (StoredDefinitionConflictError n v)"
proof -
  let ?find = "\<lambda>d. List.find (\<lambda>r. wd_workflow_type r = n \<and> wd_version r = v) (db_definitions d)"
  obtain r where r: "?find d1 = Some r" and h: "wd_code_hash r = h"
    using assms(2) by (auto simp: register_workflow_definition_def res_simps Let_def split: if_splits)
  have "committed d1"
    using register_tx.keeps_committed[OF reachable_committed[OF assms(1)] assms(2)] .
  then obtain xs where xs: "db_definitions d2 = db_definitions d1 @ xs"
    using steps_progress[OF assms(3)] by (auto simp: only_appends_def)
  have "?find d2 = Some r" using r by (simp add: xs find_append)
  moreover have "definition_exists d2 n v"
    using calculation by (auto simp: definition_exists_def list_ex_iff find_Some_iff)
  ultimately show ?thesis using h assms(4) by (simp add: register_workflow_definition_def)
qed

theorem definition_version_pinned_witness:
  "register_workflow_definition ''w'' 1 ''other''
      (transact (register_workflow_definition ''w'' 1 ''h'') empty_db)
    = Inl (StoredDefinitionConflictError ''w'' 1)"
proof -
  have "map_sum id snd (register_workflow_definition ''w'' 1 ''h'' empty_db) = Inr ()" by code_simp
  then obtain d1 where d1: "register_workflow_definition ''w'' 1 ''h'' empty_db = Inr (d1, ())"
    by (cases "register_workflow_definition ''w'' 1 ''h'' empty_db") auto
  then show ?thesis
    using definition_version_pinned[OF reachable_empty d1, of d1 "''other''"] by (simp add: transact_def)
qed

text \<open>
  C27. Terminating a running workflow always succeeds: with a recursion depth of the number of
  executions and a fresh task id nothing can stop it, and the workflow is terminated afterwards.
\<close>

theorem termination_always_succeeds:
  assumes "reachable d" and "find_execution d w = Some e" and "ex_status e = WfRunning"
    and "length (db_executions d) \<le> k" and "\<forall>t\<in>set (db_tasks d). tk_id t \<noteq> tx_uuid x 0"
  shows "\<exists>d' e'. terminate_workflow k x w reason None d = Inr (d', True)
    \<and> find_execution d' w = Some e' \<and> ex_status e' = WfTerminated"
  by (rule terminate_workflow_succeeds[OF reachable_committed[OF assms(1)] assms(2-5)])

theorem termination_always_succeeds_witness:
  "\<exists>d' e'. terminate_workflow 10 (sample_tx 60) 1 None None sample_running = Inr (d', True)
    \<and> find_execution d' 1 = Some e' \<and> ex_status e' = WfTerminated"
proof -
  have "map_option ex_status (find_execution sample_running 1) = Some WfRunning" by code_simp
  then obtain e where e: "find_execution sample_running 1 = Some e" "ex_status e = WfRunning" by auto
  have "map ex_id (db_executions sample_running) = [1]" by code_simp
  then have len: "length (db_executions sample_running) \<le> 10"
    by (metis length_map length_Cons list.size(3) One_nat_def one_le_numeral)
  have "list_all (\<lambda>t. tk_id t \<noteq> tx_uuid (sample_tx 60) 0) (db_tasks sample_running)" by code_simp
  then have "\<forall>t\<in>set (db_tasks sample_running). tk_id t \<noteq> tx_uuid (sample_tx 60) 0"
    by (simp add: list_all_iff)
  from termination_always_succeeds[OF sample_reachable(4) e len this] show ?thesis .
qed

text \<open>
  C36. Resuming a paused workflow moves every pending task of it, and no other task, by the whole length of
  the pause, together with the deadline for its start. So a task that became visible while the workflow was
  paused (created for a signal, say) can be leased only some time after the resumption: later by as long as
  the pause had lasted when it became visible.
\<close>

theorem resume_delays_tasks_of_the_pause:
  assumes "resume_workflow env x w reason a d = Inr (d', True)"
    and "find_execution d w = Some e" and "ex_paused_at e = Some p"
  shows "db_tasks d' = map (\<lambda>t. if tk_workflow_id t = w \<and> tk_status t = TkPending
        then t\<lparr>tk_visible_at := tk_visible_at t + (tx_now x - p),
               tk_schedule_to_start_deadline :=
                 map_option (\<lambda>s. s + (tx_now x - p)) (tk_schedule_to_start_deadline t)\<rparr>
        else t) (db_tasks d)
    \<and> (\<forall>t y ty q. t \<in> set (db_tasks d) \<longrightarrow> tk_workflow_id t = w \<longrightarrow> tk_status t = TkPending \<longrightarrow>
         (\<exists>t'\<in>set (db_tasks d'). tk_id t' = tk_id t \<and> tk_status t' = TkPending
            \<and> (tx_now y < tx_now x + (tk_visible_at t - p) \<longrightarrow> \<not> leasable y ty q d' t')))"
proof -
  let ?f = "\<lambda>s. s\<lparr>tk_visible_at := tk_visible_at s + (tx_now x - p),
    tk_schedule_to_start_deadline := map_option (\<lambda>v. v + (tx_now x - p)) (tk_schedule_to_start_deadline s)\<rparr>"
  have "db_tasks d' = db_tasks (update_tasks (\<lambda>t. tk_workflow_id t = w \<and> tk_status t = TkPending) ?f d)"
    using assms(1-3) by (auto simp: resume_workflow_def res_simps Let_def
        dest!: record_api_audit_frame(3) insert_event_frame(2) split: if_splits)
  then have tasks: "db_tasks d' = map (\<lambda>t. if tk_workflow_id t = w \<and> tk_status t = TkPending then ?f t else t) (db_tasks d)"
    by (simp add: update_tasks_def)
  have "?f t \<in> set (db_tasks d')" if "t \<in> set (db_tasks d)" "tk_workflow_id t = w" "tk_status t = TkPending" for t
    using that by (auto simp: tasks)
  then have "\<exists>t'\<in>set (db_tasks d'). tk_id t' = tk_id t \<and> tk_status t' = TkPending
      \<and> (tx_now y < tx_now x + (tk_visible_at t - p) \<longrightarrow> \<not> leasable y ty q d' t')"
    if "t \<in> set (db_tasks d)" "tk_workflow_id t = w" "tk_status t = TkPending" for t y ty q
    using that by (intro bexI[of _ "?f t"]) (auto simp: leasable_def)
  with tasks show ?thesis by blast
qed

definition sample_paused :: db where
  "sample_paused = transact (send_signal (sample_tx 120) 1 ''s'' ''go'' JNull None)
     (transact (pause_workflow (sample_tx 100) 1 None None) sample_completed)"

theorem resume_delays_tasks_of_the_pause_witness:
  "map tk_visible_at (filter (\<lambda>t. tk_status t = TkPending)
      (db_tasks (transact (resume_workflow sample_env (sample_tx 200) 1 None None) sample_paused))) = [150, 220]"
proof -
  have "map_sum id snd (resume_workflow sample_env (sample_tx 200) 1 None None sample_paused) = Inr True"
    by code_simp
  then obtain d' where d': "resume_workflow sample_env (sample_tx 200) 1 None None sample_paused = Inr (d', True)"
    by (cases "resume_workflow sample_env (sample_tx 200) 1 None None sample_paused") auto
  have "map_option ex_paused_at (find_execution sample_paused 1) = Some (Some 100)" by code_simp
  then obtain e where e: "find_execution sample_paused 1 = Some e" "ex_paused_at e = Some 100" by auto
  let ?shift = "\<lambda>t. if tk_workflow_id t = 1 \<and> tk_status t = TkPending
    then t\<lparr>tk_visible_at := tk_visible_at t + (tx_now (sample_tx 200) - 100), tk_schedule_to_start_deadline :=
      map_option (\<lambda>s. s + (tx_now (sample_tx 200) - 100)) (tk_schedule_to_start_deadline t)\<rparr> else t"
  have "db_tasks d' = map ?shift (db_tasks sample_paused)"
    using resume_delays_tasks_of_the_pause[OF d' e] by (rule conjunct1)
  moreover have "map tk_visible_at (filter (\<lambda>t. tk_status t = TkPending) (map ?shift (db_tasks sample_paused))) = [150, 220]"
    by code_simp
  ultimately show ?thesis using d' by (simp add: transact_def)
qed

text \<open>
  C37. Signals and updates share one space of external ids: after a signal whose id is
  \<^verbatim>\<open>update:\<close> followed by an update id, the update of that id can never be sent; the unique index
  on external ids rejects its event.
\<close>

theorem signal_id_blocks_update:
  assumes "reachable d" and "find_execution d w = Some e" and "ex_status e = WfRunning"
    and "external_id_used d w (''update:'' @ u)" and "find_update d w u = None"
    and "u \<noteq> []" and "length u \<le> 200" and "n \<noteq> []" and "length n \<le> 200"
  shows "send_update x w u n p a d = Inl (IntegrityError ''one_external_event'')"
proof -
  have ok: "committed d" by (rule reachable_committed[OF assms(1)])
  note seqs = committed_sequence(1)[OF ok assms(2)]
  have "hr_seq s \<noteq> ex_next_seq e" if "s \<in> set (db_history d)" "hr_workflow_id s = w" for s
  proof -
    have "s \<in> set (workflow_history d w)" using that by (simp add: workflow_history_def)
    then have "hr_seq s \<in> set [1..ex_next_seq e - 1]" using seqs by (metis image_eqI list.set_map)
    then show ?thesis by simp
  qed
  moreover have "1 \<le> ex_next_seq e" and "execution_exists d w"
    using ok find_execution_Some[OF assms(2)]
    by (auto simp: committed_def store_ok_def execution_exists_def list_ex_iff)
  ultimately show ?thesis
    using assms(2-)
    by (auto simp: send_update_def insert_update_def insert_event_def insert_history_def
        history_entry_def check_all_def list_all_iff opt_exists_def external_id_used_def list_ex_iff
        execution_exists_def Suc_le_eq Let_def)
qed

theorem signal_id_blocks_update_witness:
  "send_update (sample_tx 30) 1 ''u'' ''n'' JNull None
      (transact (send_signal (sample_tx 15) 1 ''update:u'' ''go'' JNull None) sample_started)
    = Inl (IntegrityError ''one_external_event'')"
proof -
  let ?d = "transact (send_signal (sample_tx 15) 1 ''update:u'' ''go'' JNull None) sample_started"
  have "reachable ?d" by (rule reachable_transact[OF sample_reachable(1)]) (rule step_signal)
  moreover have "map_option ex_status (find_execution ?d 1) = Some WfRunning" by code_simp
  moreover have "external_id_used ?d 1 (''update:'' @ ''u'')" by code_simp
  moreover have "find_update ?d 1 ''u'' = None" by code_simp
  ultimately show ?thesis
    using signal_id_blocks_update[of ?d 1 _ "''u''" "''n''"] by auto
qed

section \<open>The tables\<close>

lemma distinct_pairs:
  assumes "\<And>w. distinct (map g (filter (\<lambda>r. f r = w) rs))"
  shows "distinct (map (\<lambda>r. (f r, g r)) rs)"
  using assms
proof (induction rs)
  case (Cons r rs)
  have "distinct (map g (filter (\<lambda>s. f s = w) rs))" for w
    using Cons.prems[of w] by (auto split: if_splits)
  then have "distinct (map (\<lambda>r. (f r, g r)) rs)" by (rule Cons.IH)
  moreover have "(f r, g r) \<notin> (\<lambda>s. (f s, g s)) ` set rs"
  proof
    assume "(f r, g r) \<in> (\<lambda>s. (f s, g s)) ` set rs"
    then obtain s where "s \<in> set rs" "f s = f r" "g s = g r" by auto
    with Cons.prems[of "f r"] show False by (auto simp: image_iff)
  qed
  ultimately show ?case by simp
qed simp

text \<open>
  C8. The statements of the engine keep the constraints of the schema: after any sequence of transactions
  every execution and every task passes the checks of its table, also when an \<^verbatim>\<open>update\<close> wrote the row;
  the primary keys of executions, tasks and events are unique and their references point to existing rows.
\<close>

theorem rows_satisfy_schema:
  assumes "reachable d"
  shows "(\<forall>e\<in>set (db_executions d). execution_check e) \<and> (\<forall>t\<in>set (db_tasks d). task_check t)
    \<and> distinct (map ex_id (db_executions d)) \<and> distinct (map tk_id (db_tasks d))
    \<and> distinct (map (\<lambda>r. (hr_workflow_id r, hr_seq r)) (db_history d))
    \<and> (\<forall>t\<in>set (db_tasks d). execution_exists d (tk_workflow_id t))
    \<and> (\<forall>r\<in>set (db_history d). execution_exists d (hr_workflow_id r))
    \<and> (\<forall>e\<in>set (db_executions d). \<forall>p. ex_parent_workflow_id e = Some p \<longrightarrow> execution_exists d p)"
proof -
  have com: "committed d" by (rule reachable_committed[OF assms])
  then have ok: "store_ok Map.empty {} {} d" by (simp add: committed_def)
  have "distinct (map hr_seq (filter (\<lambda>r. hr_workflow_id r = w) (db_history d)))" for w
  proof (cases "find_execution d w")
    case None
    then have "filter (\<lambda>r. hr_workflow_id r = w) (db_history d) = []"
      using ok unfolding find_execution_None by (auto simp: store_ok_def filter_empty_conv)
    then show ?thesis by simp
  next
    case (Some e)
    from committed_sequence(1)[OF com this] show ?thesis by (simp add: workflow_history_def)
  qed
  from distinct_pairs[OF this] ok show ?thesis by (simp add: store_ok_def parents_first_def)
qed

theorem rows_satisfy_schema_witness:
  "length (db_tasks sample_terminated) = 3 \<and> list_all task_check (db_tasks sample_terminated)"
proof
  show "length (db_tasks sample_terminated) = 3" by code_simp
  show "list_all task_check (db_tasks sample_terminated)"
    using rows_satisfy_schema[OF sample_reachable(6)] by (simp add: list_all_iff)
qed

section \<open>Draining timers\<close>

text \<open>
  C28. Firing due timers ends: from every reachable database the loop that fires one due timer per
  transaction until none is found stops, without an error, after at most as many rounds as timers are due
  at the given time, and none is due then.
\<close>

theorem timer_backlog_drains:
  assumes "reachable d" and "\<forall>i. tx_locked (x i) = []" and "inj_on (\<lambda>i. tx_uuid (x i) 0) {..<n}"
    and "\<forall>i<n. tx_uuid (x i) 0 \<notin> tk_id ` set (db_tasks d)" and "length (timer_backlog q t d) < n"
  shows "\<exists>d'. fire_timers n env x q t d = Some (Inr d') \<and> timer_backlog q t d' = []"
  by (rule fire_timers_ends[OF reachable_committed[OF assms(1)] assms(2-5)])

definition sample_sleeping :: db where
  "sample_sleeping = transact (commit_workflow_replay sample_env 10 (sample_tx 30) sample_task
     (sample_decision\<lparr>rr_commands := [ScheduleTimer
        \<lparr>st_command_id = 0, st_entity_id = 7, st_delay_seconds = 5, st_purpose = ''sleep'',
         st_signal_name = None, st_fingerprint = []\<rparr>]\<rparr>)) sample_leased"

theorem timer_backlog_drains_witness:
  "length (timer_backlog None 6000000 sample_sleeping) = 1
    \<and> (\<exists>d'. fire_timers 2 sample_env (\<lambda>i. sample_tx (40 + int i)) None 6000000 sample_sleeping = Some (Inr d')
         \<and> timer_backlog None 6000000 d' = [])"
proof
  show one: "length (timer_backlog None 6000000 sample_sleeping) = 1" by code_simp
  have "reachable sample_sleeping"
    unfolding sample_sleeping_def by (rule reachable_transact[OF sample_reachable(2)]) (rule step_commit)
  moreover have "list_all (\<lambda>i. tx_uuid (sample_tx (40 + int i)) 0 \<notin> tk_id ` set (db_tasks sample_sleeping)) [0, 1]"
    by code_simp
  then have "\<forall>i<2. tx_uuid (sample_tx (40 + int i)) 0 \<notin> tk_id ` set (db_tasks sample_sleeping)"
    by (auto simp: less_2_cases_iff)
  moreover have "inj_on (\<lambda>i. tx_uuid (sample_tx (40 + int i)) 0) {..<2}"
    by (simp add: sample_tx_def lessThan_nat_numeral lessThan_Suc)
  ultimately show "\<exists>d'. fire_timers 2 sample_env (\<lambda>i. sample_tx (40 + int i)) None 6000000 sample_sleeping
      = Some (Inr d') \<and> timer_backlog None 6000000 d' = []"
    using one by (intro timer_backlog_drains) (simp_all add: sample_tx_def)
qed

end
