(* ===== verification/Schedule_Properties.thy ===== *)
theory Schedule_Properties
  imports Engine_Properties
begin

text \<open>
  The properties of cron expressions and of schedules.
\<close>

section \<open>Cron\<close>

lemma whole_minute_bounds: "whole_minute t \<le> t" "t < whole_minute t + minute_us" "minute_us dvd whole_minute t"
proof -
  note m = div_mult_mod_eq[of t minute_us] pos_mod_bound[of minute_us t] pos_mod_sign[of minute_us t]
  show "whole_minute t \<le> t" "t < whole_minute t + minute_us"
    unfolding whole_minute_def using m by simp_all
  show "minute_us dvd whole_minute t" unfolding whole_minute_def by (rule dvd_triv_right)
qed

lemma minutes_after:
  assumes "minute_us dvd c"
  shows "t < c \<longleftrightarrow> (\<exists>k. 0 \<le> k \<and> c = whole_minute t + minute_us + k * minute_us)"
proof -
  obtain n where n: "c = n * minute_us" using assms by (auto simp: dvd_def)
  obtain m where m: "whole_minute t = m * minute_us" using whole_minute_bounds(3)[of t] by (auto simp: dvd_def)
  have "t < c \<longleftrightarrow> m + 1 \<le> n" using whole_minute_bounds(1,2)[of t] n m by auto
  also have "\<dots> \<longleftrightarrow> (\<exists>k. 0 \<le> k \<and> c = whole_minute t + minute_us + k * minute_us)"
    by (auto simp: n m intro: exI[of _ "n - m - 1"])
  finally show ?thesis .
qed

lemma search_minutes_first:
  "search_minutes p n (whole_minute t + minute_us) = Some c \<longleftrightarrow>
    minute_us dvd c \<and> t < c \<and> c \<le> whole_minute t + n * minute_us \<and> p c
    \<and> (\<forall>m. minute_us dvd m \<longrightarrow> t < m \<longrightarrow> m < c \<longrightarrow> \<not> p m)" (is "?L \<longleftrightarrow> ?R")
proof -
  let ?c0 = "whole_minute t + minute_us"
  have dvd: "minute_us dvd ?c0 + k * minute_us" for k using whole_minute_bounds(3)[of t] by simp
  show ?thesis
  proof
    assume ?L
    then obtain k where k: "0 \<le> k" "k < n" "c = ?c0 + k * minute_us" "p c"
      "\<forall>j. 0 \<le> j \<and> j < k \<longrightarrow> \<not> p (?c0 + j * minute_us)"
      unfolding search_minutes_Some by blast
    have "\<not> p m" if m: "minute_us dvd m" "t < m" "m < c" for m
    proof -
      obtain j where "0 \<le> j" "m = ?c0 + j * minute_us" using minutes_after[OF m(1)] m(2) by blast
      with m(3) k(3,5) show ?thesis by simp
    qed
    moreover have "minute_us dvd c" unfolding k(3) by (rule dvd)
    moreover have "t < c" unfolding k(3) using whole_minute_bounds(2)[of t] k(1) by linarith
    moreover have "c \<le> whole_minute t + n * minute_us" unfolding k(3) using k(2) by linarith
    ultimately show ?R using k(4) by blast
  next
    assume R: ?R
    then obtain k where k: "0 \<le> k" "c = ?c0 + k * minute_us" using minutes_after[of c t] by blast
    have "\<not> p (?c0 + j * minute_us)" if "0 \<le> j" "j < k" for j
    proof -
      have "t < ?c0 + j * minute_us" using whole_minute_bounds(2)[of t] that(1) by linarith
      moreover have "?c0 + j * minute_us < c" unfolding k(2) using that(2) by linarith
      ultimately show ?thesis using R dvd[of j] by blast
    qed
    moreover have "k < n" using R k(2) by linarith
    ultimately show ?L unfolding search_minutes_Some using R k by blast
  qed
qed

text \<open>
  C16. The next run of a schedule is the first whole minute strictly after the given instant that
  matches the expression in the schedule's time zone, and within five years; when there is one it
  is found.
\<close>

theorem next_cron_time_is_first_match:
  "next_cron_time zones e (Aware t) tz = Inr c \<longleftrightarrow>
    (\<exists>parsed local. parse_cron e = Inr parsed \<and> zones tz = Zone local
      \<and> minute_us dvd c \<and> t < c \<and> c \<le> whole_minute t + five_years * minute_us
      \<and> matches parsed (local c)
      \<and> (\<forall>m. minute_us dvd m \<longrightarrow> t < m \<longrightarrow> m < c \<longrightarrow> \<not> matches parsed (local m)))"
proof (cases "parse_cron e")
  case (Inr parsed)
  show ?thesis
  proof (cases "zones tz")
    case (Zone local)
    have "next_cron_time zones e (Aware t) tz = Inr c \<longleftrightarrow>
        search_minutes (\<lambda>c. matches parsed (local c)) five_years (whole_minute t + minute_us) = Some c"
      by (simp add: next_cron_time_def Inr Zone split: option.split)
    then show ?thesis unfolding search_minutes_first by (simp add: Inr Zone)
  qed (simp_all add: next_cron_time_def Inr)
qed (simp add: next_cron_time_def)

lemma next_cron_time_later: "next_cron_time zs e (Aware t) tz = Inr c \<Longrightarrow> t < c"
  using whole_minute_bounds(2)[of t]
  by (cases "zs tz") (auto simp: next_cron_time_def search_minutes_Some res_simps split: option.splits)

text \<open>A sample zone: hours and minutes of UTC, every day the first of January and a Thursday.\<close>

definition sample_zones :: zones where
  "sample_zones name =
     (if name = ''UTC'' then Zone (\<lambda>t. \<lparr>lo_minute = t div minute_us mod 60,
        lo_hour = t div (60 * minute_us) mod 24, lo_day = 1, lo_month = 1, lo_weekday = 3\<rparr>)
      else ZoneNotFound)"

theorem next_cron_time_is_first_match_witness:
  "next_cron_time sample_zones ''*/15 * * * *'' (Aware 70000000) ''UTC'' = Inr 900000000 \<and>
   (\<exists>parsed. parse_cron ''*/15 * * * *'' = Inr parsed
     \<and> \<not> matches parsed \<lparr>lo_minute = 2, lo_hour = 0, lo_day = 1, lo_month = 1, lo_weekday = 3\<rparr>)"
proof
  show run: "next_cron_time sample_zones ''*/15 * * * *'' (Aware 70000000) ''UTC'' = Inr 900000000"
    by code_simp
  from next_cron_time_is_first_match[THEN iffD1, OF run] obtain parsed local
    where 1: "parse_cron ''*/15 * * * *'' = Inr parsed" "sample_zones ''UTC'' = Zone local"
      and 2: "\<forall>m. minute_us dvd m \<longrightarrow> 70000000 < m \<longrightarrow> m < 900000000 \<longrightarrow> \<not> matches parsed (local m)"
    by blast
  have "\<not> matches parsed (local 120000000)" using 2 by simp
  moreover have "local = (\<lambda>t. \<lparr>lo_minute = t div minute_us mod 60,
        lo_hour = t div (60 * minute_us) mod 24, lo_day = 1, lo_month = 1, lo_weekday = 3\<rparr>)"
    using 1(2) by (simp add: sample_zones_def)
  ultimately show "\<exists>parsed. parse_cron ''*/15 * * * *'' = Inr parsed
     \<and> \<not> matches parsed \<lparr>lo_minute = 2, lo_hour = 0, lo_day = 1, lo_month = 1, lo_weekday = 3\<rparr>"
    using 1(1) by auto
qed

text \<open>
  An expression that parses selects at least one value in every field, and only values that a
  clock can show: minutes below 60, hours below 24, days 1 to 31, months 1 to 12, weekdays 0 to 6.
\<close>

lemma parsed_cron_within_bounds:
  assumes "parse_cron s = Inr e"
  shows "cf_values (ce_minute e) \<noteq> {} \<and> cf_values (ce_minute e) \<subseteq> {0..59}
    \<and> cf_values (ce_hour e) \<noteq> {} \<and> cf_values (ce_hour e) \<subseteq> {0..23}
    \<and> cf_values (ce_day_of_month e) \<noteq> {} \<and> cf_values (ce_day_of_month e) \<subseteq> {1..31}
    \<and> cf_values (ce_month e) \<noteq> {} \<and> cf_values (ce_month e) \<subseteq> {1..12}
    \<and> cf_values (ce_day_of_week e) \<noteq> {} \<and> cf_values (ce_day_of_week e) \<subseteq> {0..6}"
proof -
  obtain f0 f1 f2 f3 f4 where
    "cron_field_of f0 0 59 False = Inr (ce_minute e)" "cron_field_of f1 0 23 False = Inr (ce_hour e)"
    "cron_field_of f2 1 31 False = Inr (ce_day_of_month e)" "cron_field_of f3 1 12 False = Inr (ce_month e)"
    "cron_field_of f4 0 7 True = Inr (ce_day_of_week e)"
    by (rule parse_fields_cases[OF assms[unfolded parse_cron_def]])
  note f = this
  have "insert 0 ({0..7} - {7}) = {0..6::int}" by auto
  then show ?thesis
    using cron_field_bounds(1)[OF f(1)] cron_field_bounds(1)[OF f(2)] cron_field_bounds(1)[OF f(3)]
      cron_field_bounds(1)[OF f(4)] cron_field_bounds(1)[OF f(5)]
      cron_field_bounds(2)[OF f(1)] cron_field_bounds(2)[OF f(2)] cron_field_bounds(2)[OF f(3)]
      cron_field_bounds(2)[OF f(4)] cron_field_bounds(3)[OF f(5)]
    by simp
qed


section \<open>Schedules\<close>

text \<open>
  A sample: definition \<open>w\<close> runs every quarter of an hour and skips overlapping runs. Its first
  run is due at 00:15.
\<close>

definition sample_schedule :: "overlap_policy \<Rightarrow> db" where
  "sample_schedule policy =
     transact (create_schedule sample_env sample_zones (sample_tx 10) ''n'' ''w'' 1 JNull ''*/15 * * * *''
         ''UTC'' ''q'' [] policy (Some 70000000) None)
       (transact (register_workflow_definition ''w'' 1 ''h'') empty_db)"

definition sample_materialized :: db where
  "sample_materialized =
     transact (materialize_due_schedule sample_env sample_zones (sample_tx 20) (Some 900000001))
       (sample_schedule OverlapSkip)"

definition sample_backfilled :: db where
  "sample_backfilled =
     transact (backfill_schedule sample_env sample_zones (sample_tx 20) 1000 (Aware 0) (Aware 900000000) 10 None)
       (sample_schedule OverlapSkip)"

lemma sample_schedules_reachable:
  "reachable (sample_schedule policy)" "reachable sample_materialized" "reachable sample_backfilled"
proof -
  show 1: "reachable (sample_schedule policy)" for policy unfolding sample_schedule_def
    by (intro reachable_transact reachable_empty) (auto intro: step_create_schedule step_register)
  show "reachable sample_materialized" unfolding sample_materialized_def
    by (rule reachable_transact[OF 1]) (rule step_materialize)
  show "reachable sample_backfilled" unfolding sample_backfilled_def
    by (rule reachable_transact[OF 1]) (rule step_backfill)
qed

lemma committed_execution_unique:
  "committed d \<Longrightarrow> e \<in> set (db_executions d) \<Longrightarrow> e' \<in> set (db_executions d) \<Longrightarrow> ex_id e = ex_id e' \<Longrightarrow> e = e'"
  by (auto simp: committed_def store_ok_def distinct_map dest: inj_onD)

lemma scheduled_execution_occurrence:
  assumes "schedule_ok d" and "e \<in> set (db_executions d)" and "from_schedule e"
  obtains r t where "r \<in> set (db_occurrences d)" "ex_scheduled_at e = Some t"
    "Some (oc_schedule_id r) = ex_schedule_id e" "oc_scheduled_at r = t" "oc_workflow_id r = Some (ex_id e)"
proof -
  have "(ex_id e, ex_schedule_id e, ex_scheduled_at e) \<in> (\<Union>r\<in>set (db_occurrences d). occurrence_entries r)"
    using assms by (auto simp: schedule_ok_def sched_view_def)
  then show ?thesis using that by (auto simp: occurrence_entries_def split: option.splits)
qed

text \<open>
  C13. A schedule starts each of its minutes at most once: in every reachable database two
  executions that the same schedule started for the same instant, whether from the scheduler, from its
  buffer or from a backfill, are one execution. (Continuations inherit the columns and are excluded.)
\<close>

theorem scheduled_minute_started_once:
  assumes "reachable d" and "e \<in> set (db_executions d)" and "e' \<in> set (db_executions d)"
    and "ex_schedule_id e = Some i" and "ex_schedule_id e' = Some i"
    and "ex_scheduled_at e = ex_scheduled_at e'"
    and "ex_continued_from e = None" and "ex_continued_from e' = None"
  shows "e = e'"
proof -
  note ok = reachable_schedules[OF assms(1)]
  have "from_schedule e" "from_schedule e'" using assms by (simp_all add: from_schedule_def)
  then obtain r r' where r: "r \<in> set (db_occurrences d)" "r' \<in> set (db_occurrences d)"
    "occurrence_key r = occurrence_key r'" "oc_workflow_id r = Some (ex_id e)" "oc_workflow_id r' = Some (ex_id e')"
    using assms(4-6) by (auto simp: occurrence_key_def elim!: scheduled_execution_occurrence[OF ok assms(2)]
        scheduled_execution_occurrence[OF ok assms(3)])
  moreover have "distinct (map occurrence_key (db_occurrences d))"
    using ok by (simp add: schedule_ok_def sched_view_def)
  ultimately have "r = r'" by (auto simp: distinct_map dest: inj_onD)
  with r have "ex_id e = ex_id e'" by simp
  with committed_execution_unique[OF reachable_committed[OF assms(1)] assms(2,3)] show ?thesis by simp
qed

theorem scheduled_minute_started_once_witness:
  "map (\<lambda>e. (ex_schedule_id e, ex_scheduled_at e, ex_continued_from e)) (db_executions sample_backfilled)
     = [(Some 1000, Some 0, None), (Some 1000, Some 900000000, None)] \<and>
   {e \<in> set (db_executions sample_backfilled). ex_schedule_id e = Some 1000 \<and> ex_scheduled_at e = Some 0
      \<and> ex_continued_from e = None} = {hd (db_executions sample_backfilled)}"
proof -
  have *: "map (\<lambda>e. (ex_schedule_id e, ex_scheduled_at e, ex_continued_from e)) (db_executions sample_backfilled)
     = [(Some 1000, Some 0, None), (Some 1000, Some 900000000, None)]" by code_simp
  then obtain a b where ab: "db_executions sample_backfilled = [a, b]" by (auto simp: map_eq_Cons_conv)
  have a: "ex_schedule_id a = Some 1000" "ex_scheduled_at a = Some 0" "ex_continued_from a = None"
    using * unfolding ab list.map by blast+
  have mem: "a \<in> set (db_executions sample_backfilled)" unfolding ab by simp
  have "e = a" if "e \<in> set (db_executions sample_backfilled)" "ex_schedule_id e = Some 1000"
    "ex_scheduled_at e = Some 0" "ex_continued_from e = None" for e
    using scheduled_minute_started_once[OF sample_schedules_reachable(3) that(1) mem that(2) a(1) _ that(4) a(3)]
      that(3) a(2) by simp
  then have "{e \<in> set (db_executions sample_backfilled). ex_schedule_id e = Some 1000 \<and> ex_scheduled_at e = Some 0
      \<and> ex_continued_from e = None} = {a}" using mem a by blast
  moreover have "hd (db_executions sample_backfilled) = a" unfolding ab by simp
  ultimately show ?thesis using * by simp
qed

lemma create_execution_adds:
  "create_execution env x i e attrs d = Inr d' \<Longrightarrow>
    db_executions d' = db_executions d @ [e] \<and> db_occurrences d' = db_occurrences d \<and> db_schedules d' = db_schedules d"
  by (auto simp: create_execution_def insert_execution_def insert_event_def insert_history_def
      insert_workflow_task_def insert_task_def res_simps)

lemma record_occurrence_frame:
  "record_occurrence x i t w b d = Inr d' \<Longrightarrow> db_executions d' = db_executions d \<and> db_schedules d' = db_schedules d"
  by (auto simp: record_occurrence_def insert_occurrence_def update_occurrences_def res_simps split: if_splits)

lemma start_occurrence_adds:
  assumes "start_occurrence env x i j s t b d = Inr d'"
  shows "db_executions d' = db_executions d @ [occurrence_execution env (tx_uuid x i) (tx_clock x j) s t]"
    and "db_schedules d' = db_schedules d"
  using start_occurrence_cases[OF assms] create_execution_adds record_occurrence_frame by metis+

lemma start_occurrence_exists:
  assumes "start_occurrence env x i j s t False d = Inr d'"
  shows "occurrence_exists d' (sd_id s) t" and "\<not> occurrence_exists d (sd_id s) t"
proof -
  obtain attrs d1 where 1: "create_execution env x (tx_uuid x (i + 1))
      (occurrence_execution env (tx_uuid x i) (tx_clock x j) s t) attrs d = Inr d1"
    and 2: "record_occurrence x (sd_id s) t (tx_uuid x i) False d1 = Inr d'"
    by (rule start_occurrence_cases[OF assms])
  then show "occurrence_exists d' (sd_id s) t" "\<not> occurrence_exists d (sd_id s) t"
    using create_execution_adds[OF 1]
    by (auto simp: record_occurrence_def insert_occurrence_def occurrence_exists_def res_simps
        list_all_iff list_ex_iff)
qed

lemma materialize_occurrence_exists:
  assumes "materialize_occurrence env x j s d = Inr d'"
  shows "occurrence_exists d' (sd_id s) (sd_next_run_at s)"
    and "\<not> occurrence_exists d (sd_id s) (sd_next_run_at s)" and "db_schedules d' = db_schedules d"
  using assms start_occurrence_exists start_occurrence_adds(2)
  by (auto simp: materialize_occurrence_def insert_occurrence_def overlapped_occurrence_def Let_def
      occurrence_exists_def res_simps list_all_iff list_ex_iff split: if_splits)

lemma due_schedule_Some:
  assumes "due_schedule x now d = Some s"
  shows "s \<in> set (db_schedules d)" and "sd_paused_at s = None" and "sd_next_run_at s \<le> now"
  using select_first_Some(1,2)[OF assms[unfolded due_schedule_def]] by auto

lemma find_schedule_iff:
  assumes "schedule_ok d"
  shows "find_schedule d i = Some s \<longleftrightarrow> s \<in> set (db_schedules d) \<and> sd_id s = i"
proof -
  have "distinct (map sd_id (db_schedules d))" using assms by (simp add: schedule_ok_def sched_view_def)
  from distinct_find[OF this] show ?thesis by (auto simp: find_schedule_def find_Some_iff)
qed

text \<open>
  C18. While an execution of a schedule is running, the scheduler starts no further one of it,
  unless its overlap policy allows that: neither from the due time nor from the buffer.
\<close>

theorem overlap_policy_respected:
  assumes "reachable d" and "materialize_due_schedule env zs x clk d = Inr (d', b)"
    and "find_schedule d i = Some s" and "sd_overlap_policy s \<noteq> OverlapAllow" and "schedule_active d i"
  shows "filter (\<lambda>e. ex_schedule_id e = Some i) (db_executions d')
       = filter (\<lambda>e. ex_schedule_id e = Some i) (db_executions d)"
  using assms(2)
proof (cases rule: materialize_cases)
  case (buffered s' r j)
  then have "sd_id s' \<noteq> i" using buffered_candidate_Some(6)[OF buffered(2)] assms(5) by auto
  with start_occurrence_adds(1)[OF buffered(3)] show ?thesis by simp
next
  case (due s' now n j d1)
  note ok = reachable_schedules[OF assms(1)]
  have "filter (\<lambda>e. ex_schedule_id e = Some i) (db_executions d1)
      = filter (\<lambda>e. ex_schedule_id e = Some i) (db_executions d)"
  proof (cases "sd_id s' = i")
    case True
    then have "s' = s" using due_schedule_Some(1)[OF due(3)] find_schedule_iff[OF ok] assms(3)
      by (metis option.inject)
    with due(5) assms(4,5) True show ?thesis
      by (simp add: materialize_occurrence_def insert_occurrence_def res_simps)
  next
    case False
    with due(5) show ?thesis
      by (auto simp: materialize_occurrence_def insert_occurrence_def res_simps
          dest!: start_occurrence_adds(1) split: if_splits)
  qed
  then show ?thesis using due(6) by (simp add: update_schedule_def)
qed simp

theorem overlap_policy_respected_witness:
  "map ex_scheduled_at (db_executions (transact (materialize_due_schedule sample_env sample_zones (sample_tx 30)
      (Some 1800000000)) sample_materialized)) = [Some 900000000]"
proof -
  let ?op = "materialize_due_schedule sample_env sample_zones (sample_tx 30) (Some 1800000000)"
  have "map_sum id snd (?op sample_materialized) = Inr True" by code_simp
  then obtain d' where d': "?op sample_materialized = Inr (d', True)"
    by (cases "?op sample_materialized") auto
  have "map_option sd_overlap_policy (find_schedule sample_materialized 1000) = Some OverlapSkip" by code_simp
  then obtain s where s: "find_schedule sample_materialized 1000 = Some s" "sd_overlap_policy s \<noteq> OverlapAllow"
    by auto
  have active: "schedule_active sample_materialized 1000" by code_simp
  have one: "map (\<lambda>e. (ex_schedule_id e, ex_scheduled_at e)) (db_executions sample_materialized)
      = [(Some 1000, Some 900000000)]" by code_simp
  have all: "list_all (\<lambda>e. ex_schedule_id e = Some 1000) (db_executions (transact ?op sample_materialized))"
    by code_simp
  have "transact ?op sample_materialized = d'" by (simp add: transact_def d')
  with all have "filter (\<lambda>e. ex_schedule_id e = Some 1000) (db_executions d') = db_executions d'"
    by (simp add: list_all_iff)
  moreover have "map ex_scheduled_at (filter (\<lambda>e. ex_schedule_id e = Some 1000) (db_executions sample_materialized))
      = [Some 900000000]" using one by (auto simp: map_eq_Cons_conv)
  ultimately show ?thesis
    using overlap_policy_respected[OF sample_schedules_reachable(2) d' s active]
      \<open>transact ?op sample_materialized = d'\<close> by simp
qed

text \<open>
  C17. When the scheduler serves the schedule that is due, the due instant is recorded as an
  occurrence and as the last run, and the schedule moves on, strictly, to the next instant of its
  expression: no instant is served twice and none in between is passed over.
\<close>

theorem due_schedule_advances:
  assumes "reachable d" and "buffered_candidate x d = None" and "due_schedule x now d = Some s"
    and "materialize_due_schedule env zs x (Some now) d = Inr (d', b)"
  shows "b \<and> occurrence_exists d' (sd_id s) (sd_next_run_at s) \<and>
    (\<exists>s'. find_schedule d' (sd_id s) = Some s' \<and> sd_last_run_at s' = Some (sd_next_run_at s)
      \<and> sd_next_run_at s < sd_next_run_at s'
      \<and> next_cron_time zs (sd_cron_expression s) (Aware (sd_next_run_at s)) (sd_timezone s)
          = Inr (sd_next_run_at s'))"
proof -
  obtain n d1 where n: "next_cron_time zs (sd_cron_expression s) (Aware (sd_next_run_at s)) (sd_timezone s) = Inr n"
    and d1: "materialize_occurrence env x 0 s d = Inr d1" and b: b
    and d': "d' = update_schedule (sd_id s) (\<lambda>r. r\<lparr>sd_next_run_at := n,
          sd_last_run_at := Some (sd_next_run_at s), sd_updated_at := now\<rparr>) d1" (is "_ = update_schedule _ ?f _")
    using assms(2-4)
    by (auto simp: materialize_due_schedule_def cron_txn_def Let_def res_simps map_sum_Inr_iff)
  have ok: "schedule_ok d'"
    by (rule materialize_view.keeps_schedules[OF reachable_schedules[OF assms(1)] assms(4)])
  have "?f s \<in> set (db_schedules d')"
    using due_schedule_Some(1)[OF assms(3)] materialize_occurrence_exists(3)[OF d1]
    by (force simp: d' update_schedule_def)
  then have "find_schedule d' (sd_id s) = Some (?f s)" by (simp add: find_schedule_iff[OF ok])
  moreover have "occurrence_exists d' (sd_id s) (sd_next_run_at s)"
    using materialize_occurrence_exists(1)[OF d1] by (simp add: d' occurrence_exists_def update_schedule_def)
  moreover have "sd_next_run_at s < n" by (rule next_cron_time_later[OF n])
  ultimately show ?thesis using b n by simp
qed

theorem due_schedule_advances_witness:
  "occurrence_exists sample_materialized 1000 900000000"
proof -
  let ?d = "sample_schedule OverlapSkip"
  let ?op = "materialize_due_schedule sample_env sample_zones (sample_tx 20) (Some 900000001)"
  have 1: "buffered_candidate (sample_tx 20) ?d = None" by code_simp
  have "map_option (\<lambda>s. (sd_id s, sd_next_run_at s)) (due_schedule (sample_tx 20) 900000001 ?d)
      = Some (1000, 900000000)" by code_simp
  then obtain s where s: "due_schedule (sample_tx 20) 900000001 ?d = Some s" "sd_id s = 1000"
    "sd_next_run_at s = 900000000" by auto
  have "map_sum id snd (?op ?d) = Inr True" by code_simp
  then obtain d' where d': "?op ?d = Inr (d', True)" by (cases "?op ?d") auto
  then have "d' = sample_materialized" by (simp add: sample_materialized_def transact_def)
  with due_schedule_advances[OF sample_schedules_reachable(1) 1 s(1) d'] s(2,3) show ?thesis by simp
qed

section \<open>Schedules that are stuck\<close>

text \<open>The next instant of the schedule has an occurrence already.\<close>

definition blocked_schedule :: "schedule_row \<Rightarrow> db \<Rightarrow> bool" where
  "blocked_schedule s d \<longleftrightarrow> s \<in> set (db_schedules d) \<and> occurrence_exists d (sd_id s) (sd_next_run_at s)"

lemma blocked_view: "sched_view d' = sched_view d \<Longrightarrow> blocked_schedule s d' = blocked_schedule s d"
  by (simp add: sched_view_def blocked_schedule_def occurrence_exists_def)

lemma insert_occurrence_blocked:
  "insert_occurrence r d = Inr d' \<Longrightarrow> blocked_schedule s d \<Longrightarrow> blocked_schedule s d'"
  by (auto dest!: insert_occurrence_checks(1) simp: blocked_schedule_def occurrence_exists_def)

lemma update_occurrences_blocked:
  assumes "\<And>r. occurrence_key (f r) = occurrence_key r" and "blocked_schedule s d"
  shows "blocked_schedule s (update_occurrences p f d)"
proof -
  obtain r where "r \<in> set (db_occurrences d)" "occurrence_key r = (sd_id s, sd_next_run_at s)"
    using assms(2) by (auto simp: blocked_schedule_def occurrence_exists_def list_ex_iff occurrence_key_def)
  then have "(if p r then f r else r) \<in> set (db_occurrences (update_occurrences p f d))"
    "occurrence_key (if p r then f r else r) = (sd_id s, sd_next_run_at s)"
    using assms(1) by (auto simp: update_occurrences_def)
  then have "occurrence_exists (update_occurrences p f d) (sd_id s) (sd_next_run_at s)"
    by (auto simp: occurrence_exists_def list_ex_iff occurrence_key_def simp del: if_split)
  with assms(2) show ?thesis by (simp add: blocked_schedule_def update_occurrences_def)
qed

lemma start_occurrence_blocked:
  assumes "start_occurrence env x i j s0 t b d = Inr d'" and "blocked_schedule s d"
  shows "blocked_schedule s d'"
proof -
  obtain attrs d1 where 1: "create_execution env x (tx_uuid x (i + 1))
      (occurrence_execution env (tx_uuid x i) (tx_clock x j) s0 t) attrs d = Inr d1"
    and 2: "record_occurrence x (sd_id s0) t (tx_uuid x i) b d1 = Inr d'"
    by (rule start_occurrence_cases[OF assms(1)])
  have "blocked_schedule s d1"
    using create_scheduled_view[OF 1] assms(2) by (simp add: sched_view_def blocked_schedule_def occurrence_exists_def)
  then show ?thesis
    using 2 by (auto simp: record_occurrence_def occurrence_key_def split: if_splits
        intro: insert_occurrence_blocked update_occurrences_blocked)
qed

lemma update_schedule_blocked:
  "blocked_schedule s d \<Longrightarrow> sd_id s \<noteq> i \<Longrightarrow> blocked_schedule s (update_schedule i f d)"
  by (auto simp: blocked_schedule_def occurrence_exists_def update_schedule_def)

lemma materialize_blocked:
  assumes "materialize_due_schedule env zs x clk d = Inr (d', b)" and "blocked_schedule s d" and "schedule_ok d"
  shows "blocked_schedule s d'"
  using assms(1)
proof (cases rule: materialize_cases)
  case (buffered s0 r j)
  then show ?thesis using start_occurrence_blocked assms(2) by blast
next
  case (due s0 now n j d1)
  have s0: "s0 \<in> set (db_schedules d)" using select_first_Some(1)[OF due(3)[unfolded due_schedule_def]] by simp
  have "sd_id s \<noteq> sd_id s0"
  proof
    assume "sd_id s = sd_id s0"
    then have "s = s0"
      using assms(2,3) s0 by (auto simp: blocked_schedule_def schedule_ok_def sched_view_def distinct_map dest: inj_onD)
    with assms(2) due(5) materialize_occurrence_exists(2) show False by (auto simp: blocked_schedule_def)
  qed
  moreover have "blocked_schedule s d1"
    using due(5) assms(2) by (auto simp: materialize_occurrence_def split: if_splits
        intro: insert_occurrence_blocked start_occurrence_blocked)
  ultimately show ?thesis unfolding due(6) by (intro update_schedule_blocked) auto
qed (use assms(2) in simp)

lemma backfill_blocked:
  assumes "backfill_schedule env zs x i a b l au d = Inr (d', n)" and "blocked_schedule s d"
  shows "blocked_schedule s d'"
proof -
  obtain row ts d1 det where 1: "foldR (backfill_one env x row) ts (d, 0) = Inr (d1, n)"
    and 2: "record_api_audit x au None True det d1 = Inr d'"
    by (rule backfill_cases[OF assms(1)])
  have "blocked_schedule s (fst (d1, n))"
    by (rule foldR_invariant[OF 1, where P = "\<lambda>st. blocked_schedule s (fst st)"])
      (auto simp: assms(2) backfill_one_def res_simps split_beta intro: start_occurrence_blocked split: if_splits)
  with blocked_view[OF record_api_audit_view[OF 2]] show ?thesis by simp
qed

text \<open>A step that does not pause or resume the schedule.\<close>

definition step_unpaused :: "uuid \<Rightarrow> db \<Rightarrow> db \<Rightarrow> bool" where
  "step_unpaused i d d' \<longleftrightarrow>
     step d d' \<and> (\<forall>zs x p clk a. set_schedule_paused zs x i p clk a d \<noteq> Inr (d', True))"

lemma create_schedule_blocked:
  assumes "create_schedule env zs x n wt v i c tz q sa op clk a d = Inr (d', r)" and "blocked_schedule s d"
  shows "blocked_schedule s d'"
proof -
  obtain row d1 det where 1: "insert_schedule env row d = Inr d1" and 2: "record_api_audit x a None True det d1 = Inr d'"
    using assms(1) by (auto simp: create_schedule_def Let_def res_simps)
  have "blocked_schedule s d1"
    using 1 assms(2) by (auto simp: insert_schedule_def res_simps blocked_schedule_def occurrence_exists_def)
  with blocked_view[OF record_api_audit_view[OF 2]] show ?thesis by simp
qed

lemma pause_other_blocked:
  assumes "set_schedule_paused zs x i p clk a d = Inr (d', b)" and "blocked_schedule s d" and "b \<Longrightarrow> i \<noteq> sd_id s"
  shows "blocked_schedule s d'"
proof -
  obtain d1 det c where 1: "record_api_audit x a None c det d1 = Inr d'"
    and "d1 = d \<and> \<not> b \<or> b \<and> (\<exists>f. d1 = update_schedule i f d)"
    using assms(1) by (auto simp: set_schedule_paused_def Let_def res_simps split: option.splits if_splits)
  then have "blocked_schedule s d1" using assms(2,3) by (auto intro!: update_schedule_blocked)
  with blocked_view[OF record_api_audit_view[OF 1]] show ?thesis by simp
qed

lemma step_blocked:
  assumes "step_unpaused (sd_id s) d d'" and b: "blocked_schedule s d" and "schedule_ok d"
  shows "blocked_schedule s d'"
proof -
  note same = blocked_view[of d' d s]
  have "step d d'" using assms(1) by (simp add: step_unpaused_def)
  then show ?thesis
  proof cases
    case step_register then show ?thesis using register_view.same_schedules same b by blast
  next
    case step_start then show ?thesis using start_view.same_schedules same b by blast
  next
    case step_retry then show ?thesis using retry_view.same_schedules same b by blast
  next
    case step_pause then show ?thesis using pause_view.same_schedules same b by blast
  next
    case step_resume then show ?thesis using resume_view.same_schedules same b by blast
  next
    case step_attributes then show ?thesis using attributes_view.same_schedules same b by blast
  next
    case step_terminate then show ?thesis using terminate_view.same_schedules same b by blast
  next
    case step_cancel then show ?thesis using cancel_view.same_schedules same b by blast
  next
    case step_signal then show ?thesis using signal_view.same_schedules same b by blast
  next
    case step_update then show ?thesis using update_view.same_schedules same b by blast
  next
    case step_effect then show ?thesis using effect_view.same_schedules same b by blast
  next
    case step_lease then show ?thesis using lease_view.same_schedules same b by blast
  next
    case step_renew then show ?thesis using renew_view.same_schedules same b by blast
  next
    case step_heartbeat then show ?thesis using heartbeat_view.same_schedules same b by blast
  next
    case step_reclaim then show ?thesis using reclaim_view.same_schedules same b by blast
  next
    case step_release then show ?thesis using release_view.same_schedules same b by blast
  next
    case commit_where then show ?thesis using commit_view.same_schedules same b by blast
  next
    case complete_where then show ?thesis using complete_view.same_schedules same b by blast
  next
    case fail_where then show ?thesis using fail_view.same_schedules same b by blast
  next
    case step_timer then show ?thesis using timer_view.same_schedules same b by blast
  next
    case step_timeout then show ?thesis using timeout_view.same_schedules same b by blast
  next
    case step_create_schedule then show ?thesis using create_schedule_blocked b by blast
  next
    case (step_pause_schedule zs x i p clk a c)
    with assms(1) show ?thesis by (intro pause_other_blocked[OF step_pause_schedule b]) (auto simp: step_unpaused_def)
  next
    case step_materialize then show ?thesis using materialize_blocked b assms(3) by blast
  next
    case step_backfill then show ?thesis using backfill_blocked b by blast
  next
    case step_worker then show ?thesis using worker_view.same_schedules same b by blast
  next
    case step_stop_worker then show ?thesis using stop_worker_view.same_schedules same b by blast
  qed
qed

lemma steps_blocked:
  assumes "(step_unpaused (sd_id s))\<^sup>*\<^sup>* d d'" and "blocked_schedule s d" and "schedule_ok d"
  shows "blocked_schedule s d' \<and> schedule_ok d'"
  using assms
proof (induction rule: rtranclp_induct)
  case (step y z)
  then show ?case using step_blocked[of s y z] step_schedules[of y z] by (auto simp: step_unpaused_def)
qed simp

text \<open>
  C40. A schedule whose next instant has already been started, by a backfill, is stuck: whatever else happens,
  until someone pauses or resumes it its row stays as it is, and each time it is the schedule to be served
  the scheduler's transaction fails, since inserting the occurrence violates its primary key.
\<close>

theorem backfilled_instant_blocks_schedule:
  assumes "reachable d" and "s \<in> set (db_schedules d)" and "occurrence_exists d (sd_id s) (sd_next_run_at s)"
    and "(step_unpaused (sd_id s))\<^sup>*\<^sup>* d d'"
  shows "s \<in> set (db_schedules d') \<and>
    (\<forall>env zs x clk. buffered_candidate x d' = None \<longrightarrow>
       due_schedule x (case clk of Some t \<Rightarrow> t | None \<Rightarrow> tx_clock x 0) d' = Some s \<longrightarrow>
       (\<exists>err. materialize_due_schedule env zs x clk d' = Inl err))"
proof -
  have "blocked_schedule s d'"
    using steps_blocked[OF assms(4)] assms(2,3) reachable_schedules[OF assms(1)] by (simp add: blocked_schedule_def)
  then have s: "s \<in> set (db_schedules d')" and ex: "occurrence_exists d' (sd_id s) (sd_next_run_at s)"
    by (simp_all add: blocked_schedule_def)
  have "\<exists>err. materialize_due_schedule env zs x clk d' = Inl err"
    if none: "buffered_candidate x d' = None" and due: "due_schedule x (case clk of Some t \<Rightarrow> t | None \<Rightarrow> tx_clock x 0) d' = Some s"
    for env zs x clk
  proof (cases "materialize_due_schedule env zs x clk d'")
    case (Inr r)
    then obtain j d1 where "materialize_occurrence env x j s d' = Inr d1"
      using none due by (auto simp: materialize_due_schedule_def Let_def res_simps)
    with materialize_occurrence_exists(2) ex show ?thesis by blast
  qed simp
  with s show ?thesis by blast
qed

theorem backfilled_instant_blocks_schedule_witness:
  "\<exists>s err. s \<in> set (db_schedules sample_backfilled)
    \<and> materialize_due_schedule sample_env sample_zones (sample_tx 30) (Some 900000001) sample_backfilled = Inl err"
proof -
  have 1: "buffered_candidate (sample_tx 30) sample_backfilled = None" by code_simp
  have "map_option (\<lambda>s. (sd_id s, sd_next_run_at s)) (due_schedule (sample_tx 30) 900000001 sample_backfilled)
      = Some (1000, 900000000)" by code_simp
  then obtain s where s: "due_schedule (sample_tx 30) 900000001 sample_backfilled = Some s" "sd_id s = 1000"
    "sd_next_run_at s = 900000000" by auto
  have "occurrence_exists sample_backfilled 1000 900000000" by code_simp
  moreover have "s \<in> set (db_schedules sample_backfilled)"
    using select_first_Some(1)[OF s(1)[unfolded due_schedule_def]] by simp
  ultimately show ?thesis
    using backfilled_instant_blocks_schedule[OF sample_schedules_reachable(3), of s sample_backfilled] s 1
    by (metis (no_types, lifting) option.simps(5) rtranclp.rtrancl_refl)
qed

end
