(* ===== verification/Definitions.thy ===== *)
theory Definitions
  imports Replay
begin

text \<open>
  \<^verbatim>\<open>engine/runtime/definitions.py\<close> and \<^verbatim>\<open>engine/sdk/decorators.py\<close>: workflow and activity definitions and
  the registry of a worker. A Python function object is the record \<open>py_function\<close>: its names, its
  source text if \<^verbatim>\<open>inspect\<close> finds it, its identity (what \<^verbatim>\<open>is\<close> compares) and its behaviour. An activity
  is a tree of heartbeats that ends in a result or an exception.
\<close>

section \<open>Definitions\<close>

record 'f py_function =
  pf_name :: string
  pf_module :: string
  pf_qualname :: string
  pf_source :: "string option"
  pf_identity :: nat
  pf_body :: 'f

datatype definition_error =
    VersionBelowOne
  | CannotInspect
  | WorkflowConflict string int
  | ActivityConflict string
  | UnknownWorkflow string int
  | UnknownActivity string

definition code_hash :: "pyenv \<Rightarrow> 'f py_function \<Rightarrow> definition_error + string" where
  "code_hash env function =
     (case pf_source function of
        None \<Rightarrow> Inl CannotInspect
      | Some source \<Rightarrow>
          Inr (hexdigest (py_sha256 env
            (pf_module function @ '':'' @ pf_qualname function @ [CHR 0x0A] @ source))))"

record workflow_definition =
  df_name :: string
  df_version :: int
  df_function :: "(json \<Rightarrow> prog) py_function"
  df_code_hash :: string

text \<open>\<^verbatim>\<open>name or function.__name__\<close>.\<close>

definition name_or :: "string option \<Rightarrow> string \<Rightarrow> string" where
  "name_or name dflt = (case name of Some (c # s) \<Rightarrow> c # s | _ \<Rightarrow> dflt)"

definition create_workflow ::
  "pyenv \<Rightarrow> (json \<Rightarrow> prog) py_function \<Rightarrow> int \<Rightarrow> string option
    \<Rightarrow> definition_error + workflow_definition" where
  "create_workflow env function version name =
     (if version < 1 then Inl VersionBelowOne
      else bindR (code_hash env function) (\<lambda>h.
        Inr \<lparr>df_name = name_or name (pf_name function), df_version = version,
             df_function = function, df_code_hash = h\<rparr>))"

text \<open>
  The behaviour of an activity. The argument of a continuation is what the heartbeat returned or
  raised; an exception is its class name and message, except a cancellation request.
\<close>

datatype ('e, 't) act =
    ActReturn json
  | ActRaise string string
  | ActCancel 'e
  | ActHeartbeat json interval "'e + 't \<Rightarrow> ('e, 't) act"

type_synonym ('e, 't) activity_body = "json list \<Rightarrow> dict \<Rightarrow> ('e, 't) act"

record ('e, 't) activity_definition =
  ad_name :: string
  ad_function :: "('e, 't) activity_body py_function"

definition create_activity ::
  "('e, 't) activity_body py_function \<Rightarrow> string option \<Rightarrow> ('e, 't) activity_definition" where
  "create_activity function name =
     \<lparr>ad_name = name_or name (pf_name function), ad_function = function\<rparr>"

section \<open>The registry\<close>

record ('e, 't) registry =
  rg_workflows :: "((string \<times> int) \<times> workflow_definition) list"
  rg_activities :: "(string \<times> ('e, 't) activity_definition) list"

definition empty_registry :: "('e, 't) registry" where
  "empty_registry = \<lparr>rg_workflows = [], rg_activities = []\<rparr>"

definition register_workflow ::
  "workflow_definition \<Rightarrow> ('e, 't) registry \<Rightarrow> definition_error + ('e, 't) registry" where
  "register_workflow def r =
     (let key = (df_name def, df_version def)
      in case map_of (rg_workflows r) key of
           Some existing \<Rightarrow>
             if df_code_hash existing \<noteq> df_code_hash def
             then Inl (WorkflowConflict (df_name def) (df_version def))
             else Inr (r\<lparr>rg_workflows := AList.update key def (rg_workflows r)\<rparr>)
         | None \<Rightarrow> Inr (r\<lparr>rg_workflows := AList.update key def (rg_workflows r)\<rparr>))"

definition register_activity ::
  "('e, 't) activity_definition \<Rightarrow> ('e, 't) registry \<Rightarrow> definition_error + ('e, 't) registry" where
  "register_activity def r =
     (case map_of (rg_activities r) (ad_name def) of
        Some existing \<Rightarrow>
          if pf_identity (ad_function existing) \<noteq> pf_identity (ad_function def)
          then Inl (ActivityConflict (ad_name def))
          else Inr (r\<lparr>rg_activities := AList.update (ad_name def) def (rg_activities r)\<rparr>)
      | None \<Rightarrow> Inr (r\<lparr>rg_activities := AList.update (ad_name def) def (rg_activities r)\<rparr>))"

definition registry_workflow ::
  "('e, 't) registry \<Rightarrow> string \<Rightarrow> int \<Rightarrow> definition_error + workflow_definition" where
  "registry_workflow r name version =
     (case map_of (rg_workflows r) (name, version) of
        None \<Rightarrow> Inl (UnknownWorkflow name version)
      | Some def \<Rightarrow> Inr def)"

definition registry_activity ::
  "('e, 't) registry \<Rightarrow> string \<Rightarrow> definition_error + ('e, 't) activity_definition" where
  "registry_activity r name =
     (case map_of (rg_activities r) name of
        None \<Rightarrow> Inl (UnknownActivity name)
      | Some def \<Rightarrow> Inr def)"

definition supported_workflow_versions :: "('e, 't) registry \<Rightarrow> string \<Rightarrow> int list" where
  "supported_workflow_versions r name =
     sort (map snd (filter (\<lambda>k. fst k = name) (map fst (rg_workflows r))))"

definition registered_workflows :: "('e, 't) registry \<Rightarrow> workflow_definition list" where
  "registered_workflows r = map snd (sort_key fst (rg_workflows r))"

definition registered_activities :: "('e, 't) registry \<Rightarrow> ('e, 't) activity_definition list" where
  "registered_activities r = map snd (sort_key fst (rg_activities r))"

section \<open>Registered code is pinned\<close>

text \<open>Each key occurs once and holds a definition of that name and version.\<close>

definition registry_ok :: "('e, 't) registry \<Rightarrow> bool" where
  "registry_ok r \<longleftrightarrow>
     distinct (map fst (rg_workflows r)) \<and> distinct (map fst (rg_activities r))
     \<and> (\<forall>(k, def)\<in>set (rg_workflows r). k = (df_name def, df_version def))
     \<and> (\<forall>(k, def)\<in>set (rg_activities r). k = ad_name def)"

lemma set_update_subset: "set (AList.update k v xs) \<subseteq> insert (k, v) (set xs)"
  by (induction xs) auto

lemma register_workflow_Inr:
  assumes "register_workflow def r = Inr r'"
  shows "r' = r\<lparr>rg_workflows := AList.update (df_name def, df_version def) def (rg_workflows r)\<rparr>"
    and "\<And>old. map_of (rg_workflows r) (df_name def, df_version def) = Some old \<Longrightarrow>
      df_code_hash old = df_code_hash def"
  using assms by (auto simp: register_workflow_def Let_def split: option.splits if_splits)

lemma register_workflow_ok:
  assumes "register_workflow def r = Inr r'" and "registry_ok r"
  shows "registry_ok r'"
  using assms(2) set_update_subset unfolding register_workflow_Inr(1)[OF assms(1)]
  by (fastforce simp: registry_ok_def AList.distinct_update)

lemma register_activity_ok:
  assumes "register_activity def r = Inr r'" and "registry_ok r"
  shows "registry_ok r'"
proof -
  have "r' = r\<lparr>rg_activities := AList.update (ad_name def) def (rg_activities r)\<rparr>"
    using assms(1) by (auto simp: register_activity_def split: option.splits if_splits)
  with assms(2) set_update_subset show ?thesis by (fastforce simp: registry_ok_def AList.distinct_update)
qed

lemma registry_workflow_Inr:
  assumes "registry_ok r" and "registry_workflow r n v = Inr def"
  shows "df_name def = n" and "df_version def = v"
  using assms by (auto simp: registry_ok_def registry_workflow_def split: option.splits dest!: map_of_SomeD)

lemma registry_hash_pinned:
  assumes "register_workflow def r = Inr r'" and "registry_workflow r n v = Inr old"
  shows "\<exists>new. registry_workflow r' n v = Inr new \<and> df_code_hash new = df_code_hash old"
  using assms(2) register_workflow_Inr[OF assms(1)]
  by (auto simp: registry_workflow_def update_conv' split: option.splits)

end
