(* ===== verification/Workers.thy ===== *)
theory Workers
  imports System Definitions Security
begin

text \<open>
  \<^verbatim>\<open>engine/workers\<close>: one step of the workflow worker, of the activity worker and of maintenance, and
  the loops around them. A worker step is several transactions. Between two of them other clients
  may commit: \<open>other i\<close> is what they have done to the database before the worker's transaction
  number \<open>i\<close>. The result is the database and what the step returned or raised.
\<close>

section \<open>Steps\<close>

datatype worker_error =
    DatabaseFailure db_error
  | ReplayFailure replay_error
  | DefinitionFailure definition_error
  | MalformedTask string

type_synonym worker_registry = "(db_error, timestamp) registry"

definition run_workflow_task ::
  "pyenv \<Rightarrow> nat \<Rightarrow> (nat \<Rightarrow> tx) \<Rightarrow> (nat \<Rightarrow> db \<Rightarrow> db) \<Rightarrow> worker_registry \<Rightarrow> string \<Rightarrow> interval \<Rightarrow> db
    \<Rightarrow> db \<times> (worker_error + bool)" where
  "run_workflow_task env depth x other registry queue_name lease_duration d =
     (case lease_task env (x 0) WorkflowTask queue_name lease_duration d of
        Inl e \<Rightarrow> (d, Inl (DatabaseFailure e))
      | Inr (d, None) \<Rightarrow> (d, Inr False)
      | Inr (d, Some task) \<Rightarrow>
          let d = other 1 d; d1 = other 2 d; d2 = other 3 d1
          in case load_workflow_replay_state (x 1) task d d1 d2 of
               Inl e \<Rightarrow> (d2, Inl (DatabaseFailure e))
             | Inr state \<Rightarrow>
                 let d = other 4 d2
                 in case registry_workflow registry (rs_workflow_type state)
                           (rs_definition_version state) of
                      Inl unknown \<Rightarrow>
                        (case release_workflow_task env (x 2) task 1000000 d of
                           Inl e \<Rightarrow> (d, Inl (DatabaseFailure e))
                         | Inr (d, u) \<Rightarrow> (d, Inl (DefinitionFailure unknown)))
                    | Inr def \<Rightarrow>
                        (case replay_workflow env (pf_body (df_function def))
                                (rs_workflow_id state) (rs_workflow_input state)
                                (rs_history state) of
                           Inl e \<Rightarrow> (d, Inl (ReplayFailure e))
                         | Inr replay \<Rightarrow>
                             (case commit_workflow_replay env depth (x 2) task replay d of
                                Inl e \<Rightarrow> (d, Inl (DatabaseFailure e))
                              | Inr (d, u) \<Rightarrow> (d, Inr True))))"

text \<open>
  The call of an activity: every heartbeat is a transaction, number \<open>i\<close> onwards. The outcome is the
  result, the failure that \<^verbatim>\<open>except Exception\<close> records, or a cancellation request that passes through.
\<close>

datatype activity_outcome = ActivityResult json | ActivityFailure json | ActivityCancelled db_error

primrec run_activity ::
  "(db_error, timestamp) act \<Rightarrow> pyenv \<Rightarrow> (nat \<Rightarrow> tx) \<Rightarrow> (nat \<Rightarrow> db \<Rightarrow> db) \<Rightarrow> leased_task \<Rightarrow> nat \<Rightarrow> db
    \<Rightarrow> db \<times> nat \<times> activity_outcome" where
  "run_activity (ActReturn v) = (\<lambda>env x other task i d. (d, i, ActivityResult v))"
| "run_activity (ActRaise ty msg) = (\<lambda>env x other task i d.
     (d, i, ActivityFailure (JObj [(''type'', JStr ty), (''message'', JStr msg)])))"
| "run_activity (ActCancel e) = (\<lambda>env x other task i d. (d, i, ActivityCancelled e))"
| "run_activity (ActHeartbeat details duration k) = (\<lambda>env x other task i d.
     let d = other i d
     in case heartbeat_activity env (x i) (lt_id task) (lt_lease_token task) details duration d of
          Inl e \<Rightarrow> run_activity (k (Inl e)) env x other task (i + 1) d
        | Inr (d, t) \<Rightarrow> run_activity (k (Inr t)) env x other task (i + 1) d)"

text \<open>The checks on the input of an activity task; the result is the type name and the arguments.\<close>

definition activity_arguments ::
  "json \<Rightarrow> worker_error + string \<times> json list \<times> dict" where
  "activity_arguments input =
     (case input of
        JObj task_input \<Rightarrow>
          (case (dget task_input ''activity_type'', dget task_input ''input'') of
             (JStr activity_type, JObj command_input) \<Rightarrow>
               (case (dget command_input ''args'', dget command_input ''kwargs'') of
                  (JArr args, JObj kwargs) \<Rightarrow>
                    (case dget task_input ''idempotency_key'' of
                       JStr key \<Rightarrow> Inr (activity_type, args, kwargs)
                     | _ \<Rightarrow> Inl (MalformedTask ''activity task has no idempotency key''))
                | _ \<Rightarrow> Inl (MalformedTask ''activity arguments are malformed''))
           | _ \<Rightarrow> Inl (MalformedTask ''activity task input is malformed''))
      | _ \<Rightarrow> Inl (MalformedTask ''activity task input must be an object''))"

definition finish_activity ::
  "pyenv \<Rightarrow> tx \<Rightarrow> leased_task \<Rightarrow> activity_outcome \<Rightarrow> db \<Rightarrow> db \<times> (worker_error + bool)" where
  "finish_activity env x task outcome d =
     (case outcome of
        ActivityCancelled e \<Rightarrow> (d, Inl (DatabaseFailure e))
      | ActivityFailure failure \<Rightarrow>
          (case fail_activity env x task failure None d of
             Inl e \<Rightarrow> (d, Inl (DatabaseFailure e))
           | Inr (d, b) \<Rightarrow> (d, Inr True))
      | ActivityResult result \<Rightarrow>
          (case complete_activity x task result d of
             Inl e \<Rightarrow> (d, Inl (DatabaseFailure e))
           | Inr (d, u) \<Rightarrow> (d, Inr True)))"

definition run_activity_task ::
  "pyenv \<Rightarrow> (nat \<Rightarrow> tx) \<Rightarrow> (nat \<Rightarrow> db \<Rightarrow> db) \<Rightarrow> worker_registry \<Rightarrow> string \<Rightarrow> interval \<Rightarrow> db
    \<Rightarrow> db \<times> (worker_error + bool)" where
  "run_activity_task env x other registry queue_name lease_duration d =
     (case lease_task env (x 0) ActivityTask queue_name lease_duration d of
        Inl e \<Rightarrow> (d, Inl (DatabaseFailure e))
      | Inr (d, None) \<Rightarrow> (d, Inr False)
      | Inr (d, Some task) \<Rightarrow>
          (case activity_arguments (lt_input task) of
             Inl e \<Rightarrow> (d, Inl e)
           | Inr (activity_type, args, kwargs) \<Rightarrow>
               (case registry_activity registry activity_type of
                  Inl unknown \<Rightarrow> (d, Inl (DefinitionFailure unknown))
                | Inr def \<Rightarrow>
                    let (d, i, outcome) =
                      run_activity (pf_body (ad_function def) args kwargs) env x other task 1 d
                    in finish_activity env (x i) task outcome (other i d))))"

text \<open>
  Maintenance: four transactions; an exception ends the pass and keeps what has been committed.
\<close>

definition run_maintenance ::
  "pyenv \<Rightarrow> zones \<Rightarrow> (nat \<Rightarrow> tx) \<Rightarrow> (nat \<Rightarrow> db \<Rightarrow> db) \<Rightarrow> string option \<Rightarrow> int \<Rightarrow> timestamp option \<Rightarrow> db
    \<Rightarrow> db \<times> (worker_error + int)" where
  "run_maintenance env zones x other queue_name workflow_reclaim_limit clock_time d =
     (case reclaim_expired_workflow_tasks (x 0) workflow_reclaim_limit d of
        Inl e \<Rightarrow> (d, Inl (DatabaseFailure e))
      | Inr (d, reclaimed) \<Rightarrow>
     let d = other 1 d
     in case process_activity_timeout env (x 1) queue_name None d of
        Inl e \<Rightarrow> (d, Inl (DatabaseFailure e))
      | Inr (d, timed_out) \<Rightarrow>
     let d = other 2 d
     in case fire_due_timer env (x 2) queue_name clock_time d of
        Inl e \<Rightarrow> (d, Inl (DatabaseFailure e))
      | Inr (d, timer_fired) \<Rightarrow>
     let d = other 3 d
     in case materialize_due_schedule env zones (x 3) clock_time d of
        Inl e \<Rightarrow> (d, Inl (DatabaseFailure e))
      | Inr (d, schedule_started) \<Rightarrow>
          (d, Inr (reclaimed + of_bool timed_out + of_bool timer_fired + of_bool schedule_started)))"

section \<open>Loops\<close>

text \<open>
  One iteration of \<^verbatim>\<open>_run_loop\<close>: an exception is logged and counts as no progress; without progress the
  loop waits. \<open>n\<close> bounds the number of iterations before the stop event is set.
\<close>

definition progressed :: "'e + int \<Rightarrow> bool" where
  "progressed r = (case r of Inl e \<Rightarrow> False | Inr n \<Rightarrow> n \<noteq> 0)"

record loop_metrics =
  lm_errors :: int
  lm_progressed :: int
  lm_idle :: int

definition count_iteration :: "'e + int \<Rightarrow> loop_metrics \<Rightarrow> loop_metrics" where
  "count_iteration r m =
     (let m = (case r of Inl e \<Rightarrow> m\<lparr>lm_errors := lm_errors m + 1\<rparr> | Inr n \<Rightarrow> m)
      in if progressed r then m\<lparr>lm_progressed := lm_progressed m + 1\<rparr>
         else m\<lparr>lm_idle := lm_idle m + 1\<rparr>)"

primrec run_loop ::
  "nat \<Rightarrow> (nat \<Rightarrow> db \<Rightarrow> db \<times> ('e + int)) \<Rightarrow> db \<Rightarrow> loop_metrics \<Rightarrow> db \<times> loop_metrics" where
  "run_loop 0 worker_step d m = (d, m)"
| "run_loop (Suc n) worker_step d m =
     (let (d, r) = worker_step n d in run_loop n worker_step d (count_iteration r m))"

text \<open>The checks of \<^verbatim>\<open>run_worker\<close> on its arguments, and the order of the roles.\<close>

definition worker_roles :: "py_float \<Rightarrow> py_float \<Rightarrow> string list \<Rightarrow> string + string list" where
  "worker_roles idle_delay heartbeat_interval roles =
     (if float_not_positive idle_delay then Inl ''idle_delay must be positive''
      else if float_not_positive heartbeat_interval then Inl ''heartbeat_interval must be positive''
      else if roles = [] \<or> \<not> set roles \<subseteq> {''workflow'', ''activity'', ''maintenance''}
      then Inl ''roles must be a non-empty subset''
      else Inr (sort (remdups roles)))"

section \<open>Worker steps are steps of the engine\<close>

text \<open>Interference is admissible when it is itself made of transactions of the engine.\<close>

definition interferes :: "(db \<Rightarrow> db \<Rightarrow> bool) \<Rightarrow> (nat \<Rightarrow> db \<Rightarrow> db) \<Rightarrow> bool" where
  "interferes S other \<longleftrightarrow> (\<forall>i d. S\<^sup>*\<^sup>* d (other i d))"

lemma steps_then: "S\<^sup>*\<^sup>* a b \<Longrightarrow> S b c \<Longrightarrow> S\<^sup>*\<^sup>* a c"
  by (rule rtranclp.rtrancl_into_rtrancl)

lemma interferes_then: "interferes S other \<Longrightarrow> S\<^sup>*\<^sup>* a b \<Longrightarrow> S\<^sup>*\<^sup>* a (other i b)"
  by (auto simp: interferes_def intro: rtranclp_trans)

lemma run_activity_steps:
  assumes "interferes (step_where T R) other"
  shows "(step_where T R)\<^sup>*\<^sup>* a d \<Longrightarrow> (step_where T R)\<^sup>*\<^sup>* a (fst (run_activity act env x other task i d))"
proof (induction act arbitrary: i d)
  case (ActHeartbeat det dur k)
  have 1: "(step_where T R)\<^sup>*\<^sup>* a (other i d)" using assms ActHeartbeat.prems by (rule interferes_then)
  show ?case
  proof (cases "heartbeat_activity env (x i) (lt_id task) (lt_lease_token task) det dur (other i d)")
    case (Inl e)
    with 1 ActHeartbeat.IH[of "k (Inl e)"] show ?thesis by (simp add: Let_def)
  next
    case (Inr p)
    obtain d' t where p: "p = (d', t)" by (cases p)
    have "(step_where T R)\<^sup>*\<^sup>* a d'" using Inr by (auto simp: p intro: steps_then[OF 1 step_heartbeat])
    with Inr ActHeartbeat.IH[of "k (Inr t)"] show ?thesis by (simp add: Let_def p)
  qed
qed auto

lemma run_maintenance_steps:
  assumes "interferes (step_where T R) other"
  shows "(step_where T R)\<^sup>*\<^sup>* d (fst (run_maintenance env zs x other q l clk d))"
proof (cases "reclaim_expired_workflow_tasks (x 0) l d")
  case 1: (Inr p)
  obtain d1 n1 where p: "p = (d1, n1)" by (cases p)
  have s1: "(step_where T R)\<^sup>*\<^sup>* d (other 1 d1)"
    using 1 by (auto simp: p intro!: interferes_then[OF assms] step_reclaim)
  show ?thesis
  proof (cases "process_activity_timeout env (x 1) q None (other 1 d1)")
    case 2: (Inr p2)
    obtain d2 b2 where p2: "p2 = (d2, b2)" by (cases p2)
    have s2: "(step_where T R)\<^sup>*\<^sup>* d (other 2 d2)"
      using 2 by (auto simp: p2 intro: interferes_then[OF assms steps_then[OF s1 step_timeout]])
    show ?thesis
    proof (cases "fire_due_timer env (x 2) q clk (other 2 d2)")
      case 3: (Inr p3)
      obtain d3 b3 where p3: "p3 = (d3, b3)" by (cases p3)
      have s3: "(step_where T R)\<^sup>*\<^sup>* d (other 3 d3)"
        using 3 by (auto simp: p3 intro: interferes_then[OF assms steps_then[OF s2 step_timer]])
      with 1 2 3 show ?thesis
        by (auto simp: run_maintenance_def p p2 p3 Let_def split: sum.splits
            intro: steps_then[OF s3 step_materialize])
    qed (use 1 2 s2 in \<open>simp add: run_maintenance_def p p2 Let_def\<close>)
  qed (use 1 s1 in \<open>simp add: run_maintenance_def p Let_def\<close>)
qed (simp add: run_maintenance_def)

text \<open>A loop of steps that are made of transactions is made of transactions.\<close>

lemma run_loop_steps:
  assumes "\<And>i d. S\<^sup>*\<^sup>* d (fst (work i d))"
  shows "S\<^sup>*\<^sup>* d (fst (run_loop n work d m))"
proof (induction n arbitrary: d m)
  case (Suc n)
  have "S\<^sup>*\<^sup>* d (fst (work n d))" by (rule assms)
  with Suc[of "fst (work n d)" "count_iteration (snd (work n d)) m"] show ?case
    by (auto simp: split_beta intro: rtranclp_trans)
qed simp

text \<open>Every iteration is counted once, as progress or as idle; errors are idle.\<close>

lemma run_loop_counts:
  "lm_progressed (snd (run_loop n work d m)) + lm_idle (snd (run_loop n work d m))
    = lm_progressed m + lm_idle m + int n"
proof (induction n arbitrary: d m)
  case (Suc n)
  have "lm_progressed (count_iteration r m) + lm_idle (count_iteration r m) = lm_progressed m + lm_idle m + 1"
    for r :: "'a + int" by (auto simp: count_iteration_def Let_def split: sum.splits)
  with Suc show ?case by (simp add: split_beta)
qed simp

end
