(* ===== verification/Replay_Check.thy ===== *)
theory Replay_Check
  imports Transitions Definitions
begin

text \<open>
  \<^verbatim>\<open>engine/runtime/replay_check.py\<close>: replaying a stored history against a candidate definition, without
  any write. Results are compared with Python's \<^verbatim>\<open>==\<close>: numbers and Booleans by value, dictionaries
  without regard to order.
\<close>

section \<open>Equality of JSON values in Python\<close>

fun number :: "json \<Rightarrow> rat option" where
  "number (JBool b) = Some (if b then 1 else 0)"
| "number (JInt n) = Some (of_int n)"
| "number (JFloat q) = Some q"
| "number _ = None"

primrec py_equal :: "json \<Rightarrow> json \<Rightarrow> bool" where
  "py_equal JNull b = (b = JNull)"
| "py_equal (JBool x) b = (number b = Some (if x then 1 else 0))"
| "py_equal (JInt n) b = (number b = Some (of_int n))"
| "py_equal (JFloat q) b = (number b = Some q)"
| "py_equal (JStr s) b = (b = JStr s)"
| "py_equal (JArr xs) b =
     (case b of JArr ys \<Rightarrow> list_all2 (\<lambda>f y. f y) (map py_equal xs) ys | _ \<Rightarrow> False)"
| "py_equal (JObj d) b =
     (case b of
        JObj e \<Rightarrow> set (map fst d) = set (map fst e)
          \<and> list_all (\<lambda>(k, f). case map_of e k of None \<Rightarrow> False | Some y \<Rightarrow> f y)
              (map (map_prod id py_equal) d)
      | _ \<Rightarrow> False)"

section \<open>The check\<close>

datatype check_message = TypeMismatch | ReplayDiverged divergence | StatusDiffers | ResultDiffers | FailureDiffers

record replay_check_report =
  rp_workflow_id :: uuid
  rp_workflow_type :: string
  rp_stored_version :: int
  rp_against_version :: int
  rp_compatible :: bool
  rp_replay_status :: "replay_status option"
  rp_divergence_command_id :: "int option"
  rp_message :: "check_message option"

datatype check_error = CheckDatabase db_error | CheckHistory invalid_history

fun expected_status :: "workflow_status \<Rightarrow> replay_status option" where
  "expected_status WfCompleted = Some COMPLETED"
| "expected_status WfFailed = Some FAILED"
| "expected_status _ = None"

definition check_outcome :: "execution_row \<Rightarrow> replay_result \<Rightarrow> check_error + check_message option" where
  "check_outcome e replay =
     (if expected_status (ex_status e) \<noteq> None \<and> expected_status (ex_status e) \<noteq> Some (rr_status replay)
      then Inr (Some StatusDiffers)
      else if ex_status e = WfCompleted
      then (case ex_result e of
              None \<Rightarrow> Inl (CheckDatabase (BadType ''the JSON object must be str''))
            | Some stored \<Rightarrow>
                if py_equal (rr_result replay) stored then Inr None else Inr (Some ResultDiffers))
      else if ex_status e = WfFailed
      then (case ex_failure e of
              None \<Rightarrow> Inl (CheckDatabase (BadType ''the JSON object must be str''))
            | Some stored \<Rightarrow>
                if py_equal (rr_failure replay) stored then Inr None else Inr (Some FailureDiffers))
      else Inr None)"

definition replay_check ::
  "pyenv \<Rightarrow> uuid \<Rightarrow> workflow_definition \<Rightarrow> db \<Rightarrow> check_error + replay_check_report" where
  "replay_check env w def d =
     (case find_execution d w of
        None \<Rightarrow> Inl (CheckDatabase (TransitionError ''workflow does not exist''))
      | Some e \<Rightarrow>
          let history = map history_event_from_row (sort_key hr_seq (workflow_history d w));
              report = (\<lambda>ok st c m.
                \<lparr>rp_workflow_id = w, rp_workflow_type = ex_workflow_type e,
                 rp_stored_version = ex_definition_version e, rp_against_version = df_version def,
                 rp_compatible = ok, rp_replay_status = st, rp_divergence_command_id = c,
                 rp_message = m\<rparr>)
          in if df_name def \<noteq> ex_workflow_type e
             then Inr (report False None None (Some TypeMismatch))
             else
               (case replay_workflow env (pf_body (df_function def)) w (ex_input e) history of
                  Inl (InvalidHistoryError h) \<Rightarrow> Inl (CheckHistory h)
                | Inl (Diverged c detail) \<Rightarrow>
                    Inr (report False None (Some c) (Some (ReplayDiverged detail)))
                | Inr replay \<Rightarrow>
                    bindR (check_outcome e replay) (\<lambda>m.
                      Inr (report (m = None) (Some (rr_status replay)) None m))))"

lemma check_outcome_None:
  "check_outcome e rr = Inr None \<longleftrightarrow>
    (case ex_status e of
       WfCompleted \<Rightarrow> rr_status rr = COMPLETED \<and> (\<exists>v. ex_result e = Some v \<and> py_equal (rr_result rr) v)
     | WfFailed \<Rightarrow> rr_status rr = FAILED \<and> (\<exists>v. ex_failure e = Some v \<and> py_equal (rr_failure rr) v)
     | _ \<Rightarrow> True)"
  by (cases "ex_status e") (auto simp: check_outcome_def split: option.splits)

lemma replay_check_compatible:
  "(\<exists>r. replay_check env w def d = Inr r \<and> rp_compatible r) \<longleftrightarrow>
    (\<exists>e rr. find_execution d w = Some e \<and> df_name def = ex_workflow_type e
      \<and> replay_workflow env (pf_body (df_function def)) w (ex_input e)
          (map history_event_from_row (sort_key hr_seq (workflow_history d w))) = Inr rr
      \<and> check_outcome e rr = Inr None)"
proof (cases "find_execution d w")
  case (Some e)
  then show ?thesis
    by (cases "replay_workflow env (pf_body (df_function def)) w (ex_input e)
          (map history_event_from_row (sort_key hr_seq (workflow_history d w)))")
      (auto simp: replay_check_def Let_def res_simps split: replay_error.splits)
qed (simp add: replay_check_def)

end
