(* ===== verification/Migrations.thy ===== *)
theory Migrations
  imports Py_Strings Serialization
begin

text \<open>
  \<^verbatim>\<open>engine/persistence/migrations.py\<close>: the runner of the SQL migrations. The directory is an association
  list from file names to contents; \<open>run_sql\<close> is what PostgreSQL does with a script, \<open>None\<close> when
  it reports an error; the schema it changes is an arbitrary type. The advisory lock keeps other
  runners out, so a run sees one state at a time.
\<close>

record migration =
  mg_version :: string
  mg_name :: string
  mg_checksum :: string
  mg_sql :: string

datatype migration_error =
    InvalidFilename string
  | DuplicateVersion string
  | NoMigrations
  | UnknownMigrations "string list"
  | ChecksumChanged string
  | SqlError string

section \<open>Discovery\<close>

text \<open>\<^verbatim>\<open>path.stem\<close>: the name without its suffix.\<close>

definition sql_stem :: "string \<Rightarrow> string" where
  "sql_stem name = take (length name - 4) name"

definition is_sql :: "string \<Rightarrow> bool" where
  "is_sql name \<longleftrightarrow> 4 \<le> length name \<and> drop (length name - 4) name = ''.sql''"

definition discover_one ::
  "pyenv \<Rightarrow> string \<times> string \<Rightarrow> migration list \<Rightarrow> migration_error + migration list" where
  "discover_one env file migrations =
     (let (filename, sql) = file;
          (version, separator, name) = partition_on CHR ''_'' (sql_stem filename)
      in if \<not> separator \<or> version = [] \<or> \<not> list_all is_digit version \<or> name = []
         then Inl (InvalidFilename filename)
         else if version \<in> set (map mg_version migrations) then Inl (DuplicateVersion version)
         else Inr (migrations @
                [\<lparr>mg_version = version, mg_name = name, mg_checksum = hexdigest (py_sha256 env sql),
                  mg_sql = sql\<rparr>]))"

definition discover_migrations ::
  "pyenv \<Rightarrow> (string \<times> string) list \<Rightarrow> migration_error + migration list" where
  "discover_migrations env directory =
     bindR (foldR (discover_one env) (sort_key fst (filter (\<lambda>f. is_sql (fst f)) directory)) [])
       (\<lambda>migrations. if migrations = [] then Inl NoMigrations else Inr migrations)"

section \<open>Application\<close>

record migration_row =
  mw_version :: string
  mw_name :: string
  mw_checksum :: string

record 's schema_state =
  ss_schema :: 's
  ss_applied :: "migration_row list"

definition row_of :: "migration \<Rightarrow> migration_row" where
  "row_of m = \<lparr>mw_version = mg_version m, mw_name = mg_name m, mw_checksum = mg_checksum m\<rparr>"

text \<open>
  The loop over the local migrations. \<open>applied\<close> is the dictionary read before the loop. A failing
  script, or a version whose row exists already, rolls back its own transaction; what earlier ones have
  committed stays.
\<close>

fun apply_pending ::
  "(string \<Rightarrow> 's \<Rightarrow> 's option) \<Rightarrow> (string \<rightharpoonup> string) \<Rightarrow> migration list \<Rightarrow> 's schema_state
    \<Rightarrow> 's schema_state \<times> (migration_error + unit)" where
  "apply_pending run_sql applied [] st = (st, Inr ())"
| "apply_pending run_sql applied (m # ms) st =
     (case applied (mg_version m) of
        Some existing_checksum \<Rightarrow>
          if existing_checksum \<noteq> mg_checksum m then (st, Inl (ChecksumChanged (mg_version m)))
          else apply_pending run_sql applied ms st
      | None \<Rightarrow>
          (case run_sql (mg_sql m) (ss_schema st) of
             None \<Rightarrow> (st, Inl (SqlError (mg_version m)))
           | Some schema \<Rightarrow>
               if mg_version m \<in> set (map mw_version (ss_applied st))
               then (st, Inl (SqlError (mg_version m)))
               else apply_pending run_sql applied ms
                      \<lparr>ss_schema = schema, ss_applied = ss_applied st @ [row_of m]\<rparr>))"

definition applied_map :: "migration_row list \<Rightarrow> string \<rightharpoonup> string" where
  "applied_map rows = map_of (map (\<lambda>r. (mw_version r, mw_checksum r)) rows)"

definition apply_migrations ::
  "(string \<Rightarrow> 's \<Rightarrow> 's option) \<Rightarrow> migration list \<Rightarrow> 's schema_state
    \<Rightarrow> 's schema_state \<times> (migration_error + unit)" where
  "apply_migrations run_sql migrations st =
     (let local_versions = set (map mg_version migrations);
          unknown = filter (\<lambda>v. v \<notin> local_versions) (map mw_version (ss_applied st))
      in if unknown \<noteq> [] then (st, Inl (UnknownMigrations (sort unknown)))
         else apply_pending run_sql (applied_map (ss_applied st)) migrations st)"

section \<open>What discovery guarantees\<close>

lemma discover_one_Inr:
  assumes "discover_one env f ms = Inr ms'"
  obtains m where "ms' = ms @ [m]" "mg_sql m = snd f" "mg_version m \<notin> set (map mg_version ms)"
  using assms by (auto simp: discover_one_def Let_def split_beta split: if_splits)

lemma discover_loop:
  "foldR (discover_one env) fs ms = Inr ms' \<Longrightarrow> distinct (map mg_version ms) \<Longrightarrow>
    distinct (map mg_version ms') \<and> (\<exists>new. ms' = ms @ new \<and> map mg_sql new = map snd fs)"
proof (induction fs arbitrary: ms)
  case (Cons f fs)
  then obtain ms1 where 1: "discover_one env f ms = Inr ms1" "foldR (discover_one env) fs ms1 = Inr ms'"
    by (auto simp: res_simps)
  obtain m where m: "ms1 = ms @ [m]" "mg_sql m = snd f" "mg_version m \<notin> set (map mg_version ms)"
    by (rule discover_one_Inr[OF 1(1)])
  with Cons.IH[OF 1(2)] Cons.prems(2) show ?case by auto
qed simp

lemma discover_distinct: "discover_migrations env dir = Inr ms \<Longrightarrow> distinct (map mg_version ms) \<and> ms \<noteq> []"
  using discover_loop[of env "sort_key fst (filter (\<lambda>f. is_sql (fst f)) dir)" "[]"]
  by (auto simp: discover_migrations_def res_simps)

section \<open>What application guarantees\<close>

definition pending :: "(string \<rightharpoonup> string) \<Rightarrow> migration list \<Rightarrow> migration list" where
  "pending applied ms = filter (\<lambda>m. applied (mg_version m) = None) ms"

fun run_all :: "(string \<Rightarrow> 's \<Rightarrow> 's option) \<Rightarrow> migration list \<Rightarrow> 's \<Rightarrow> 's option" where
  "run_all run_sql [] s = Some s"
| "run_all run_sql (m # ms) s = Option.bind (run_sql (mg_sql m) s) (run_all run_sql ms)"

text \<open>The scripts that were run are the first ones of those pending, in order, each recorded.\<close>

lemma apply_pending_prefix:
  "apply_pending run applied ms st = (st', r) \<Longrightarrow>
    \<exists>k. ss_applied st' = ss_applied st @ map row_of (take k (pending applied ms))
      \<and> run_all run (take k (pending applied ms)) (ss_schema st) = Some (ss_schema st')
      \<and> (r = Inr () \<longrightarrow> take k (pending applied ms) = pending applied ms
          \<and> (\<forall>m\<in>set ms. \<forall>c. applied (mg_version m) = Some c \<longrightarrow> c = mg_checksum m))"
proof (induction ms arbitrary: st)
  case Nil
  then show ?case by (auto simp: pending_def intro: exI[of _ 0])
next
  case (Cons m ms)
  show ?case
  proof (cases "applied (mg_version m)")
    case (Some c)
    show ?thesis
    proof (cases "c = mg_checksum m")
      case True
      with Some Cons show ?thesis by (auto simp: pending_def)
    next
      case False
      with Some Cons.prems show ?thesis by (auto intro: exI[of _ 0])
    qed
  next
    case None
    show ?thesis
    proof (cases "run (mg_sql m) (ss_schema st)")
      case None': None
      with None Cons.prems show ?thesis by (auto intro: exI[of _ 0])
    next
      case (Some s)
      show ?thesis
      proof (cases "mg_version m \<in> set (map mw_version (ss_applied st))")
      case True
      with None Some Cons.prems show ?thesis by (auto intro: exI[of _ 0])
      next
      case False
      let ?st = "\<lparr>ss_schema = s, ss_applied = ss_applied st @ [row_of m]\<rparr>"
      have "apply_pending run applied ms ?st = (st', r)" using Cons.prems None Some False by simp
      from Cons.IH[OF this] obtain k where k:
        "ss_applied st' = ss_applied ?st @ map row_of (take k (pending applied ms))"
        "run_all run (take k (pending applied ms)) s = Some (ss_schema st')"
        "r = Inr () \<longrightarrow> take k (pending applied ms) = pending applied ms
          \<and> (\<forall>m\<in>set ms. \<forall>c. applied (mg_version m) = Some c \<longrightarrow> c = mg_checksum m)" by auto
      have "take (Suc k) (pending applied (m # ms)) = m # take k (pending applied ms)"
        using None by (simp add: pending_def)
      with k None Some show ?thesis by (intro exI[of _ "Suc k"]) (auto simp: pending_def)
      qed
    qed
  qed
qed


lemma run_all_append: "run_all run (ms @ ns) s = Option.bind (run_all run ms s) (run_all run ns)"
  by (induction ms arbitrary: s) (auto split: Option.bind_split)

lemma run_all_mono:
  assumes "\<And>q s s'. run1 q s = Some s' \<Longrightarrow> run2 q s = Some s'"
  shows "run_all run1 ms s = Some s' \<Longrightarrow> run_all run2 ms s = Some s'"
  by (induction ms arbitrary: s) (auto simp: bind_eq_Some_conv dest: assms)

lemma apply_pending_success:
  assumes "\<forall>m\<in>set ms. \<forall>c. applied (mg_version m) = Some c \<longrightarrow> c = mg_checksum m"
    and "run_all run (pending applied ms) (ss_schema st) = Some s'"
    and "distinct (map mg_version (pending applied ms))"
    and "\<forall>m\<in>set (pending applied ms). mg_version m \<notin> set (map mw_version (ss_applied st))"
  shows "apply_pending run applied ms st
    = (\<lparr>ss_schema = s', ss_applied = ss_applied st @ map row_of (pending applied ms)\<rparr>, Inr ())"
  using assms
proof (induction ms arbitrary: st)
  case (Cons m ms)
  show ?case
  proof (cases "applied (mg_version m)")
    case None
    with Cons.prems(2) obtain s where s: "run (mg_sql m) (ss_schema st) = Some s"
      "run_all run (pending applied ms) s = Some s'"
      by (auto simp: pending_def bind_eq_Some_conv)
    let ?st = "\<lparr>ss_schema = s, ss_applied = ss_applied st @ [row_of m]\<rparr>"
    have "apply_pending run applied ms ?st
      = (\<lparr>ss_schema = s', ss_applied = ss_applied ?st @ map row_of (pending applied ms)\<rparr>, Inr ())"
      by (rule Cons.IH) (use Cons.prems(1,3,4) s(2) None in \<open>auto simp: pending_def row_of_def image_iff\<close>)
    with None s(1) Cons.prems(4) show ?thesis by (simp add: pending_def)
  next
    case (Some c)
    with Cons.prems(1) have "c = mg_checksum m" by simp
    with Some Cons show ?thesis by (simp add: pending_def)
  qed
qed (simp add: pending_def)

lemma filter_not_taken:
  "distinct (map f xs) \<Longrightarrow> filter (\<lambda>x. f x \<notin> f ` set (take k xs)) xs = drop k xs"
proof (induction xs arbitrary: k)
  case (Cons x xs)
  show ?case
  proof (cases k)
    case (Suc n)
    have new: "f y \<noteq> f x" if "y \<in> set xs" for y using Cons.prems that by (auto simp: image_iff)
    have "filter (\<lambda>y. f y \<notin> f ` set (take k (x # xs))) (x # xs) = filter (\<lambda>y. f y \<notin> f ` set (take n xs)) xs"
      using new by (auto simp: Suc intro!: filter_cong)
    then show ?thesis using Cons by (simp add: Suc)
  qed simp
qed simp

lemma applied_map_rows:
  "distinct (map mg_version ms) \<Longrightarrow> m \<in> set ms \<Longrightarrow> applied_map (map row_of ms) (mg_version m) = Some (mg_checksum m)"
  "applied_map (map row_of ms) v = None \<longleftrightarrow> v \<notin> mg_version ` set ms"
proof -
  show "distinct (map mg_version ms) \<Longrightarrow> m \<in> set ms \<Longrightarrow> applied_map (map row_of ms) (mg_version m) = Some (mg_checksum m)"
    by (induction ms) (auto simp: applied_map_def row_of_def image_iff dest: sym)
  show "applied_map (map row_of ms) v = None \<longleftrightarrow> v \<notin> mg_version ` set ms"
    by (induction ms) (auto simp: applied_map_def row_of_def)
qed

lemma applied_map_append:
  "applied_map (rows @ rows') v = (case applied_map rows v of None \<Rightarrow> applied_map rows' v | Some c \<Rightarrow> Some c)"
  by (simp add: applied_map_def map_add_def split: option.split)

text \<open>
  A run that was interrupted can be taken up again: it ends in the state that an uninterrupted run
  reaches.
\<close>

lemma apply_migrations_resumes:
  assumes "distinct (map mg_version ms)" and "apply_migrations run1 ms st = (st1, r1)"
    and "\<And>q s s'. run1 q s = Some s' \<Longrightarrow> run2 q s = Some s'" and "apply_migrations run2 ms st = (st2, Inr ())"
  shows "apply_migrations run2 ms st1 = (st2, Inr ())"
proof -
  let ?a = "applied_map (ss_applied st)"
  let ?p = "pending ?a ms"
  have known: "filter (\<lambda>v. v \<notin> set (map mg_version ms)) (map mw_version (ss_applied st)) = []"
    and run2: "apply_pending run2 ?a ms st = (st2, Inr ())"
    using assms(4) by (auto simp: apply_migrations_def Let_def split: if_splits)
  then have "apply_pending run1 ?a ms st = (st1, r1)"
    using assms(2) unfolding apply_migrations_def Let_def by simp
  from apply_pending_prefix[OF this] obtain k where k: "ss_applied st1 = ss_applied st @ map row_of (take k ?p)"
    "run_all run1 (take k ?p) (ss_schema st) = Some (ss_schema st1)" by blast
  from apply_pending_prefix[OF run2] have checks: "\<forall>m\<in>set ms. \<forall>c. ?a (mg_version m) = Some c \<longrightarrow> c = mg_checksum m"
    and all: "run_all run2 ?p (ss_schema st) = Some (ss_schema st2)"
    and st2: "ss_applied st2 = ss_applied st @ map row_of ?p" by auto
  have rest: "run_all run2 (drop k ?p) (ss_schema st1) = Some (ss_schema st2)"
    using run_all_mono[OF assms(3) k(2)] all run_all_append[of run2 "take k ?p" "drop k ?p"] by simp
  have p: "distinct (map mg_version ?p)" "set ?p \<subseteq> set ms"
    using assms(1) by (auto simp: pending_def distinct_map_filter)
  let ?a1 = "applied_map (ss_applied st1)"
  have a1: "?a1 v = (case ?a v of None \<Rightarrow> applied_map (map row_of (take k ?p)) v | Some c \<Rightarrow> Some c)" for v
    by (simp add: k(1) applied_map_append)
  have "pending ?a1 ms = filter (\<lambda>m. mg_version m \<notin> mg_version ` set (take k ?p)) ?p"
    by (auto simp: pending_def a1 applied_map_rows(2) intro!: filter_cong split: option.split)
  then have p1: "pending ?a1 ms = drop k ?p" using filter_not_taken[OF p(1)] by simp
  have checks1: "\<forall>m\<in>set ms. \<forall>c. ?a1 (mg_version m) = Some c \<longrightarrow> c = mg_checksum m"
  proof (intro ballI allI impI)
    fix m c assume m: "m \<in> set ms" and c: "?a1 (mg_version m) = Some c"
    show "c = mg_checksum m"
    proof (cases "?a (mg_version m)")
      case None
      with c have "applied_map (map row_of (take k ?p)) (mg_version m) = Some c" by (simp add: a1)
      then obtain m' where m': "m' \<in> set (take k ?p)" "mg_version m' = mg_version m"
        using applied_map_rows(2)[of "take k ?p" "mg_version m"] by (metis imageE option.distinct(1))
      then have "m' = m" using m p(2) assms(1) by (metis distinct_map in_set_takeD inj_onD subsetD)
      with m'(1) \<open>applied_map (map row_of (take k ?p)) (mg_version m) = Some c\<close> p(1)
        applied_map_rows(1)[of "take k ?p" m] show ?thesis
        by (simp add: take_map[symmetric])
    next
      case (Some c')
      with c checks m show ?thesis by (simp add: a1)
    qed
  qed
  have "applied_map rows v = None \<longleftrightarrow> v \<notin> mw_version ` set rows" for rows v
    by (induction rows) (auto simp: applied_map_def)
  then have absent: "\<forall>m\<in>set (pending ?a1 ms). mg_version m \<notin> set (map mw_version (ss_applied st1))"
    by (simp add: pending_def)
  have "filter (\<lambda>v. v \<notin> set (map mg_version ms)) (map mw_version (ss_applied st1)) = []"
    using known p(2) by (auto simp: k(1) row_of_def filter_empty_conv dest: in_set_takeD)
  then have "apply_migrations run2 ms st1 = apply_pending run2 ?a1 ms st1"
    unfolding apply_migrations_def Let_def by simp
  also have "\<dots> = (\<lparr>ss_schema = ss_schema st2, ss_applied = ss_applied st1 @ map row_of (drop k ?p)\<rparr>, Inr ())"
    using apply_pending_success[OF checks1, unfolded p1, OF rest] p(1) absent[unfolded p1]
    by (simp add: drop_map[symmetric])
  also have "ss_applied st1 @ map row_of (drop k ?p) = ss_applied st2"
    by (simp add: k(1) st2 map_append[symmetric] del: map_append)
  finally show ?thesis by simp
qed

end
