(* ===== verification/Metrics.thy ===== *)
theory Metrics
  imports Py_Strings Serialization "HOL-Library.AList"
begin

text \<open>
  \<^verbatim>\<open>engine/observability.py\<close>: the registry of counters and histograms and its text format. Floating-point
  addition and the format \<^verbatim>\<open>:g\<close> are parameters. Logging is not modelled.
\<close>

datatype metrics_error = InvalidMetricName string | NegativeIncrement

type_synonym labels = "(string \<times> string) list"
type_synonym metric_key = "string \<times> labels"

record histogram =
  hg_count :: int
  hg_total :: rat
  hg_buckets :: "int list"

record metrics_registry =
  mx_counters :: "(metric_key \<times> rat) list"
  mx_histograms :: "(metric_key \<times> histogram) list"

definition new_registry :: metrics_registry where
  "new_registry = \<lparr>mx_counters = [], mx_histograms = []\<rparr>"

definition metric_name_char :: "char \<Rightarrow> bool" where
  "metric_name_char c \<longleftrightarrow> is_digit c \<or> c = CHR ''_'' \<or> c = CHR '':''
     \<or> (CHR ''a'' \<le> c \<and> c \<le> CHR ''z'') \<or> (CHR ''A'' \<le> c \<and> c \<le> CHR ''Z'')"

definition validate_metric_name :: "string \<Rightarrow> metrics_error + unit" where
  "validate_metric_name v =
     (if v = [] \<or> \<not> list_all metric_name_char v then Inl (InvalidMetricName v) else Inr ())"

text \<open>The boundaries are the floats that the literals denote.\<close>

definition HISTOGRAM_BUCKETS :: "pyenv \<Rightarrow> rat list" where
  "HISTOGRAM_BUCKETS env =
     map (py_round env) [5 / 1000, 1 / 100, 25 / 1000, 5 / 100, 1 / 10, 25 / 100, 5 / 10, 1, 25 / 10, 5]"

definition metric_key_of :: "string \<Rightarrow> labels \<Rightarrow> metric_key" where
  "metric_key_of name labels = (name, sort_key fst labels)"

definition increment ::
  "(rat \<Rightarrow> rat \<Rightarrow> rat) \<Rightarrow> string \<Rightarrow> labels \<Rightarrow> rat \<Rightarrow> metrics_registry \<Rightarrow> metrics_error + metrics_registry" where
  "increment fadd name labels v r =
     bindR (validate_metric_name name) (\<lambda>_.
       if v < 0 then Inl NegativeIncrement
       else
         let key = metric_key_of name labels;
             old = (case map_of (mx_counters r) key of None \<Rightarrow> 0 | Some c \<Rightarrow> c)
         in Inr (r\<lparr>mx_counters := AList.update key (fadd old v) (mx_counters r)\<rparr>))"

definition empty_histogram :: "pyenv \<Rightarrow> histogram" where
  "empty_histogram env =
     \<lparr>hg_count = 0, hg_total = 0, hg_buckets = replicate (length (HISTOGRAM_BUCKETS env)) 0\<rparr>"

definition observe_value :: "pyenv \<Rightarrow> (rat \<Rightarrow> rat \<Rightarrow> rat) \<Rightarrow> rat \<Rightarrow> histogram \<Rightarrow> histogram" where
  "observe_value env fadd v h =
     \<lparr>hg_count = hg_count h + 1, hg_total = fadd (hg_total h) v,
      hg_buckets = map2 (\<lambda>boundary n. if v \<le> boundary then n + 1 else n) (HISTOGRAM_BUCKETS env) (hg_buckets h)\<rparr>"

definition observe ::
  "pyenv \<Rightarrow> (rat \<Rightarrow> rat \<Rightarrow> rat) \<Rightarrow> string \<Rightarrow> rat \<Rightarrow> labels \<Rightarrow> metrics_registry \<Rightarrow> metrics_error + metrics_registry" where
  "observe env fadd name v labels r =
     bindR (validate_metric_name name) (\<lambda>_.
       let key = metric_key_of name labels;
           old = (case map_of (mx_histograms r) key of None \<Rightarrow> empty_histogram env | Some h \<Rightarrow> h)
       in Inr (r\<lparr>mx_histograms := AList.update key (observe_value env fadd v old) (mx_histograms r)\<rparr>))"

section \<open>Text format\<close>

text \<open>\<^verbatim>\<open>value.replace(chr(92), chr(92) * 2).replace(chr(34), chr(92) + chr(34))\<close>.\<close>

definition escape_label :: "string \<Rightarrow> string" where
  "escape_label s = concat (map (\<lambda>c. if c = CHR 0x5C then [CHR 0x5C, CHR 0x5C]
     else if c = CHR 0x22 then [CHR 0x5C, CHR 0x22] else [c]) s)"

definition label_text :: "string \<times> string \<Rightarrow> string" where
  "label_text kv = fst kv @ [CHR ''='', CHR 0x22] @ escape_label (snd kv) @ [CHR 0x22]"

fun join_with :: "string \<Rightarrow> string list \<Rightarrow> string" where
  "join_with sep [] = []"
| "join_with sep [s] = s"
| "join_with sep (s # ss) = s @ sep @ join_with sep ss"

definition render_labels :: "labels \<Rightarrow> string" where
  "render_labels ls =
     (if ls = [] then [] else ''{'' @ join_with '','' (map label_text ls) @ ''}'')"

definition type_line :: "string \<Rightarrow> string \<Rightarrow> string" where
  "type_line name kind = ''# TYPE '' @ name @ '' '' @ kind"

definition counter_line :: "(rat \<Rightarrow> string) \<Rightarrow> metric_key \<times> rat \<Rightarrow> string" where
  "counter_line fmt = (\<lambda>((name, ls), v). name @ render_labels ls @ '' '' @ fmt v)"

definition histogram_lines ::
  "pyenv \<Rightarrow> (rat \<Rightarrow> string) \<Rightarrow> metric_key \<times> histogram \<Rightarrow> string list" where
  "histogram_lines env fmt = (\<lambda>((name, ls), h).
     map2 (\<lambda>boundary n. name @ ''_bucket'' @ render_labels (sort_key fst (ls @ [(''le'', fmt boundary)]))
             @ '' '' @ int_str n) (HISTOGRAM_BUCKETS env) (hg_buckets h)
     @ [name @ ''_bucket'' @ render_labels (sort_key fst (ls @ [(''le'', ''+Inf'')])) @ '' '' @ int_str (hg_count h),
        name @ ''_sum'' @ render_labels ls @ '' '' @ fmt (hg_total h),
        name @ ''_count'' @ render_labels ls @ '' '' @ int_str (hg_count h)])"

text \<open>The loop over one family of metrics: the type of a name is declared once.\<close>

fun render_family ::
  "string \<Rightarrow> (metric_key \<times> 'v \<Rightarrow> string list) \<Rightarrow> (metric_key \<times> 'v) list \<Rightarrow> string list \<Rightarrow> string list \<times> string list" where
  "render_family kind lines [] declared = ([], declared)"
| "render_family kind lines (m # ms) declared =
     (let name = fst (fst m);
          (header, declared) = (if name \<in> set declared then ([], declared)
                                else ([type_line name kind], name # declared));
          (rest, declared) = render_family kind lines ms declared
      in (header @ lines m @ rest, declared))"

fun render_gauges :: "(rat \<Rightarrow> string) \<Rightarrow> (string \<times> rat) list \<Rightarrow> metrics_error + string list" where
  "render_gauges fmt [] = Inr []"
| "render_gauges fmt ((name, v) # gs) =
     bindR (validate_metric_name name) (\<lambda>_. bindR (render_gauges fmt gs) (\<lambda>rest.
       Inr (type_line name ''gauge'' # (name @ '' '' @ fmt v) # rest)))"

definition render ::
  "pyenv \<Rightarrow> (rat \<Rightarrow> string) \<Rightarrow> (string \<times> rat) list \<Rightarrow> metrics_registry \<Rightarrow> metrics_error + string" where
  "render env fmt gauges r =
     (let (counter_lines, declared) =
            render_family ''counter'' (\<lambda>m. [counter_line fmt m]) (sort_key fst (mx_counters r)) [];
          (histogram_part, declared) =
            render_family ''histogram'' (histogram_lines env fmt) (sort_key fst (mx_histograms r)) declared
      in bindR (render_gauges fmt (sort_key fst gauges)) (\<lambda>gauge_lines.
           Inr (join_with [CHR 0x0A] (counter_lines @ histogram_part @ gauge_lines) @ [CHR 0x0A])))"

section \<open>A histogram counts its observations\<close>

lemma observe_values:
  "fold (observe_value env fadd) vs h =
    \<lparr>hg_count = hg_count h + int (length vs), hg_total = foldl fadd (hg_total h) vs,
     hg_buckets = (if vs = [] then hg_buckets h else
       map2 (\<lambda>b n. n + int (length (filter (\<lambda>v. v \<le> b) vs))) (HISTOGRAM_BUCKETS env) (hg_buckets h))\<rparr>"
proof (induction vs arbitrary: h)
  case (Cons v vs)
  have two: "map2 f bs (map2 g bs ns) = map2 (\<lambda>b n. f b (g b n)) bs ns" for f g bs and ns :: "int list"
    by (induction bs ns rule: list_induct2') auto
  show ?case unfolding fold_simps Cons
    by (cases "vs = []") (auto simp: observe_value_def two intro!: map_cong)
qed simp

end
