(* ===== verification/Client.thy ===== *)
theory Client
  imports System Queries Definitions
begin

text \<open>
  \<^verbatim>\<open>engine/client.py\<close>: the client of an embedding program. It polls the database: \<open>st i\<close> is the state that
  the poll number \<open>i\<close> reads. A wait with a timeout makes a bounded number of polls; \<open>None\<close> is that
  it has not returned by then.
\<close>

datatype client_error =
    BadPollInterval
  | WorkflowNotFound
  | WorkflowClosed execution_row
  | UpdateNotFound
  | UpdateRejected update_row

section \<open>Workflow handles\<close>

definition describe :: "uuid \<Rightarrow> db \<Rightarrow> client_error + execution_row" where
  "describe w d = (case get_execution w d of None \<Rightarrow> Inl WorkflowNotFound | Some e \<Rightarrow> Inr e)"

record workflow_snapshot =
  sn_execution :: execution_row
  sn_history :: "history_record list"

text \<open>Two queries, of two states.\<close>

definition snapshot :: "uuid \<Rightarrow> db \<Rightarrow> db \<Rightarrow> client_error + workflow_snapshot" where
  "snapshot w d d' =
     bindR (describe w d) (\<lambda>e. Inr \<lparr>sn_execution = e, sn_history = get_history w d'\<rparr>)"

definition handle_query ::
  "(workflow_snapshot \<Rightarrow> 'q) \<Rightarrow> uuid \<Rightarrow> db \<Rightarrow> db \<Rightarrow> client_error + 'q" where
  "handle_query projection w d d' = bindR (snapshot w d d') (\<lambda>s. Inr (projection s))"

definition handle_signal :: "tx \<Rightarrow> uuid \<Rightarrow> string \<Rightarrow> json \<Rightarrow> string \<Rightarrow> bool txn" where
  "handle_signal x w name payload signal_id = send_signal x w signal_id name payload None"

definition handle_update :: "tx \<Rightarrow> uuid \<Rightarrow> string \<Rightarrow> json \<Rightarrow> string \<Rightarrow> (uuid \<times> string) txn" where
  "handle_update x w name payload update_id d =
     bindR (send_update x w update_id name payload None d) (\<lambda>(d, r). Inr (d, (w, update_id)))"

definition handle_cancel :: "tx \<Rightarrow> uuid \<Rightarrow> string option \<Rightarrow> bool txn" where
  "handle_cancel x w reason = request_workflow_cancellation x w reason None"

definition handle_terminate :: "nat \<Rightarrow> tx \<Rightarrow> uuid \<Rightarrow> string option \<Rightarrow> bool txn" where
  "handle_terminate depth x w reason = terminate_workflow depth x w reason None"

definition client_start ::
  "pyenv \<Rightarrow> tx \<Rightarrow> workflow_definition \<Rightarrow> json \<Rightarrow> string \<Rightarrow> dict \<Rightarrow> uuid option \<Rightarrow> uuid txn" where
  "client_start env x def input queue_name search_attributes workflow_id =
     start_workflow env x (df_name def) (df_version def) input queue_name workflow_id
       search_attributes None None"

text \<open>The loop of \<^verbatim>\<open>result\<close>: \<open>n\<close> polls, the next one reads \<open>st i\<close>.\<close>

fun wait_result :: "nat \<Rightarrow> (nat \<Rightarrow> db) \<Rightarrow> uuid \<Rightarrow> nat \<Rightarrow> (client_error + json) option" where
  "wait_result 0 st w i = None"
| "wait_result (Suc n) st w i =
     (case describe w (st i) of
        Inl e \<Rightarrow> Some (Inl e)
      | Inr e \<Rightarrow>
          if ex_status e = WfCompleted then Some (Inr (opt_json id (ex_result e)))
          else if ex_status e \<in> {WfFailed, WfTerminated} then Some (Inl (WorkflowClosed e))
          else wait_result n st w (i + 1))"

definition handle_result ::
  "nat \<Rightarrow> (nat \<Rightarrow> db) \<Rightarrow> uuid \<Rightarrow> rat \<Rightarrow> (client_error + json) option" where
  "handle_result n st w poll_interval =
     (if poll_interval \<le> 0 then Some (Inl BadPollInterval) else wait_result n st w 0)"

section \<open>Update handles\<close>

definition describe_update :: "uuid \<Rightarrow> string \<Rightarrow> db \<Rightarrow> client_error + update_row" where
  "describe_update w update_id d =
     (case get_update d w update_id of None \<Rightarrow> Inl UpdateNotFound | Some u \<Rightarrow> Inr u)"

fun wait_update ::
  "nat \<Rightarrow> (nat \<Rightarrow> db) \<Rightarrow> uuid \<Rightarrow> string \<Rightarrow> nat \<Rightarrow> (client_error + json) option" where
  "wait_update 0 st w update_id i = None"
| "wait_update (Suc n) st w update_id i =
     (case describe_update w update_id (st i) of
        Inl e \<Rightarrow> Some (Inl e)
      | Inr u \<Rightarrow>
          if up_status u = UpCompleted then Some (Inr (opt_json id (up_result u)))
          else if up_status u = UpRejected then Some (Inl (UpdateRejected u))
          else wait_update n st w update_id (i + 1))"

definition update_result ::
  "nat \<Rightarrow> (nat \<Rightarrow> db) \<Rightarrow> uuid \<Rightarrow> string \<Rightarrow> rat \<Rightarrow> (client_error + json) option" where
  "update_result n st w update_id poll_interval =
     (if poll_interval \<le> 0 then Some (Inl BadPollInterval) else wait_update n st w update_id 0)"

section \<open>A closed workflow is reported\<close>

definition outcome_of :: "execution_row \<Rightarrow> (client_error + json) \<Rightarrow> bool" where
  "outcome_of e out \<longleftrightarrow>
     (case out of
        Inr v \<Rightarrow> ex_status e = WfCompleted \<and> v = opt_json id (ex_result e)
      | Inl err \<Rightarrow> \<exists>e'. err = WorkflowClosed e' \<and> ex_status e \<in> {WfFailed, WfTerminated}
          \<and> ex_status e' = ex_status e \<and> ex_failure e' = ex_failure e)"

text \<open>
  The states of the polls follow each other by steps of the engine. Once the workflow is closed in
  one of them its status and results are those of every later one.
\<close>

lemma polls_progress:
  assumes "reachable (st 0)" and "\<And>i. step\<^sup>*\<^sup>* (st i) (st (Suc i))" and "i \<le> j"
  shows "reachable (st i)" and "step\<^sup>*\<^sup>* (st i) (st j)"
proof -
  have steps: "step\<^sup>*\<^sup>* (st i) (st (i + n))" for i n
    by (induction n) (use assms(2) in \<open>auto intro: rtranclp_trans\<close>)
  from steps[of i "j - i"] assms(3) show "step\<^sup>*\<^sup>* (st i) (st j)" by simp
  show "reachable (st i)" using reachable_steps[OF steps[of 0 i]] assms(1) by simp
qed


lemma wait_result_closed:
  assumes "reachable (st 0)" and "\<And>i. step\<^sup>*\<^sup>* (st i) (st (Suc i))"
    and "find_execution (st 0) w = Some e0" and "find_execution (st k) w = Some e" and "ex_status e \<noteq> WfRunning"
  shows "i \<le> k \<Longrightarrow> k < i + n \<Longrightarrow> \<exists>out. wait_result n st w i = Some out \<and> outcome_of e out"
proof (induction n arbitrary: i)
  case (Suc n)
  note reach = polls_progress[of st, OF assms(1,2)]
  obtain ei where ei: "find_execution (st i) w = Some ei"
    using execution_stays[OF assms(1,3) reach(2)[of 0 i]] by auto
  show ?case
  proof (cases "ex_status ei = WfRunning")
    case False
    have "ex_status e = ex_status ei \<and> ex_result e = ex_result ei \<and> ex_failure e = ex_failure ei"
      using closed_stays(2)[OF reach(1) ei False reach(2)[OF Suc.prems(1)]] assms(4) by auto
    then show ?thesis using ei False
      by (cases "ex_status ei") (auto simp: describe_def get_execution_def outcome_of_def)
  next
    case True
    with ei assms(4,5) have "i \<noteq> k" by auto
    then have "\<exists>out. wait_result n st w (i + 1) = Some out \<and> outcome_of e out"
      using Suc.IH[of "i + 1"] Suc.prems by simp
    with True ei show ?thesis by (simp add: describe_def get_execution_def)
  qed
qed simp

end
