(* ===== verification/Service_Properties.thy ===== *)
theory Service_Properties
  imports Schedule_Properties Queries Security Workers Replay_Check Replay_Debugger Migrations Metrics Client
begin

text \<open>
  The properties of what surrounds the engine: queries, the replay tools, the workers and the
  security layer.
\<close>

section \<open>Queries\<close>

lemma filter_above:
  "map f xs = [k..m] \<Longrightarrow> k \<le> a + 1 \<Longrightarrow> filter (\<lambda>x. a < f x) xs = drop (nat (a + 1 - k)) xs"
proof (induction xs arbitrary: k)
  case (Cons x xs)
  then have k: "k \<le> m" "f x = k" "map f xs = [k + 1..m]" by (auto simp: upto.simps[of k m] split: if_splits)
  show ?case
  proof (cases "a < k")
    case True
    then have "a + 1 = k" using Cons.prems(2) by simp
    moreover have "a < f y" if "y \<in> set xs" for y
    proof -
      have "f y \<in> set [k + 1..m]" unfolding k(3)[symmetric] using that by simp
      then show ?thesis using True by simp
    qed
    ultimately show ?thesis using k by simp
  next
    case False
    then have "nat (a + 1 - k) = Suc (nat (a + 1 - (k + 1)))" by simp
    with False Cons.IH[OF k(3)] k(2) show ?thesis by simp
  qed
qed simp

lemma numbered_sort: "map f xs = [1..m] \<Longrightarrow> sort_key f (drop n xs) = drop n xs"
  by (rule sort_key_id_if_sorted) (simp add: drop_map[symmetric] sorted_wrt_drop)

lemma last_page_entry:
  assumes "map f xs = [1..m]" and "0 \<le> a" and "1 \<le> l" and "a + l \<le> m"
  shows "f (last (take (nat l) (drop (nat a) xs))) = a + l"
proof -
  have len: "length xs = nat m" using arg_cong[OF assms(1), of length] by simp
  have n: "nat a + nat l \<le> length xs" "0 < nat l" using assms(2-4) len by auto
  then have "last (take (nat l) (drop (nat a) xs)) = xs ! (nat a + (nat l - 1))"
    by (subst last_conv_nth) (auto simp: min_absorb2)
  moreover have "f (xs ! (nat a + (nat l - 1))) = [1..m] ! (nat a + (nat l - 1))"
    unfolding assms(1)[symmetric] using n by (subst nth_map) auto
  moreover have "[1..m] ! (nat a + (nat l - 1)) = a + l" using assms(2-4) by (subst nth_upto) auto
  ultimately show ?thesis by simp
qed

text \<open>
  C26. Reading a history page by page is exact: the page after event number \<open>a\<close> holds the next
  \<open>limit\<close> events of the history, and the cursor it returns is the number of its last event, or none
  when the page reaches the end of the history.
\<close>

theorem history_page_is_slice:
  assumes "reachable d" and "find_execution d w = Some e" and "0 \<le> a" and "1 \<le> l" and "l \<le> 1000"
  shows "get_history_page w a l d =
    Inr \<lparr>pg_items = take (nat l) (drop (nat a) (get_history w d)),
         pg_next_after_seq = (if a + l < ex_next_seq e - 1 then Some (a + l) else None)\<rparr>"
proof -
  let ?h = "workflow_history d w"
  let ?n = "ex_next_seq e - 1"
  note seqs = committed_sequence[OF reachable_committed[OF assms(1)] assms(2)]
  have "filter (\<lambda>r. hr_workflow_id r = w \<and> a < hr_seq r) (db_history d) = filter (\<lambda>r. a < hr_seq r) ?h"
    by (auto simp: workflow_history_def intro: filter_cong)
  also have "\<dots> = drop (nat a) ?h" using filter_above[OF seqs(1), of a] assms(3) by simp
  finally have rows: "select_limit (l + 1) (\<lambda>r. hr_workflow_id r = w \<and> a < hr_seq r) hr_seq (db_history d)
      = take (nat (l + 1)) (drop (nat a) ?h)"
    by (simp add: select_limit_def numbered_sort[OF seqs(1)])
  have hist: "get_history w d = map history_record_of ?h"
    using numbered_sort[OF seqs(1), of 0] by (simp add: get_history_def workflow_history_def)
  have len: "int (length ?h) = ?n" by (rule seqs(2))
  define page where "page = take (nat l) (drop (nat a) ?h)"
  define rows' where "rows' = take (nat (l + 1)) (drop (nat a) ?h)"
  have more: "int (length rows') > l \<longleftrightarrow> a + l < ?n"
    using len assms(3,4) by (auto simp: rows'_def min_def)
  have nonempty: "page \<noteq> []" if "a + l < ?n"
    using that len assms(3,4) by (auto simp: page_def)
  have last: "hr_seq (last page) = a + l" if "a + l < ?n" unfolding page_def
    by (rule last_page_entry[OF seqs(1)]) (use that assms(3,4) in auto)
  have cut: "take (nat l) rows' = page" using assms(4) by (simp add: rows'_def page_def min_def)
  have rc: "rc_seq (history_record_of r) = hr_seq r" for r by (simp add: history_record_of_def)
  have "get_history_page w a l d = Inr \<lparr>pg_items = map history_record_of page,
      pg_next_after_seq = (if a + l < ?n then Some (a + l) else None)\<rparr>"
    unfolding get_history_page_def Let_def rows rows'_def[symmetric] more cut
    using assms(3-5) nonempty last by (simp add: last_map rc)
  then show ?thesis by (simp add: hist page_def take_map drop_map)
qed

theorem history_page_is_slice_witness:
  "map_sum id pg_next_after_seq (get_history_page 1 2 2 sample_terminated) = Inr (Some 4)"
proof -
  have "map_option ex_next_seq (find_execution sample_terminated 1) = Some 6" by code_simp
  then obtain e where e: "find_execution sample_terminated 1 = Some e" "ex_next_seq e = 6" by auto
  from history_page_is_slice[OF sample_reachable(6) e(1), of 2 2] e(2) show ?thesis by simp
qed

section \<open>Replay tools\<close>

text \<open>
  Comparing two histories reports compatibility exactly when their command streams agree
  entry by entry in type, ordinal and fingerprint; otherwise the reported number of matching commands
  is the length of the longest common prefix of the two streams.
\<close>

lemma comparison_finds_common_prefix:
  "(hc_compatible (compare_command_histories left right) \<longleftrightarrow>
      map command_signature (command_events left) = map command_signature (command_events right))
   \<and> hc_matched_commands (compare_command_histories left right) =
      int (length (longest_common_prefix (map command_signature (command_events left))
        (map command_signature (command_events right))))"
  using compare_compatible compare_matched by blast

text \<open>
  Every frame of the debugger accounts for every command that has been recorded up to it: it
  is waiting, has succeeded or has failed, provided that entities are scheduled under ids of their own.
\<close>

lemma debugger_accounts_for_commands:
  assumes "\<forall>ev\<in>set evs. schedule_kind (ev_type ev) \<noteq> None \<longrightarrow> ev_entity_id ev \<noteq> None"
    and "distinct (List.map_filter scheduled_entity evs)" and "fr \<in> set (build_replay_trace evs)"
  shows "sn_commands (fr_snapshot fr) = sn_waiting_entities (fr_snapshot fr)
    + sn_succeeded_entities (fr_snapshot fr) + sn_failed_entities (fr_snapshot fr)"
proof (rule trace_loop_balanced[OF _ _ assms(2) _ assms(3)[unfolded build_replay_trace_def]])
  show "trace_balanced empty_trace" by (simp add: trace_balanced_def empty_trace_def)
  show "\<forall>ev\<in>set evs. scheduled_entity ev \<noteq> None \<or> schedule_kind (ev_type ev) = None"
    using assms(1) by (auto simp: scheduled_entity_def)
qed (simp add: empty_trace_def)

text \<open>
  A replay check calls a candidate definition compatible exactly when it has the type of the
  stored execution, replaying it on the stored history neither diverges nor fails, and, for an
  execution that completed or failed, replay ends in the same way with an equal value.
\<close>

lemma replay_check_compatible_iff:
  "(\<exists>r. replay_check env w def d = Inr r \<and> rp_compatible r) \<longleftrightarrow>
    (\<exists>e rr. find_execution d w = Some e \<and> df_name def = ex_workflow_type e
      \<and> replay_workflow env (pf_body (df_function def)) w (ex_input e)
          (map history_event_from_row (sort_key hr_seq (workflow_history d w))) = Inr rr
      \<and> (case ex_status e of
           WfCompleted \<Rightarrow> rr_status rr = COMPLETED \<and> (\<exists>v. ex_result e = Some v \<and> py_equal (rr_result rr) v)
         | WfFailed \<Rightarrow> rr_status rr = FAILED \<and> (\<exists>v. ex_failure e = Some v \<and> py_equal (rr_failure rr) v)
         | _ \<Rightarrow> True))"
  unfolding replay_check_compatible check_outcome_None ..

section \<open>Attempts\<close>

lemma dget_jsonb: "distinct (map fst xs) \<Longrightarrow> dget (jsonb_object xs) k = clone_json (dget xs k)"
  by (simp add: dget_def map_of_jsonb_object split: option.split)

lemma fail_activity_cases:
  assumes "fail_activity env x task failure rv d = Inr (d', final)"
    and "recorded_policy (lt_input task) = Inr policy"
    and "policy_attempts (dget policy ''max_attempts'') = Inr n"
  obtains delay and e :: execution_row and locked :: task_row and nva d1 d2 where "final \<longleftrightarrow> n \<le> lt_attempt task"
    and "list_ex (owned task) (db_tasks d)"
    and "\<not> final \<Longrightarrow> retry_delay env policy (lt_attempt task)
      (case rv of None \<Rightarrow> tx_random x | Some r \<Rightarrow> r) = Inr delay"
    and "insert_event x (lt_workflow_id task) (ex_next_seq e) ActivityFailed None (lt_entity_id task) None
      ((''attempt'', JInt (lt_attempt task)) # (''failure'', clone_json failure) # (''final'', JBool final) # [(''next_visible_at'', nva)]) d
      = Inr d1"
    and "(if final then insert_workflow_task x (tx_uuid x 0) (lt_workflow_id task) (tk_queue_name locked)
       else insert_task (retry_task x (tx_uuid x 0) (lt_workflow_id task) (lt_entity_id task)
         (lt_command_id task) (lt_attempt task + 1) (tx_clock x 0 + delay) locked))
      (update_tasks (owned task) (finish_task x (if final then TkDead else TkCompleted)) d1) = Inr d2"
    and "d' = set_next_seq (lt_workflow_id task) (ex_next_seq e + 1) d2"
proof -
  define delay where "delay = (if n \<le> lt_attempt task then Inr 0
    else retry_delay env policy (lt_attempt task) (case rv of None \<Rightarrow> tx_random x | Some r \<Rightarrow> r))"
  obtain v where v: "delay = Inr v"
    using assms by (cases delay) (auto simp: fail_activity_def Let_def delay_def[symmetric] split: if_splits)
  have r: "\<not> n \<le> lt_attempt task \<Longrightarrow> retry_delay env policy (lt_attempt task)
      (case rv of None \<Rightarrow> tx_random x | Some r \<Rightarrow> r) = Inr v"
    using v by (simp add: delay_def)
  let ?fin = "n \<le> lt_attempt task"
  let ?attrs = "[(''attempt'', JInt (lt_attempt task)), (''failure'', clone_json failure), (''final'', JBool ?fin),
    (''next_visible_at'', if ?fin then JNull else JStr (py_isoformat env (tx_clock x 0 + v)))]"
  note unfolded = assms(1)[unfolded fail_activity_def assms(2) bindR_simps assms(3) Let_def
      delay_def[symmetric] v]
  obtain locked where locked: "List.find (activity_live x task) (db_tasks d) = Some locked"
    using unfolded by (auto split: if_splits option.splits)
  obtain e where e: "find_execution d (lt_workflow_id task) = Some e"
    using unfolded by (auto simp: locked split: if_splits option.splits)
  have "bindR (insert_event x (lt_workflow_id task) (ex_next_seq e) ActivityFailed None (lt_entity_id task) None
        ?attrs d) (\<lambda>d.
      bindR ((if ?fin then insert_workflow_task x (tx_uuid x 0) (lt_workflow_id task) (tk_queue_name locked)
         else insert_task (retry_task x (tx_uuid x 0) (lt_workflow_id task) (lt_entity_id task)
           (lt_command_id task) (lt_attempt task + 1) (tx_clock x 0 + v) locked))
        (update_tasks (owned task) (finish_task x (if ?fin then TkDead else TkCompleted)) d))
      (\<lambda>d. Inr (set_next_seq (lt_workflow_id task) (ex_next_seq e + 1) d, ?fin))) = Inr (d', final)"
    using unfolded unfolding locked e option.case by (metis Inl_Inr_False)
  then obtain d1 d2 where f: "final = ?fin"
    and 1: "insert_event x (lt_workflow_id task) (ex_next_seq e) ActivityFailed None (lt_entity_id task) None
      ?attrs d = Inr d1"
    and 2: "(if ?fin then insert_workflow_task x (tx_uuid x 0) (lt_workflow_id task) (tk_queue_name locked)
       else insert_task (retry_task x (tx_uuid x 0) (lt_workflow_id task) (lt_entity_id task)
         (lt_command_id task) (lt_attempt task + 1) (tx_clock x 0 + v) locked))
      (update_tasks (owned task) (finish_task x (if ?fin then TkDead else TkCompleted)) d1) = Inr d2"
    and 3: "d' = set_next_seq (lt_workflow_id task) (ex_next_seq e + 1) d2"
    unfolding bindR_Inr_iff by blast
  have "locked \<in> set (db_tasks d)" "activity_live x task locked" using locked by (auto simp: find_Some_iff)
  then have "list_ex (owned task) (db_tasks d)"
    unfolding list_ex_iff by (auto simp: activity_live_def holds_lease_def owned_def)
  then show ?thesis using that[OF f _ _ 1[folded f] 2[folded f] 3] r[folded f] by blast
qed

text \<open>
  C14. A failed activity attempt is retried or reported, never both and never neither: the attempt's
  task is ended, the failure is recorded, and the one task that is created is the next attempt of the
  same activity, delayed by the backoff of the recorded policy, as long as the policy leaves an
  attempt; otherwise it is a workflow task and the failure is marked final.
\<close>

theorem failed_attempt_retried_or_reported:
  assumes "fail_activity env x task failure rv d = Inr (d', final)"
    and "recorded_policy (lt_input task) = Inr policy"
    and "policy_attempts (dget policy ''max_attempts'') = Inr n"
  shows "(final \<longleftrightarrow> n \<le> lt_attempt task)
    \<and> hr_event_type (last (db_history d')) = ActivityFailed
    \<and> dget (hr_attributes (last (db_history d'))) ''final'' = JBool final
    \<and> length (db_tasks d') = length (db_tasks d) + 1
    \<and> list_ex (owned task) (db_tasks d)
    \<and> butlast (db_tasks d') = map (\<lambda>t. if owned task t then finish_task x (if final then TkDead else TkCompleted) t
          else t) (db_tasks d)
    \<and> tk_status (last (db_tasks d')) = TkPending \<and> tk_workflow_id (last (db_tasks d')) = lt_workflow_id task
    \<and> (if final then tk_task_type (last (db_tasks d')) = WorkflowTask
       else tk_task_type (last (db_tasks d')) = ActivityTask
         \<and> tk_entity_id (last (db_tasks d')) = lt_entity_id task
         \<and> tk_attempt (last (db_tasks d')) = lt_attempt task + 1
         \<and> (\<exists>delay. retry_delay env policy (lt_attempt task) (case rv of None \<Rightarrow> tx_random x | Some r \<Rightarrow> r) = Inr delay
             \<and> tk_visible_at (last (db_tasks d')) = tx_clock x 0 + delay))"
proof (rule fail_activity_cases[OF assms])
  fix delay and e :: execution_row and locked :: task_row and nva d1 d2
  assume final: "final \<longleftrightarrow> n \<le> lt_attempt task" and held: "list_ex (owned task) (db_tasks d)"
    and delay: "\<not> final \<Longrightarrow> retry_delay env policy (lt_attempt task)
      (case rv of None \<Rightarrow> tx_random x | Some r \<Rightarrow> r) = Inr delay"
    and event: "insert_event x (lt_workflow_id task) (ex_next_seq e) ActivityFailed None (lt_entity_id task) None
      ((''attempt'', JInt (lt_attempt task)) # (''failure'', clone_json failure) # (''final'', JBool final) # [(''next_visible_at'', nva)]) d
      = Inr d1"
    and new: "(if final then insert_workflow_task x (tx_uuid x 0) (lt_workflow_id task) (tk_queue_name locked)
       else insert_task (retry_task x (tx_uuid x 0) (lt_workflow_id task) (lt_entity_id task)
         (lt_command_id task) (lt_attempt task + 1) (tx_clock x 0 + delay) locked))
      (update_tasks (owned task) (finish_task x (if final then TkDead else TkCompleted)) d1) = Inr d2"
    and d': "d' = set_next_seq (lt_workflow_id task) (ex_next_seq e + 1) d2"
  have hist: "db_history d' = db_history d1" and tasks: "db_tasks d' = db_tasks d2"
    using new by (auto simp: d' set_next_seq_def update_execution_def update_executions_def update_tasks_def
        insert_workflow_task_def insert_task_def res_simps split: if_splits)
  have 1: "hr_event_type (last (db_history d1)) = ActivityFailed"
    "dget (hr_attributes (last (db_history d1))) ''final'' = JBool final" "db_tasks d1 = db_tasks d"
    using event dget_jsonb by (auto simp: insert_event_def insert_history_def history_entry_def res_simps dget_def)
  have ended: "butlast (db_tasks d2) = map (\<lambda>t. if owned task t
      then finish_task x (if final then TkDead else TkCompleted) t else t) (db_tasks d)"
    using new 1(3) by (cases final) (auto simp: insert_workflow_task_def insert_task_def update_tasks_def res_simps)
  show ?thesis
  proof (cases final)
    case True
    with new 1 have "length (db_tasks d2) = length (db_tasks d) + 1" "tk_status (last (db_tasks d2)) = TkPending"
      "tk_workflow_id (last (db_tasks d2)) = lt_workflow_id task" "tk_task_type (last (db_tasks d2)) = WorkflowTask"
      by (auto simp: insert_workflow_task_def insert_task_def update_tasks_def workflow_task_def res_simps)
    with True final 1 hist tasks held ended show ?thesis by simp
  next
    case False
    with new 1 have "length (db_tasks d2) = length (db_tasks d) + 1" "tk_status (last (db_tasks d2)) = TkPending"
      "tk_workflow_id (last (db_tasks d2)) = lt_workflow_id task" "tk_task_type (last (db_tasks d2)) = ActivityTask"
      "tk_entity_id (last (db_tasks d2)) = lt_entity_id task" "tk_attempt (last (db_tasks d2)) = lt_attempt task + 1"
      "tk_visible_at (last (db_tasks d2)) = tx_clock x 0 + delay"
      by (auto simp: insert_task_def update_tasks_def retry_task_def workflow_task_def res_simps)
    with False final delay 1 hist tasks held ended show ?thesis by simp
  qed
qed

definition sample_policy :: dict where
  "sample_policy = [(''max_attempts'', JInt 3), (''initial_interval_seconds'', JInt 1),
     (''backoff_coefficient'', JInt 2)]"

theorem failed_attempt_retried_or_reported_witness:
  "\<exists>d'. fail_activity sample_env (sample_tx 50)
      (sample_attempt\<lparr>lt_input := JObj [(''retry_policy'', JObj sample_policy)]\<rparr>) JNull (Some 1) sample_running
      = Inr (d', False) \<and> tk_attempt (last (db_tasks d')) = 2 \<and> length (db_tasks d') = length (db_tasks sample_running) + 1"
proof -
  let ?t = "sample_attempt\<lparr>lt_input := JObj [(''retry_policy'', JObj sample_policy)]\<rparr>"
  let ?op = "fail_activity sample_env (sample_tx 50) ?t JNull (Some 1) sample_running"
  have "map_sum id snd ?op = Inr False" by code_simp
  then obtain d' where d': "?op = Inr (d', False)" by (cases ?op) auto
  have p: "recorded_policy (lt_input ?t) = Inr sample_policy" by code_simp
  have n: "policy_attempts (dget sample_policy ''max_attempts'') = Inr 3" by code_simp
  have "lt_attempt ?t = 1" by code_simp
  with failed_attempt_retried_or_reported[OF d' p n] d' show ?thesis by auto
qed

section \<open>Access\<close>

text \<open>
  C25. With a valid configuration and authentication enabled, a request passes the check for a role
  exactly when the digest of its token is that of a configured key of at least that role, and it then
  acts under the id and role of that key.
\<close>

theorem access_requires_matching_key:
  assumes "validate c = Inr ()" and "\<not> ac_disabled c"
  shows "require_role (authenticate env c token) r = Inr p \<longleftrightarrow>
    (\<exists>k\<in>set (ac_keys c). ak_digest k = token_digest env token \<and> ROLE_LEVEL r \<le> ROLE_LEVEL (ak_role k)
      \<and> p = \<lparr>pr_key_id = ak_key_id k, pr_role = ak_role k\<rparr>)"
proof -
  have "distinct (map ak_digest (ac_keys c))" using assms by (simp add: validate_def split: if_splits)
  note unique = match_key_unique[OF this]
  show ?thesis
  proof (cases "match_key (token_digest env token) (ac_keys c)")
    case None
    then have "\<forall>k\<in>set (ac_keys c). ak_digest k \<noteq> token_digest env token" by (simp only: match_key_None)
    with None assms(2) show ?thesis by (simp add: authenticate_def require_role_def)
  next
    case (Some k)
    then have k: "k \<in> set (ac_keys c)" "ak_digest k = token_digest env token" using match_key_Some by auto
    have "k' = k" if "k' \<in> set (ac_keys c)" "ak_digest k' = token_digest env token" for k'
      using unique[OF that(1)] that(2) Some by simp
    then have "(\<exists>k\<in>set (ac_keys c). ak_digest k = token_digest env token
        \<and> ROLE_LEVEL r \<le> ROLE_LEVEL (ak_role k) \<and> p = \<lparr>pr_key_id = ak_key_id k, pr_role = ak_role k\<rparr>)
      \<longleftrightarrow> ROLE_LEVEL r \<le> ROLE_LEVEL (ak_role k) \<and> p = \<lparr>pr_key_id = ak_key_id k, pr_role = ak_role k\<rparr>"
      using k by blast
    then show ?thesis using assms(2) Some by (simp add: authenticate_def require_role_def) blast
  qed
qed

definition sample_auth :: auth_config where
  "sample_auth = \<lparr>ac_keys = [\<lparr>ak_key_id = ''ops'', ak_role = Operator, ak_digest = []\<rparr>], ac_disabled = False,
     ac_requests_per_minute = 10, ac_max_request_bytes = 100\<rparr>"

theorem access_requires_matching_key_witness:
  "require_role (authenticate sample_env sample_auth ''secret'') Viewer = Inr \<lparr>pr_key_id = ''ops'', pr_role = Operator\<rparr>
   \<and> (\<forall>p. require_role (authenticate sample_env sample_auth ''secret'') Admin \<noteq> Inr p)"
proof -
  have v: "validate sample_auth = Inr ()" "\<not> ac_disabled sample_auth"
    by (simp_all add: validate_def sample_auth_def)
  have d: "token_digest sample_env ''secret'' = []" by code_simp
  show ?thesis
    using access_requires_matching_key[OF v, of sample_env "''secret''"]
    by (auto simp: d sample_auth_def)
qed

text \<open>
  C24. The rate limiter never lets an identity exceed its limit: of a sequence of calls in the order
  of time, at most the limit is allowed to it in any window of sixty seconds, wherever it starts.
\<close>

theorem rate_limit_respected:
  assumes "1 \<le> n" and "sorted (map snd calls)"
  shows "in_window a (times i (snd (run_limiter calls (new_limiter n)))) \<le> n"
proof (cases calls)
  case Nil
  then show ?thesis using assms(1) by (simp add: in_window_def)
next
  case (Cons c cs)
  then have "sorted (snd c # map snd calls)" using assms(2) by simp
  from run_limiter_keeps[OF new_limiter_ok this, of n] assms(1) show ?thesis
    by (auto simp: limiter_ok_def new_limiter_def)
qed

theorem rate_limit_respected_witness:
  "snd (run_limiter [(''a'', 0), (''a'', 10), (''a'', 20), (''b'', 30), (''a'', 61)] (new_limiter 2))
     = [(''a'', 0), (''a'', 10), (''b'', 30), (''a'', 61)] \<and>
   in_window 5 (times ''a'' [(''a'', 0), (''a'', 10), (''b'', 30), (''a'', 61)]) \<le> 2"
proof -
  have run: "snd (run_limiter [(''a'', 0), (''a'', 10), (''a'', 20), (''b'', 30), (''a'', 61)] (new_limiter 2))
     = [(''a'', 0), (''a'', 10), (''b'', 30), (''a'', 61)]"
    by (simp add: allow_def new_limiter_def queue_of_def Let_def)
  with rate_limit_respected[of 2 "[(''a'', 0), (''a'', 10), (''a'', 20), (''b'', 30), (''a'', 61)]" 5 "''a''"]
  show ?thesis by simp
qed

text \<open>
  The application reads a request body in full or not at all: it is delivered, unchanged, exactly
  when the bytes that arrive stay within the limit and a declared length, if there is one, is a number
  within it as well.
\<close>

lemma body_delivered_within_limit:
  assumes "\<forall>n\<in>set chunks. 0 \<le> n"
  shows "limit_body b declared chunks = Delivered cs \<longleftrightarrow>
    cs = chunks \<and> (chunks = [] \<or> sum_list chunks \<le> b)
    \<and> (case declared of None \<Rightarrow> True | Some text \<Rightarrow> \<exists>n. int_of_string text = Some n \<and> n \<le> b)"
proof (cases "receive_chunks b 0 chunks")
  case None
  with receive_chunks_Some[OF assms, of b 0 chunks] show ?thesis
    by (auto simp: limit_body_def split: option.splits)
next
  case (Some ds)
  with receive_chunks_Some[OF assms, of b 0 ds] show ?thesis
    by (auto simp: limit_body_def split: option.splits)
qed

section \<open>Migrations\<close>

text \<open>
  C23. Migrating can be interrupted and taken up again: whatever a run has done before it failed, with
  each script applied or rolled back as a whole, a later run that meets no error ends in exactly
  the schema and the record of migrations that one uninterrupted run would have produced. In
  particular running a second time changes nothing.
\<close>

theorem interrupted_migration_resumes:
  assumes "discover_migrations env dir = Inr ms" and "apply_migrations run1 ms st = (st1, r1)"
    and "\<And>q s s'. run1 q s = Some s' \<Longrightarrow> run2 q s = Some s'"
    and "apply_migrations run2 ms st = (st2, Inr ())"
  shows "apply_migrations run2 ms st1 = (st2, Inr ())"
  by (rule apply_migrations_resumes[OF conjunct1[OF discover_distinct[OF assms(1)]] assms(2-4)])

definition sample_directory :: "(string \<times> string) list" where
  "sample_directory = [(''0002_b.sql'', ''B''), (''README'', []), (''0001_a.sql'', ''A'')]"

definition flaky_sql :: "string \<Rightarrow> string list \<Rightarrow> string list option" where
  "flaky_sql q s = (if q = ''B'' then None else Some (s @ [q]))"

definition sound_sql :: "string \<Rightarrow> string list \<Rightarrow> string list option" where
  "sound_sql q s = Some (s @ [q])"

definition sample_migrations :: "migration list" where
  "sample_migrations = (case discover_migrations sample_env sample_directory of Inl e \<Rightarrow> [] | Inr ms \<Rightarrow> ms)"

definition fresh_schema :: "string list schema_state" where
  "fresh_schema = \<lparr>ss_schema = [], ss_applied = []\<rparr>"

theorem interrupted_migration_resumes_witness:
  "snd (apply_migrations flaky_sql sample_migrations fresh_schema) = Inl (SqlError ''0002'') \<and>
   ss_schema (fst (apply_migrations sound_sql sample_migrations
     (fst (apply_migrations flaky_sql sample_migrations fresh_schema)))) = [''A'', ''B'']"
proof
  show failed: "snd (apply_migrations flaky_sql sample_migrations fresh_schema) = Inl (SqlError ''0002'')" by code_simp
  have "\<not> Sum_Type.isl (discover_migrations sample_env sample_directory)" by code_simp
  then have ms: "discover_migrations sample_env sample_directory = Inr sample_migrations"
    by (cases "discover_migrations sample_env sample_directory") (auto simp: sample_migrations_def)
  obtain st1 r1 where 1: "apply_migrations flaky_sql sample_migrations fresh_schema = (st1, r1)" by fastforce
  obtain st2 r2 where 2: "apply_migrations sound_sql sample_migrations fresh_schema = (st2, r2)" by fastforce
  have "snd (apply_migrations sound_sql sample_migrations fresh_schema) = Inr ()" by code_simp
  then have r2: "r2 = Inr ()" using 2 by simp
  have "ss_schema (fst (apply_migrations sound_sql sample_migrations fresh_schema)) = [''A'', ''B'']" by code_simp
  then have schema: "ss_schema st2 = [''A'', ''B'']" using 2 by simp
  have "flaky_sql q s = Some s' \<Longrightarrow> sound_sql q s = Some s'" for q s s'
    by (auto simp: flaky_sql_def sound_sql_def split: if_splits)
  from interrupted_migration_resumes[OF ms 1 this 2[unfolded r2]] 1 schema
  show "ss_schema (fst (apply_migrations sound_sql sample_migrations
     (fst (apply_migrations flaky_sql sample_migrations fresh_schema)))) = [''A'', ''B'']" by simp
qed

section \<open>Clients\<close>

text \<open>
  C22. A client that waits for a workflow gets its outcome: when the workflow is closed in the state of
  one of the polls, the wait has returned by that poll, with the recorded result if it completed and
  with the recorded failure otherwise, and not with an outcome that is changed later.
\<close>

theorem waiting_client_gets_outcome:
  assumes "reachable (st 0)" and "\<And>i. step\<^sup>*\<^sup>* (st i) (st (Suc i))"
    and "find_execution (st 0) w = Some e0" and "find_execution (st k) w = Some e"
    and "ex_status e \<noteq> WfRunning" and "0 < poll_interval" and "k < n"
  shows "\<exists>out. handle_result n st w poll_interval = Some out \<and> outcome_of e out"
  using wait_result_closed[OF assms(1-5), of 0 n] assms(6,7) by (simp add: handle_result_def)

definition sample_polls :: "nat \<Rightarrow> db" where
  "sample_polls i = (if i = 0 then sample_completed else sample_terminated)"

theorem waiting_client_gets_outcome_witness:
  "\<exists>e'. handle_result 2 sample_polls 1 (1 / 20) = Some (Inl (WorkflowClosed e')) \<and> ex_status e' = WfTerminated"
proof -
  have steps: "step\<^sup>*\<^sup>* (sample_polls i) (sample_polls (Suc i))" for i
    by (auto simp: sample_polls_def sample_terminated_def transact_def split: sum.splits intro: step_terminate)
  have 0: "reachable (sample_polls 0)" using sample_reachable(5) by (simp add: sample_polls_def)
  have "map_option ex_id (find_execution (sample_polls 0) 1) = Some 1" by code_simp
  then obtain e0 where e0: "find_execution (sample_polls 0) 1 = Some e0" by auto
  have "map_option ex_status (find_execution (sample_polls 1) 1) = Some WfTerminated" by code_simp
  then obtain e where e: "find_execution (sample_polls 1) 1 = Some e" "ex_status e = WfTerminated" by auto
  obtain out where "handle_result 2 sample_polls 1 (1 / 20) = Some out" "outcome_of e out"
    using waiting_client_gets_outcome[OF 0 steps e0 e(1), of "1 / 20" 2] e(2) by auto
  with e(2) show ?thesis by (auto simp: outcome_of_def split: sum.splits)
qed

end
