(* ===== verification/Api_Properties.thy ===== *)
theory Api_Properties
  imports Api Audit_Laws Service_Properties
begin

text \<open>
  The properties of the HTTP interface.
\<close>

section \<open>Writing handlers\<close>

definition request_context :: "incoming \<Rightarrow> principal \<Rightarrow> string \<Rightarrow> audit_context" where
  "request_context inc q action =
     \<lparr>au_request_id = in_request_id inc, au_actor_key_id = pr_key_id q,
      au_actor_role = role_text (pr_role q), au_action = action\<rparr>"

lemma writing_audited:
  assumes "audited op" and "writing inc p minimum action caught code body op d = (d', resp)" and "d' \<noteq> d"
  shows "\<exists>q. p = Some q \<and> ROLE_LEVEL minimum \<le> ROLE_LEVEL (pr_role q)
    \<and> audited_by (request_context inc q action) d d'"
proof -
  obtain q x where "p = Some q" "ROLE_LEVEL minimum \<le> ROLE_LEVEL (pr_role q)"
    and op: "op (audit_of inc q action) d = Inr (d', x)"
    by (rule writing_cases[OF assms(2,3)])
  with audited.records_context[OF assms(1) op[unfolded audit_of_def]] show ?thesis
    by (simp add: request_context_def)
qed

lemma writing_steps:
  assumes "writing inc p minimum action caught code body op d = (d', resp)"
    and "\<And>a x. op a d = Inr (d', x) \<Longrightarrow> step d d'"
  shows "step\<^sup>*\<^sup>* d d'"
  using assms(1) assms(2) by (auto simp: writing_def split: sum.splits)

lemmas writing_handlers = create_workflow_schedule_def pause_schedule_def resume_schedule_def
  backfill_workflow_schedule_def start_def patch_search_attributes_def signal_def update_workflow_def
  terminate_def pause_def resume_def retry_def cancel_def

lemmas audit_contracts = create_schedule_audit.audited_axioms pause_schedule_audit.audited_axioms
  backfill_audit.audited_axioms start_audit.audited_axioms attributes_audit.audited_axioms
  signal_audit.audited_axioms update_audit.audited_axioms terminate_audit.audited_axioms
  pause_audit.audited_axioms resume_audit.audited_axioms retry_audit.audited_axioms
  cancel_audit.audited_axioms

lemma call_handler_audited:
  assumes "call_handler srv inc r p d = (d', resp)" and "d' \<noteq> d"
  shows "\<exists>q minimum action. p = Some q \<and> write_access r = Some (minimum, action)
    \<and> ROLE_LEVEL minimum \<le> ROLE_LEVEL (pr_role q) \<and> audited_by (request_context inc q action) d d'"
proof (cases "write_access r")
  case None
  with reading_call[of r srv inc p d] assms show ?thesis by simp
next
  case (Some ma)
  then obtain minimum action where ma: "write_access r = Some (minimum, action)" by (cases ma) auto
  have "\<exists>q. p = Some q \<and> ROLE_LEVEL minimum \<le> ROLE_LEVEL (pr_role q)
      \<and> audited_by (request_context inc q action) d d'"
    using assms ma
    by (cases r) (auto simp: writing_handlers simp del: ROLE_LEVEL.simps dest!: audit_contracts[THEN writing_audited])
  with ma show ?thesis by blast
qed

lemma call_handler_steps:
  assumes "call_handler srv inc r p d = (d', resp)"
  shows "step\<^sup>*\<^sup>* d d'"
proof (cases "write_access r")
  case None
  with reading_call[of r srv inc p d] assms show ?thesis by simp
next
  case (Some ma)
  then show ?thesis using assms
    by (cases r) (auto simp: writing_handlers elim!: writing_steps intro: step_create_schedule step_pause_schedule
        step_backfill step_start step_attributes step_signal step_update step_terminate step_pause step_resume
        step_retry step_cancel)
qed


lemma call_next_cases:
  "fst (call_next srv inc r p d) = d \<and> (\<exists>c. snd (call_next srv inc r p d) = HttpException c)
    \<or> call_next srv inc r p d = call_handler srv inc r p d"
  by (auto simp: call_next_def split: body_outcome.split)

lemma finish_response_fst [simp]: "fst (finish_response inc path extra resp) = resp"
  by (simp add: finish_response_def)

text \<open>Either the request was turned away before the handler, or the handler's result is the outcome.\<close>

lemma secure_responses_cases:
  assumes "secure_responses srv inc r (l, d) = ((l', d'), resp, hs)"
  obtains (turned_away) "d' = d" "\<And>c b. resp \<noteq> Response c b"
  | (handled) p where "call_handler srv inc r p d = (d', resp)"
      and "p = None \<or> p = authenticate (ap_env srv) (ap_auth srv) (request_token inc)"
proof -
  have next_case: thesis if "call_next srv inc r p d = (d', resp)"
    "p = None \<or> p = authenticate (ap_env srv) (ap_auth srv) (request_token inc)" for p
    using call_next_cases[of srv inc r p d] that turned_away handled by auto
  let ?path = "route_path r"
  show ?thesis
  proof (cases "public_path ?path")
    case True
    then have "call_next srv inc r None d = (d', resp)"
      using assms by (auto simp: secure_responses_def Let_def split: prod.splits dest: arg_cong[of _ _ fst])
    with next_case show ?thesis by blast
  next
    case protected: False
    show ?thesis
    proof (cases "authenticate (ap_env srv) (ap_auth srv) (request_token inc)")
      case None
      with protected assms have "d' = d" "resp = HttpException 401"
        by (auto simp: secure_responses_def Let_def finish_response_def)
      with turned_away show ?thesis by simp
    next
      case (Some p)
      obtain l1 o1 where lim: "allow (pr_key_id p) (in_time inc) l = (l1, o1)" by (cases "allow (pr_key_id p) (in_time inc) l")
      show ?thesis
      proof (cases "\<exists>n. o1 = Some (True, n)")
        case True
        then have "call_next srv inc r (Some p) d = (d', resp)"
          using protected Some lim assms
          by (auto simp: secure_responses_def Let_def finish_response_def split: prod.splits)
        with next_case Some show ?thesis by simp
      next
        case False
        then have "d' = d \<and> (\<forall>c b. resp \<noteq> Response c b)"
          using protected Some lim assms
          by (cases o1) (auto simp: secure_responses_def Let_def finish_response_def split: prod.splits)
        with turned_away show ?thesis by blast
      qed
    qed
  qed
qed

section \<open>Accountability\<close>

text \<open>
  C12. No request changes the database unless it carries the token of a configured key whose role
  suffices for that route, and every change leaves exactly one record in the audit log, which names
  the request, the key, its role and the action.
\<close>

theorem api_changes_authorized_and_audited:
  assumes "secure_responses srv inc r (l, d) = ((l', d'), resp, hs)" and "d' \<noteq> d"
    and "validate (ap_auth srv) = Inr ()" and "\<not> ac_disabled (ap_auth srv)"
  shows "\<exists>k\<in>set (ac_keys (ap_auth srv)). \<exists>minimum action row.
    ak_digest k = token_digest (ap_env srv) (request_token inc)
    \<and> write_access r = Some (minimum, action) \<and> ROLE_LEVEL minimum \<le> ROLE_LEVEL (ak_role k)
    \<and> db_audit d' = db_audit d @ [row]
    \<and> al_context row = \<lparr>au_request_id = in_request_id inc, au_actor_key_id = ak_key_id k,
        au_actor_role = role_text (ak_role k), au_action = action\<rparr>"
  using assms(1)
proof (cases rule: secure_responses_cases)
  case (handled p)
  from call_handler_audited[OF handled(1) assms(2)] obtain q minimum action where
    q: "p = Some q" "write_access r = Some (minimum, action)" "ROLE_LEVEL minimum \<le> ROLE_LEVEL (pr_role q)"
    and audit: "audited_by (request_context inc q action) d d'" by blast
  with handled(2) have "authenticate (ap_env srv) (ap_auth srv) (request_token inc) = Some q" by simp
  then obtain k where "match_key (token_digest (ap_env srv) (request_token inc)) (ac_keys (ap_auth srv)) = Some k"
    and "q = \<lparr>pr_key_id = ak_key_id k, pr_role = ak_role k\<rparr>"
    using assms(4) by (auto simp: authenticate_def)
  with q audit match_key_Some show ?thesis
    by (fastforce simp: audited_by_def request_context_def)
qed (use assms(2) in simp)

definition sample_server :: api_server where
  "sample_server = \<lparr>ap_env = sample_env, ap_zones = sample_zones,
     ap_search = \<lparr>pg_ilike = (\<lambda>s q. True), pg_jsonb_text = (\<lambda>a. []), pg_contains = (\<lambda>a b. True)\<rparr>,
     ap_auth = sample_auth, ap_depth = 10, ap_latest_migration = ''0015'', ap_loads = (\<lambda>s. None)\<rparr>"

definition sample_incoming :: incoming where
  "sample_incoming = \<lparr>in_request_id = 5, in_authorization = ''Bearer secret'', in_time = 0,
     in_declared_length = None, in_chunks = [20], in_tx = sample_tx 70, in_first_read = sample_started,
     in_schema_version = None\<rparr>"

definition sample_request :: api_request where
  "sample_request = PostSignal 1 \<lparr>mr_id = ''s'', mr_name = ''go'', mr_payload = JNull\<rparr>"

definition sample_served :: "(limiter \<times> db) \<times> response \<times> (string \<times> string) list" where
  "sample_served = secure_responses sample_server sample_incoming sample_request (new_limiter 10, sample_started)"

theorem api_changes_authorized_and_audited_witness:
  "fst (snd sample_served) = Response 200 (AcceptedBody True) \<and>
   (\<exists>row. db_audit (snd (fst sample_served)) = db_audit sample_started @ [row]
     \<and> au_actor_key_id (al_context row) = ''ops'' \<and> au_action (al_context row) = ''workflow.signal'')"
proof -
  obtain l' d' resp hs where s: "sample_served = ((l', d'), resp, hs)" by (metis prod.exhaust)
  have resp: "fst (snd sample_served) = Response 200 (AcceptedBody True)" by code_simp
  have "length (db_history (snd (fst sample_served))) \<noteq> length (db_history sample_started)" by code_simp
  then have "d' \<noteq> sample_started" unfolding s by auto
  moreover have "validate (ap_auth sample_server) = Inr ()" "\<not> ac_disabled (ap_auth sample_server)"
    by (simp_all add: validate_def sample_server_def sample_auth_def)
  ultimately obtain k action row where "k \<in> set (ac_keys (ap_auth sample_server))"
    and "\<exists>m. write_access sample_request = Some (m, action)" and row: "db_audit d' = db_audit sample_started @ [row]"
    and "au_actor_key_id (al_context row) = ak_key_id k" "au_action (al_context row) = action"
    using api_changes_authorized_and_audited[OF s[unfolded sample_served_def]] by fastforce
  then have "au_actor_key_id (al_context row) = ''ops''" "au_action (al_context row) = ''workflow.signal''"
    by (simp_all add: sample_server_def sample_auth_def sample_request_def)
  with resp row show ?thesis unfolding s by auto
qed

lemma call_handler_error:
  assumes "call_handler srv inc r p d = (d', resp)" and "\<forall>c b. resp \<noteq> Response c b"
  shows "d' = d"
proof (cases "write_access r")
  case None
  with reading_call[of r srv inc p d] assms show ?thesis by simp
next
  case (Some ma)
  then show ?thesis using assms by (cases r) (auto simp: writing_handlers dest: writing_error)
qed

text \<open>
  C21. Serving a request is made of steps of the engine, and it is atomic: a request that is not
  answered with a regular response, because it was turned away, refused or failed, has changed
  nothing.
\<close>

theorem api_requests_are_atomic_steps:
  assumes "secure_responses srv inc r (l, d) = ((l', d'), resp, hs)"
  shows "step\<^sup>*\<^sup>* d d' \<and> ((\<exists>c b. resp = Response c b) \<or> d' = d)"
  using assms
proof (cases rule: secure_responses_cases)
  case (handled p)
  with call_handler_steps[OF handled(1)] call_handler_error[OF handled(1)] show ?thesis by blast
qed simp

definition sample_refused :: "(limiter \<times> db) \<times> response \<times> (string \<times> string) list" where
  "sample_refused =
     secure_responses sample_server sample_incoming (PostTerminate 1 None) (new_limiter 10, sample_started)"

theorem api_requests_are_atomic_steps_witness:
  "fst (snd sample_refused) = HttpException 403 \<and> snd (fst sample_refused) = sample_started"
proof -
  obtain l' d' resp hs where s: "sample_refused = ((l', d'), resp, hs)" by (metis prod.exhaust)
  have "fst (snd sample_refused) = HttpException 403" by code_simp
  with api_requests_are_atomic_steps[OF s[unfolded sample_refused_def]] show ?thesis unfolding s by simp
qed

end
