(* ===== verification/Command_Names.thy ===== *)
theory Command_Names
  imports Replay
begin

text \<open>
  The identities that replay gives to what it schedules: the entity id of a command is the hash of
  the workflow id, the kind of the command and the command id, for every command that any workflow
  function can issue. The locale \<open>naming\<close> is that contract of a context operation.
\<close>

section \<open>Names\<close>

text \<open>The kinds that \<^verbatim>\<open>engine/sdk/context.py\<close> puts into the name of an entity, by event type.\<close>

fun entity_kinds :: "event_type \<Rightarrow> string list" where
  "entity_kinds ActivityScheduled = [''activity'']"
| "entity_kinds TimerStarted = [''timer'', ''signal-timeout'']"
| "entity_kinds ChildWorkflowStarted = [''child'']"
| "entity_kinds WorkflowExecutionContinuedAsNew = [''continue-as-new'']"
| "entity_kinds _ = []"

definition named :: "pyenv \<Rightarrow> uuid \<Rightarrow> event_type \<Rightarrow> int \<Rightarrow> uuid \<Rightarrow> bool" where
  "named env w ty c en \<longleftrightarrow> (\<exists>kind\<in>set (entity_kinds ty). en = py_uuid5 env (entity_name w kind c))"

fun named_command :: "pyenv \<Rightarrow> uuid \<Rightarrow> command \<Rightarrow> bool" where
  "named_command env w (ScheduleActivity a) = named env w ActivityScheduled (sa_command_id a) (sa_entity_id a)"
| "named_command env w (ScheduleTimer t) = named env w TimerStarted (st_command_id t) (st_entity_id t)"
| "named_command env w (StartChildWorkflow b) =
     named env w ChildWorkflowStarted (sc_command_id b) (sc_child_workflow_id b)"
| "named_command env w (ContinueAsNew n) =
     named env w WorkflowExecutionContinuedAsNew (cn_command_id n) (cn_new_workflow_id n)"
| "named_command env w (RecordMarker m) = True"
| "named_command env w (ResolveWorkflowUpdate u) = True"

section \<open>Operations name what they schedule\<close>

locale naming =
  fixes env :: pyenv and op :: "wcontext \<Rightarrow> 'a outcome \<times> wcontext"
  assumes keeps_workflow: "op cx = (r, cx1) \<Longrightarrow> cx_workflow_id cx1 = cx_workflow_id cx"
    and names: "op cx = (Suspend (NewCommands cs), cx1) \<Longrightarrow> c \<in> set cs
      \<Longrightarrow> named_command env (cx_workflow_id cx) c"
begin

lemma tagged_names: "naming env (\<lambda>cx. map_prod (map_outcome f) id (op cx))"
proof (unfold_locales, goal_cases)
  case (1 cx r cx1)
  then show ?case by (cases "op cx") (auto dest: keeps_workflow)
next
  case (2 cx cs cx1 c)
  then have "op cx = (Suspend (NewCommands cs), cx1)" by (cases "op cx"; cases "fst (op cx)") auto
  from names[OF this 2(2)] show ?case .
qed

lemma resume_names:
  assumes "resume (op cx) k = (Suspend (NewCommands cs), cx1)" and "c \<in> set cs"
    and "\<And>a cx. k a cx = (Suspend (NewCommands cs), cx1) \<Longrightarrow> named_command env (cx_workflow_id cx) c"
  shows "named_command env (cx_workflow_id cx) c"
proof (cases "op cx")
  case (Pair q cx2)
  with assms names keeps_workflow[OF Pair] show ?thesis by (cases q) fastforce+
qed

end

lemmas naming_simps = Let_def split_def named_def

interpretation activity_names: naming env "evaluate_activity env i" for env i
  by unfold_locales
    (auto simp: evaluate_activity_def resolve_activity_def naming_simps split: if_splits option.splits)

interpretation child_names: naming env "evaluate_child_workflow env call" for env call
  by unfold_locales (auto simp: evaluate_child_workflow_def naming_simps split: if_splits option.splits)

interpretation call_child_names: naming env "call_child env n v i q p" for env n v i q p
proof (cases rule: call_child_cases[of env n v i q p])
  case (bad e)
  then show "naming env (call_child env n v i q p)" by unfold_locales auto
next
  case (call c)
  show "naming env (call_child env n v i q p)"
    by unfold_locales (auto simp: call dest: child_names.keeps_workflow child_names.names)
qed

interpretation continue_names: naming env "continue_as_new env n v i q" for env n v i q
  by unfold_locales (auto simp: continue_as_new_def naming_simps split: if_splits option.splits)

interpretation sleep_names: naming env "sleep env d" for env d
  by unfold_locales (auto simp: sleep_def naming_simps split: if_splits option.splits)

interpretation wait_signal_names: naming env "wait_signal env n t" for env n t
  by unfold_locales
    (auto simp: wait_signal_def signal_race_def consume_signal_def naming_simps split: if_splits option.splits)

interpretation wait_update_names: naming env "wait_update n" for env n
  by unfold_locales (auto simp: wait_update_def split: if_splits option.splits json.splits)

interpretation resolve_names: naming env "resolve_update env u out acc" for env u out acc
  by unfold_locales (auto simp: resolve_update_def naming_simps split: if_splits option.splits)

lemma marker_names: "naming env (\<lambda>cx. read_marker check (marker env t cx))"
  by unfold_locales
    (auto simp: read_marker_def marker_def naming_simps split: sum.splits option.splits if_splits)

interpretation now_names: naming env "now_marker env" for env
  unfolding now_marker_def by (rule marker_names)

interpretation random_names: naming env "random_marker env" for env
  unfolding random_marker_def by (rule marker_names)

interpretation uuid_names: naming env "uuid_marker env" for env
  unfolding uuid_marker_def by (rule marker_names)

interpretation perform_names: naming env "perform env req" for env req
  by (cases req)
    (simp_all only: perform_eqs activity_names.tagged_names call_child_names.tagged_names
      continue_names.tagged_names now_names.tagged_names random_names.tagged_names
      uuid_names.tagged_names sleep_names.tagged_names wait_signal_names.tagged_names
      wait_update_names.tagged_names resolve_names.tagged_names)

lemma gather_loop_names:
  assumes "gather_loop env is rs ms b cx = (r, cx1)"
    and "\<forall>c\<in>set ms. named_command env (cx_workflow_id cx) c"
  shows "cx_workflow_id cx1 = cx_workflow_id cx
    \<and> (\<forall>cs. r = Suspend (NewCommands cs) \<longrightarrow> (\<forall>c\<in>set cs. named_command env (cx_workflow_id cx) c))"
  using assms
proof (induction "is" arbitrary: rs ms b cx)
  case Nil
  then show ?case by (auto split: if_splits)
next
  case (Cons i "is")
  obtain q cx2 where q: "evaluate_activity env i cx = (q, cx2)" by force
  note w = activity_names.keeps_workflow[OF q]
  have new: "\<forall>c\<in>set (ms @ cs). named_command env (cx_workflow_id cx2) c"
    if "q = Suspend (NewCommands cs)" for cs
    using Cons.prems(2) activity_names.names[of env i cx cs cx2] q that w by auto
  from Cons.prems q w new Cons.IH[of _ _ _ cx2] show ?case
    by (fastforce split: outcome.splits suspension.splits)
qed

interpretation gather_names: naming env "gather env is" for env "is"
proof
  fix cx cx1 cs c and r :: "json list outcome"
  show "gather env is cx = (r, cx1) \<Longrightarrow> cx_workflow_id cx1 = cx_workflow_id cx"
    using gather_loop_names[of env "is" "[]" "[]" False cx r cx1] by (auto simp: gather_def split: if_splits)
  show "gather env is cx = (Suspend (NewCommands cs), cx1) \<Longrightarrow> c \<in> set cs
      \<Longrightarrow> named_command env (cx_workflow_id cx) c"
    using gather_loop_names[of env "is" "[]" "[]" False cx "Suspend (NewCommands cs)" cx1]
    by (auto simp: gather_def split: if_splits)
qed

section \<open>So does replay\<close>

lemma run_names:
  assumes "run env p cx = (Suspend (NewCommands cs), cx1)" and "c \<in> set cs"
  shows "named_command env (cx_workflow_id cx) c"
  using assms(1)
proof (induction p arbitrary: cx)
  case (NewActivity d args kwargs retry s2s s2c hb k)
  let ?cx = "snd (new_activity_call d args kwargs retry s2s s2c hb cx)"
  have "named_command env (cx_workflow_id ?cx) c"
    using NewActivity.prems by (intro NewActivity.IH) (auto simp: split_def Let_def)
  then show ?case by (simp add: new_activity_call_def)
next
  case (Await req k)
  show ?case
    by (rule perform_names.resume_names[of env req cx "\<lambda>a. run env (k a)", OF _ assms(2)]) (use Await in auto)
next
  case (Gather "is" k)
  show ?case
    by (rule gather_names.resume_names[of env "is" cx "\<lambda>a. run env (k a)", OF _ assms(2)]) (use Gather in auto)
qed auto

lemma replay_names:
  assumes "replay_workflow env f w i H = Inr r" and "c \<in> set (rr_commands r)"
  shows "named_command env w c"
proof -
  obtain ix where ix: "HistoryIndex H = Inr ix"
    using assms(1) by (auto simp: replay_workflow_def split: sum.splits)
  obtain q cx1 where run: "run env (f (clone_json i)) (WorkflowContext 0 w ix) = (q, cx1)" by force
  have "q = Suspend (NewCommands (rr_commands r))"
    using assms run ix
    by (auto simp: replay_workflow_def split: outcome.splits suspension.splits exn.splits option.splits)
  with run have "named_command env (cx_workflow_id (WorkflowContext 0 w ix)) c"
    by (intro run_names[OF _ assms(2)]) simp
  then show ?thesis by (simp add: WorkflowContext_def)
qed

end
