(* ===== verification/Journal.thy ===== *)
theory Journal
  imports Database Command_Names
begin

text \<open>
  The events of one workflow together with the rows that will add to them. A journal is in order when
  its events fit one after the other and every open task, every running child and the execution itself
  can still report what it has to report. The theory shows that rows may close at any time, and which
  event may be appended when.
\<close>

section \<open>Events in order\<close>

text \<open>What \<open>event_ok\<close> asks of an event besides its number.\<close>

definition fits :: "history_event list \<Rightarrow> history_event \<Rightarrow> bool" where
  "fits pre ev \<longleftrightarrow> event_ok pre (ev\<lparr>ev_seq := int (length pre) + 1\<rparr>)"

definition orderly :: "history_event list \<Rightarrow> bool" where
  "orderly evs \<longleftrightarrow> (\<forall>i<length evs. fits (take i evs) (evs ! i))"

lemma kind_of_numbered [simp]:
  "is_schedule (ev\<lparr>ev_seq := n\<rparr>) = is_schedule ev" "is_timer_close (ev\<lparr>ev_seq := n\<rparr>) = is_timer_close ev"
  "is_child_close (ev\<lparr>ev_seq := n\<rparr>) = is_child_close ev"
  "schedule_ok pre (ev\<lparr>ev_seq := n\<rparr>) = schedule_ok pre ev"
  "terminal_ok k P pre (ev\<lparr>ev_seq := n\<rparr>) = terminal_ok k P pre ev"
  by (simp_all add: is_schedule_def is_timer_close_def is_child_close_def schedule_ok_def terminal_ok_def)

lemma event_ok_fits: "event_ok pre ev \<longleftrightarrow> ev_seq ev = int (length pre) + 1 \<and> fits pre ev"
  by (auto simp: fits_def event_ok_def)

lemma orderly_Nil [simp]: "orderly []"
  by (simp add: orderly_def)

lemma orderly_snoc: "orderly (evs @ [ev]) \<longleftrightarrow> orderly evs \<and> fits evs ev"
  by (auto simp: orderly_def less_Suc_eq nth_append)

lemma orderly_events_ok:
  assumes "orderly evs" and "map ev_seq evs = [1..int (length evs)]"
  shows "events_ok [] evs"
  using assms
proof (induction evs rule: rev_induct)
  case (snoc ev evs)
  have "map ev_seq evs @ [ev_seq ev] = [1..int (length evs) + 1]" using snoc.prems(2) by (simp add: add.commute)
  then have "map ev_seq evs = [1..int (length evs)]" "ev_seq ev = int (length evs) + 1"
    by (simp_all add: upto_snoc_iff)
  with snoc show ?case by (simp add: orderly_snoc event_ok_fits)
qed simp

text \<open>An event that schedules nothing, ends nothing and carries no obligations.\<close>

definition plain_event :: "history_event \<Rightarrow> bool" where
  "plain_event ev \<longleftrightarrow> ev_type ev \<in> {ActivityStarted, WorkflowExecutionPaused, WorkflowExecutionResumed}
     \<or> (ev_type ev = SignalReceived \<and> nonempty_str (dget (ev_attributes ev) ''name'')
          \<and> ev_external_id ev \<noteq> None)
     \<or> (ev_type ev = WorkflowUpdateReceived \<and> nonempty_str (dget (ev_attributes ev) ''name'')
          \<and> nonempty_str (dget (ev_attributes ev) ''update_id''))"

definition open_log :: "history_event list \<Rightarrow> bool" where
  "open_log evs \<longleftrightarrow> (\<forall>x\<in>set evs. \<not> is_workflow_close x)"

lemma fits_plain: "plain_event ev \<Longrightarrow> open_log evs \<Longrightarrow> fits evs ev"
  by (auto simp: plain_event_def open_log_def fits_def event_ok_def event_kind_defs)

lemma fits_workflow_close: "is_workflow_close ev \<Longrightarrow> open_log evs \<Longrightarrow> fits evs ev"
  by (auto simp: open_log_def fits_def event_ok_def event_kind_defs)

lemma fits_cancellation:
  "ev_type ev = WorkflowCancellationRequested \<Longrightarrow> open_log evs \<Longrightarrow>
    \<forall>x\<in>set evs. ev_type x \<noteq> WorkflowCancellationRequested \<Longrightarrow> fits evs ev"
  by (auto simp: open_log_def fits_def event_ok_def event_kind_defs)

lemma fits_schedule: "is_schedule ev \<Longrightarrow> open_log evs \<Longrightarrow> schedule_ok evs ev \<Longrightarrow> fits evs ev"
  by (auto simp: open_log_def fits_def event_ok_def event_kind_defs)

lemma fits_terminal:
  "open_log evs \<Longrightarrow> ev_type ev \<in> set ACTIVITY_TERMINAL_EVENT_TYPES \<Longrightarrow>
    terminal_ok ActivityScheduled is_activity_close evs ev \<Longrightarrow> fits evs ev"
  "open_log evs \<Longrightarrow> is_timer_close ev \<Longrightarrow> terminal_ok TimerStarted is_timer_close evs ev \<Longrightarrow> fits evs ev"
  "open_log evs \<Longrightarrow> is_child_close ev \<Longrightarrow> terminal_ok ChildWorkflowStarted is_child_close evs ev
    \<Longrightarrow> fits evs ev"
  by (auto simp: open_log_def fits_def event_ok_def event_kind_defs)

section \<open>Journals\<close>

definition named_event :: "pyenv \<Rightarrow> uuid \<Rightarrow> history_event \<Rightarrow> bool" where
  "named_event env w ev \<longleftrightarrow>
     (is_schedule ev \<longrightarrow>
        (\<forall>en. ev_entity_id ev = Some en \<longrightarrow>
           (\<exists>c. ev_command_id ev = Some c \<and> named env w (ev_type ev) c en)))"

definition scheduled_by :: "event_type \<Rightarrow> history_event list \<Rightarrow> uuid option \<Rightarrow> bool" where
  "scheduled_by ty evs en \<longleftrightarrow> (\<exists>x\<in>set evs. ev_type x = ty \<and> ev_entity_id x = en)"

definition not_ended :: "(history_event \<Rightarrow> bool) \<Rightarrow> history_event list \<Rightarrow> uuid option \<Rightarrow> bool" where
  "not_ended closes evs en \<longleftrightarrow> (\<forall>x\<in>set evs. closes x \<longrightarrow> ev_entity_id x \<noteq> en)"

definition task_backed :: "history_event list \<Rightarrow> task_row \<Rightarrow> bool" where
  "task_backed evs t \<longleftrightarrow>
     (case tk_task_type t of
        WorkflowTask \<Rightarrow> True
      | ActivityTask \<Rightarrow> scheduled_by ActivityScheduled evs (tk_entity_id t)
          \<and> (open_task t \<longrightarrow> not_ended is_activity_close evs (tk_entity_id t))
      | TimerTask \<Rightarrow> scheduled_by TimerStarted evs (tk_entity_id t)
          \<and> (open_task t \<longrightarrow> not_ended is_timer_close evs (tk_entity_id t)))"

definition child_backed :: "history_event list \<Rightarrow> execution_row \<Rightarrow> bool" where
  "child_backed evs e \<longleftrightarrow>
     scheduled_by ChildWorkflowStarted evs (Some (ex_id e))
     \<and> (ex_status e = WfRunning \<longrightarrow> not_ended is_child_close evs (Some (ex_id e)))"

definition execution_backed :: "history_event list \<Rightarrow> execution_row \<Rightarrow> bool" where
  "execution_backed evs e \<longleftrightarrow>
     (ex_status e = WfRunning \<longrightarrow> open_log evs)
     \<and> (ex_cancellation_requested_at e = None \<longrightarrow>
          (\<forall>x\<in>set evs. ev_type x \<noteq> WorkflowCancellationRequested))"

definition same_entity :: "task_row \<Rightarrow> task_row \<Rightarrow> bool" where
  "same_entity s t \<longleftrightarrow>
     tk_workflow_id s = tk_workflow_id t \<and> tk_task_type s = tk_task_type t \<and> tk_entity_id s = tk_entity_id t"

definition one_open :: "uuid \<Rightarrow> task_row list \<Rightarrow> bool" where
  "one_open w ts \<longleftrightarrow>
     (\<forall>s\<in>set ts. \<forall>t\<in>set ts. tk_workflow_id s = w \<longrightarrow> tk_task_type s \<noteq> WorkflowTask \<longrightarrow> same_entity s t
        \<longrightarrow> open_task s \<longrightarrow> open_task t \<longrightarrow> tk_id s = tk_id t)"

definition journal_ok ::
  "pyenv \<Rightarrow> uuid \<Rightarrow> history_event list \<Rightarrow> task_row list \<Rightarrow> execution_row list \<Rightarrow> bool" where
  "journal_ok env w evs ts es \<longleftrightarrow>
     orderly evs \<and> (\<forall>ev\<in>set evs. named_event env w ev)
     \<and> (evs \<noteq> [] \<longrightarrow> ev_type (hd evs) = WorkflowExecutionStarted)
     \<and> (evs = [] \<longleftrightarrow> w \<notin> ex_id ` set es)
     \<and> (\<forall>t\<in>set ts. tk_workflow_id t = w \<longrightarrow> evs \<noteq> [] \<and> task_backed evs t) \<and> one_open w ts
     \<and> (\<forall>e\<in>set es. ex_id e = w \<longrightarrow> execution_backed evs e)
     \<and> (\<forall>e\<in>set es. ex_parent_workflow_id e = Some w \<longrightarrow> child_backed evs e)"

lemma journal_empty: "journal_ok env w [] [] []"
  by (simp add: journal_ok_def one_open_def)

text \<open>A workflow id is free or in use; while it is free nothing refers to it.\<close>

lemma journal_child_evs: "journal_ok env w evs ts es \<Longrightarrow> e \<in> set es \<Longrightarrow> ex_parent_workflow_id e = Some w
    \<Longrightarrow> evs \<noteq> []"
  by (auto simp: journal_ok_def child_backed_def scheduled_by_def)

section \<open>Rows that only close\<close>

definition task_le :: "task_row \<Rightarrow> task_row \<Rightarrow> bool" where
  "task_le t t' \<longleftrightarrow> tk_id t' = tk_id t \<and> same_entity t' t \<and> (open_task t' \<longrightarrow> open_task t)"

definition tasks_close :: "uuid \<Rightarrow> task_row list \<Rightarrow> task_row list \<Rightarrow> bool" where
  "tasks_close w ts ts' \<longleftrightarrow>
     (\<forall>t'\<in>set ts'. tk_workflow_id t' = w \<longrightarrow> tk_task_type t' = WorkflowTask \<or> (\<exists>t\<in>set ts. task_le t t'))"

definition row_le :: "execution_row \<Rightarrow> execution_row \<Rightarrow> bool" where
  "row_le e e' \<longleftrightarrow>
     ex_id e' = ex_id e \<and> ex_parent_workflow_id e' = ex_parent_workflow_id e
     \<and> (ex_status e' = WfRunning \<longrightarrow> ex_status e = WfRunning)
     \<and> (ex_cancellation_requested_at e' = None \<longrightarrow> ex_cancellation_requested_at e = None)"

definition rows_close :: "uuid \<Rightarrow> execution_row list \<Rightarrow> execution_row list \<Rightarrow> bool" where
  "rows_close w es es' \<longleftrightarrow>
     (w \<in> ex_id ` set es' \<longleftrightarrow> w \<in> ex_id ` set es)
     \<and> (\<forall>e'\<in>set es'. ex_id e' = w \<or> ex_parent_workflow_id e' = Some w \<longrightarrow> (\<exists>e\<in>set es. row_le e e'))"

lemma task_backed_le: "task_backed evs t \<Longrightarrow> task_le t t' \<Longrightarrow> task_backed evs t'"
  by (auto simp: task_backed_def task_le_def same_entity_def split: task_type.splits)

lemma journal_closes:
  assumes ok: "journal_ok env w evs ts es" and ts: "tasks_close w ts ts'" and es: "rows_close w es es'"
    and new: "evs = [] \<Longrightarrow> \<forall>t\<in>set ts'. tk_workflow_id t \<noteq> w"
  shows "journal_ok env w evs ts' es'"
proof -
  have "evs \<noteq> [] \<and> task_backed evs t'" if t': "t' \<in> set ts'" "tk_workflow_id t' = w" for t'
  proof (cases "tk_task_type t' = WorkflowTask")
    case True
    then show ?thesis using new t' by (auto simp: task_backed_def)
  next
    case False
    then obtain t where t: "t \<in> set ts" "task_le t t'" using ts t' by (auto simp: tasks_close_def)
    then have "tk_workflow_id t = w" using t' by (simp add: task_le_def same_entity_def)
    with ok t show ?thesis using task_backed_le by (auto simp: journal_ok_def)
  qed
  moreover have "one_open w ts'"
    unfolding one_open_def
  proof (intro ballI impI)
    fix s' t' assume a: "s' \<in> set ts'" "t' \<in> set ts'" "tk_workflow_id s' = w" "tk_task_type s' \<noteq> WorkflowTask"
      "same_entity s' t'" "open_task s'" "open_task t'"
    then have "tk_workflow_id t' = w" "tk_task_type t' \<noteq> WorkflowTask" by (auto simp: same_entity_def)
    with a obtain s t where "s \<in> set ts" "task_le s s'" "t \<in> set ts" "task_le t t'"
      using ts unfolding tasks_close_def by blast
    moreover from this a have "tk_workflow_id s = w" "tk_task_type s \<noteq> WorkflowTask" "same_entity s t"
      "open_task s" "open_task t" by (auto simp: task_le_def same_entity_def)
    moreover have "one_open w ts" using ok by (simp add: journal_ok_def)
    ultimately show "tk_id s' = tk_id t'" unfolding one_open_def task_le_def by metis
  qed
  moreover have "execution_backed evs e'" if e': "e' \<in> set es'" "ex_id e' = w" for e'
  proof -
    obtain e where e: "e \<in> set es" "row_le e e'" using es e' unfolding rows_close_def by blast
    then have "execution_backed evs e" using ok e' by (auto simp: journal_ok_def row_le_def)
    with e(2) show ?thesis by (auto simp: execution_backed_def row_le_def)
  qed
  moreover have "child_backed evs e'" if e': "e' \<in> set es'" "ex_parent_workflow_id e' = Some w" for e'
  proof -
    obtain e where e: "e \<in> set es" "row_le e e'" using es e' unfolding rows_close_def by blast
    then have "child_backed evs e" using ok e' by (auto simp: journal_ok_def row_le_def)
    with e(2) show ?thesis by (auto simp: child_backed_def row_le_def)
  qed
  ultimately show ?thesis using ok es by (simp add: journal_ok_def rows_close_def)
qed

section \<open>One more event\<close>

text \<open>After the event, whoever it is about must be closed.\<close>

definition settles ::
  "uuid \<Rightarrow> history_event \<Rightarrow> task_row list \<Rightarrow> execution_row list \<Rightarrow> bool" where
  "settles w ev ts es \<longleftrightarrow>
     (is_activity_close ev \<longrightarrow> (\<forall>t\<in>set ts. tk_workflow_id t = w \<longrightarrow> tk_task_type t = ActivityTask
        \<longrightarrow> open_task t \<longrightarrow> tk_entity_id t \<noteq> ev_entity_id ev))
     \<and> (is_timer_close ev \<longrightarrow> (\<forall>t\<in>set ts. tk_workflow_id t = w \<longrightarrow> tk_task_type t = TimerTask
        \<longrightarrow> open_task t \<longrightarrow> tk_entity_id t \<noteq> ev_entity_id ev))
     \<and> (is_child_close ev \<longrightarrow> (\<forall>e\<in>set es. ex_parent_workflow_id e = Some w \<longrightarrow> ex_status e = WfRunning
        \<longrightarrow> Some (ex_id e) \<noteq> ev_entity_id ev))
     \<and> (is_workflow_close ev \<longrightarrow> (\<forall>e\<in>set es. ex_id e = w \<longrightarrow> ex_status e \<noteq> WfRunning))
     \<and> (ev_type ev = WorkflowCancellationRequested \<longrightarrow>
          (\<forall>e\<in>set es. ex_id e = w \<longrightarrow> ex_cancellation_requested_at e \<noteq> None))"

lemma journal_event:
  assumes ok: "journal_ok env w evs ts es" and "evs \<noteq> []" and "fits evs ev" and "named_event env w ev"
    and "settles w ev ts es"
  shows "journal_ok env w (evs @ [ev]) ts es"
proof -
  have "task_backed (evs @ [ev]) t" if t: "t \<in> set ts" "tk_workflow_id t = w" for t
  proof -
    have "task_backed evs t" using ok t by (simp add: journal_ok_def)
    moreover have "is_activity_close ev \<Longrightarrow> tk_task_type t = ActivityTask \<Longrightarrow> open_task t
        \<Longrightarrow> ev_entity_id ev \<noteq> tk_entity_id t"
      and "is_timer_close ev \<Longrightarrow> tk_task_type t = TimerTask \<Longrightarrow> open_task t
        \<Longrightarrow> ev_entity_id ev \<noteq> tk_entity_id t"
      using assms(5) t by (auto simp: settles_def)
    ultimately show ?thesis
      by (cases "tk_task_type t") (auto simp: task_backed_def scheduled_by_def not_ended_def)
  qed
  moreover have "execution_backed (evs @ [ev]) e" if e: "e \<in> set es" "ex_id e = w" for e
  proof -
    have "execution_backed evs e" using ok e by (simp add: journal_ok_def)
    moreover have "is_workflow_close ev \<Longrightarrow> ex_status e \<noteq> WfRunning"
      and "ev_type ev = WorkflowCancellationRequested \<Longrightarrow> ex_cancellation_requested_at e \<noteq> None"
      using assms(5) e by (simp_all add: settles_def)
    ultimately show ?thesis by (auto simp: execution_backed_def open_log_def)
  qed
  moreover have "child_backed (evs @ [ev]) e" if e: "e \<in> set es" "ex_parent_workflow_id e = Some w" for e
  proof -
    have "child_backed evs e" using ok e by (simp add: journal_ok_def)
    moreover have "is_child_close ev \<Longrightarrow> ex_status e = WfRunning \<Longrightarrow> ev_entity_id ev \<noteq> Some (ex_id e)"
      using assms(5) e by (auto simp: settles_def)
    ultimately show ?thesis by (auto simp: child_backed_def scheduled_by_def not_ended_def)
  qed
  ultimately show ?thesis using ok assms(2-4) by (simp add: journal_ok_def orderly_snoc)
qed

lemma settles_plain: "plain_event ev \<or> is_schedule ev \<Longrightarrow> settles w ev ts es"
  by (auto simp: plain_event_def settles_def event_kind_defs)

lemma plain_named: "\<not> is_schedule ev \<Longrightarrow> named_event env w ev"
  by (simp add: named_event_def)

lemma plain_not_schedule: "plain_event ev \<Longrightarrow> \<not> is_schedule ev"
  by (auto simp: plain_event_def event_kind_defs)

section \<open>New rows\<close>

lemma journal_parts:
  assumes "journal_ok env w evs ts es"
  shows "orderly evs" and "ev \<in> set evs \<Longrightarrow> named_event env w ev" and "one_open w ts"
    and "t \<in> set ts \<Longrightarrow> tk_workflow_id t = w \<Longrightarrow> task_backed evs t"
    and "e \<in> set es \<Longrightarrow> ex_id e = w \<Longrightarrow> execution_backed evs e"
    and "e \<in> set es \<Longrightarrow> ex_parent_workflow_id e = Some w \<Longrightarrow> child_backed evs e"
    and "evs = [] \<longleftrightarrow> w \<notin> ex_id ` set es"
  using assms by (simp_all add: journal_ok_def)

lemma journal_task:
  assumes ok: "journal_ok env w evs ts es" and "evs \<noteq> []" and "task_backed evs t" and "tk_workflow_id t = w"
    and "\<And>s. s \<in> set ts \<Longrightarrow> same_entity s t \<Longrightarrow> \<not> open_task s"
  shows "journal_ok env w evs (ts @ [t]) es"
proof -
  have "one_open w (ts @ [t])"
    using journal_parts(3)[OF ok] assms(5) by (auto simp: one_open_def same_entity_def)
  with ok assms(2-4) show ?thesis by (auto simp: journal_ok_def)
qed

lemma journal_child:
  assumes ok: "journal_ok env w evs ts es" and "child_backed evs e" and "ex_id e \<noteq> w"
  shows "journal_ok env w evs ts (es @ [e])"
  using ok assms(2,3) by (auto simp: journal_ok_def)

lemma journal_new:
  assumes ok: "journal_ok env w [] ts es" and "ev_type ev = WorkflowExecutionStarted"
    and "ex_id e = w" and "ex_parent_workflow_id e \<noteq> Some w"
  shows "journal_ok env w [ev] ts (es @ [e])"
proof -
  have free: "\<forall>r\<in>set es. ex_id r \<noteq> w \<and> ex_parent_workflow_id r \<noteq> Some w"
    using ok journal_child_evs[OF ok] by (auto simp: journal_ok_def)
  have "fits [] ev" using assms(2) by (simp add: fits_def event_ok_def event_kind_defs)
  then have "orderly [ev]" using orderly_snoc[of "[]" ev] by simp
  moreover have "named_event env w ev" "open_log [ev]"
    using assms(2) by (simp_all add: named_event_def open_log_def event_kind_defs)
  ultimately show ?thesis
    using ok assms(2-4) free by (auto simp: journal_ok_def execution_backed_def)
qed

section \<open>New commands\<close>

definition command_ids :: "history_event list \<Rightarrow> int set" where
  "command_ids evs = {c. \<exists>ev\<in>set evs. is_schedule ev \<and> ev_command_id ev = Some c}"

definition ENTITY_KINDS :: "string list" where
  "ENTITY_KINDS = [''activity'', ''timer'', ''signal-timeout'', ''child'', ''continue-as-new'']"

text \<open>
  The hash behind entity ids does not map the names of two of these commands of the workflow to one id.
\<close>

definition collision_free :: "pyenv \<Rightarrow> uuid \<Rightarrow> int set \<Rightarrow> bool" where
  "collision_free env w C \<longleftrightarrow>
     (\<forall>c\<in>C. \<forall>c'\<in>C. \<forall>k\<in>set ENTITY_KINDS. \<forall>k'\<in>set ENTITY_KINDS.
        py_uuid5 env (entity_name w k c) = py_uuid5 env (entity_name w k' c') \<longrightarrow> c = c')"

lemma collision_freeD:
  assumes "collision_free env w C" and "named env w ty c en" and "named env w ty' c' en"
    and "c \<in> C" and "c' \<in> C"
  shows "c = c'"
proof -
  have "set (entity_kinds ty) \<subseteq> set ENTITY_KINDS" for ty by (cases ty) (auto simp: ENTITY_KINDS_def)
  with assms show ?thesis unfolding named_def collision_free_def by blast
qed

lemma command_ids_simps [simp]:
  "command_ids [] = {}" "command_ids evs \<subseteq> command_ids (evs @ evs')"
  by (auto simp: command_ids_def)

text \<open>What ends has been scheduled.\<close>

lemma orderly_ended:
  assumes "orderly evs" and "x \<in> set evs"
  shows "is_activity_close x \<Longrightarrow> scheduled_by ActivityScheduled evs (ev_entity_id x)"
    and "is_timer_close x \<Longrightarrow> scheduled_by TimerStarted evs (ev_entity_id x)"
    and "is_child_close x \<Longrightarrow> scheduled_by ChildWorkflowStarted evs (ev_entity_id x)"
proof -
  obtain i where i: "i < length evs" "evs ! i = x" using assms(2) by (auto simp: in_set_conv_nth)
  then have "fits (take i evs) x" using assms(1) by (auto simp: orderly_def)
  then have ok: "event_ok (take i evs) (x\<lparr>ev_seq := int (length (take i evs)) + 1\<rparr>)"
    by (simp add: fits_def)
  have sub: "set (take i evs) \<subseteq> set evs" by (rule set_take_subset)
  show "is_activity_close x \<Longrightarrow> scheduled_by ActivityScheduled evs (ev_entity_id x)"
    using ok sub by (auto simp: event_ok_def terminal_ok_def scheduled_by_def is_activity_close_def)
  show "is_timer_close x \<Longrightarrow> scheduled_by TimerStarted evs (ev_entity_id x)"
    using ok sub by (auto simp: event_ok_def terminal_ok_def scheduled_by_def)
  show "is_child_close x \<Longrightarrow> scheduled_by ChildWorkflowStarted evs (ev_entity_id x)"
    using ok sub by (auto simp: event_ok_def terminal_ok_def scheduled_by_def)
qed

lemma orderly_entity:
  assumes "orderly evs" and "scheduled_by ty evs en" and "ty \<in> set ENTITY_EVENT_TYPES"
  shows "en \<noteq> None"
proof -
  obtain x where x: "x \<in> set evs" "ev_type x = ty" "ev_entity_id x = en"
    using assms(2) by (auto simp: scheduled_by_def)
  obtain i where i: "i < length evs" "evs ! i = x" using x(1) by (auto simp: in_set_conv_nth)
  then have "event_ok (take i evs) (x\<lparr>ev_seq := int (length (take i evs)) + 1\<rparr>)"
    using assms(1) by (auto simp: orderly_def fits_def)
  moreover have "is_schedule x" using assms(3) x(2) by (auto simp: event_kind_defs)
  ultimately show ?thesis using assms(3) x(2,3) by (auto simp: event_ok_def schedule_ok_def)
qed

lemma not_scheduled_not_ended:
  assumes "orderly evs"
  shows "\<not> scheduled_by ActivityScheduled evs en \<Longrightarrow> not_ended is_activity_close evs en"
    and "\<not> scheduled_by TimerStarted evs en \<Longrightarrow> not_ended is_timer_close evs en"
    and "\<not> scheduled_by ChildWorkflowStarted evs en \<Longrightarrow> not_ended is_child_close evs en"
  using orderly_ended[OF assms] by (auto simp: not_ended_def)

text \<open>A new command id gives a new entity.\<close>

lemma new_entity:
  assumes ok: "journal_ok env w evs ts es" and free: "collision_free env w C" and "command_ids evs \<subseteq> C"
    and "c \<in> C" and "c \<notin> command_ids evs" and "named env w ty c en"
    and x: "x \<in> set evs" "is_schedule x"
  shows "ev_entity_id x \<noteq> Some en"
proof
  assume en: "ev_entity_id x = Some en"
  with x journal_parts(2)[OF ok x(1)] obtain c' where c': "ev_command_id x = Some c'"
    "named env w (ev_type x) c' en" by (auto simp: named_event_def)
  then have "c' \<in> command_ids evs" using x by (auto simp: command_ids_def)
  with collision_freeD[OF free assms(6) c'(2)] assms(3-5) show False by auto
qed

lemma journal_schedule:
  assumes ok: "journal_ok env w evs ts es" and free: "collision_free env w C"
    and ids: "command_ids (evs @ [ev]) \<subseteq> C" and "evs \<noteq> []" and "open_log evs"
    and ev: "is_schedule ev" "ev_command_id ev = Some c" and new: "c \<notin> command_ids evs"
    and en: "\<And>e. ev_entity_id ev = Some e \<Longrightarrow> named env w (ev_type ev) c e"
    and "ev_type ev \<in> set ENTITY_EVENT_TYPES \<Longrightarrow> ev_entity_id ev \<noteq> None"
  shows "journal_ok env w (evs @ [ev]) ts es"
    and "\<And>e ty. ev_entity_id ev = Some e \<Longrightarrow> ty \<in> set SCHEDULE_EVENT_TYPES \<Longrightarrow> \<not> scheduled_by ty evs (Some e)"
proof -
  have c: "c \<in> C" and old: "command_ids evs \<subseteq> C"
    using ids ev by (auto simp: command_ids_def)
  have fresh: "ev_entity_id x \<noteq> Some e" if "ev_entity_id ev = Some e" "x \<in> set evs" "is_schedule x" for e x
    by (rule new_entity[OF ok free old c new en[OF that(1)] that(2,3)])
  then show "\<not> scheduled_by ty evs (Some e)"
    if "ev_entity_id ev = Some e" "ty \<in> set SCHEDULE_EVENT_TYPES" for e ty
    using that by (auto simp: scheduled_by_def is_schedule_def)
  have "schedule_ok evs ev"
    unfolding schedule_ok_def
  proof (intro conjI ballI impI)
    show "ev_entity_id x \<noteq> ev_entity_id ev" if "ev_entity_id ev \<noteq> None" "x \<in> set evs" "is_schedule x" for x
      using fresh that by auto
    show "ev_command_id x \<noteq> ev_command_id ev" if "x \<in> set evs" "is_schedule x" for x
      using new that ev(2) by (auto simp: command_ids_def)
  qed (use ev(2) assms(10) in auto)
  then have "fits evs ev" by (rule fits_schedule[OF ev(1) assms(5)])
  moreover have "named_event env w ev" using ev en by (simp add: named_event_def)
  ultimately show "journal_ok env w (evs @ [ev]) ts es"
    using journal_event[OF ok assms(4)] settles_plain ev(1) by blast
qed

text \<open>The row that a command adds besides its event.\<close>

lemma journal_schedule_task:
  assumes ok: "journal_ok env w evs ts es" and fresh: "\<not> scheduled_by (ev_type ev) evs (ev_entity_id ev)"
    and ok': "journal_ok env w (evs @ [ev]) ts es" and "evs \<noteq> []"
    and t: "(ev_type ev, tk_task_type t) \<in> {(ActivityScheduled, ActivityTask), (TimerStarted, TimerTask)}"
      "tk_workflow_id t = w" "tk_entity_id t = ev_entity_id ev"
  shows "journal_ok env w (evs @ [ev]) (ts @ [t]) es"
proof (rule journal_task[OF ok' _ _ t(2)])
  have "\<not> is_activity_close ev" "\<not> is_timer_close ev" using t(1) by (auto simp: event_kind_defs)
  note kinds = this
  note ends = not_scheduled_not_ended(1,2)[OF journal_parts(1)[OF ok], of "ev_entity_id ev"]
  consider "ev_type ev = ActivityScheduled" "tk_task_type t = ActivityTask"
    | "ev_type ev = TimerStarted" "tk_task_type t = TimerTask" using t(1) by auto
  then show "task_backed (evs @ [ev]) t"
  proof cases
    case 1
    with kinds(1) ends(1) fresh t(3) show ?thesis by (simp add: task_backed_def scheduled_by_def not_ended_def)
  next
    case 2
    with kinds(2) ends(2) fresh t(3) show ?thesis by (simp add: task_backed_def scheduled_by_def not_ended_def)
  qed
  fix s assume s: "s \<in> set ts" "same_entity s t"
  with t(2) have "tk_workflow_id s = w" by (simp add: same_entity_def)
  from journal_parts(4)[OF ok s(1) this] s(2) t fresh show "\<not> open_task s"
    by (auto simp: task_backed_def same_entity_def)
qed simp

lemma journal_schedule_child:
  assumes ok: "journal_ok env w evs ts es" and fresh: "\<not> scheduled_by ChildWorkflowStarted evs (ev_entity_id ev)"
    and ok': "journal_ok env w (evs @ [ev]) ts es"
    and "ev_type ev = ChildWorkflowStarted" and "ev_entity_id ev = Some (ex_id e)" and "ex_id e \<noteq> w"
  shows "journal_ok env w (evs @ [ev]) ts (es @ [e])"
proof (rule journal_child[OF ok' _ assms(6)])
  have "\<not> is_child_close ev" using assms(4) by (auto simp: event_kind_defs)
  then show "child_backed (evs @ [ev]) e"
    using assms(4,5) not_scheduled_not_ended(3)[OF journal_parts(1)[OF ok]] fresh
    by (auto simp: child_backed_def scheduled_by_def not_ended_def)
qed

end
