(* ===== verification/History_Laws.thy ===== *)
theory History_Laws
  imports System Journal
begin

text \<open>
  Every operation keeps the journal of every workflow in order, as long as task owners report on the
  task they were given and commit commands with the identities that replay computes. With the
  numbering of the events it follows that the replay index accepts every history.
\<close>

section \<open>The journal in the database\<close>

definition events :: "db \<Rightarrow> uuid \<Rightarrow> history_event list" where
  "events d w = map history_event_from_row (workflow_history d w)"

text \<open>
  \<open>C\<close> bounds the commands of the workflow; the statement is void once the history leaves it. \<open>K\<close> holds
  children whose end has yet to be reported to the workflow.
\<close>

definition awaited :: "history_event list \<Rightarrow> uuid \<Rightarrow> bool" where
  "awaited evs c \<longleftrightarrow> scheduled_by ChildWorkflowStarted evs (Some c) \<and> not_ended is_child_close evs (Some c)"

definition hist_ok :: "pyenv \<Rightarrow> int set \<Rightarrow> uuid set \<Rightarrow> uuid \<Rightarrow> db \<Rightarrow> bool" where
  "hist_ok env C K w d \<longleftrightarrow>
     (command_ids (events d w) \<subseteq> C \<longrightarrow>
        journal_ok env w (events d w) (db_tasks d) (db_executions d) \<and> (\<forall>c\<in>K. awaited (events d w) c))"

lemma hist_okD:
  assumes "hist_ok env C K w d" and "command_ids (events d w) \<subseteq> C"
  shows "journal_ok env w (events d w) (db_tasks d) (db_executions d)" and "c \<in> K \<Longrightarrow> awaited (events d w) c"
  using assms by (simp_all add: hist_ok_def)

lemma awaited_append:
  "awaited evs c \<Longrightarrow> is_child_close ev \<longrightarrow> ev_entity_id ev \<noteq> Some c \<Longrightarrow> awaited (evs @ [ev]) c"
  by (auto simp: awaited_def scheduled_by_def not_ended_def)

text \<open>A change that adds no event and no obligation to the journal of a workflow.\<close>

definition quiet :: "uuid \<Rightarrow> db \<Rightarrow> db \<Rightarrow> bool" where
  "quiet w d d' \<longleftrightarrow>
     events d' w = events d w \<and> tasks_close w (db_tasks d) (db_tasks d')
     \<and> rows_close w (db_executions d) (db_executions d')
     \<and> (w \<notin> ex_id ` set (db_executions d) \<longrightarrow> (\<forall>t\<in>set (db_tasks d). tk_workflow_id t \<noteq> w) \<longrightarrow>
          (\<forall>t\<in>set (db_tasks d'). tk_workflow_id t \<noteq> w))"

lemma task_le_trans: "task_le a b \<Longrightarrow> task_le b c \<Longrightarrow> task_le a c"
  by (auto simp: task_le_def same_entity_def)

lemma row_le_trans: "row_le a b \<Longrightarrow> row_le b c \<Longrightarrow> row_le a c"
  by (auto simp: row_le_def)

lemma le_refl [simp]: "task_le t t" "row_le e e"
  by (simp_all add: task_le_def same_entity_def row_le_def)

lemma closes_refl [simp]: "tasks_close w ts ts" "rows_close w es es"
  by (auto simp: tasks_close_def rows_close_def intro: le_refl)

lemma tasks_close_trans:
  assumes "tasks_close w a b" and "tasks_close w b c"
  shows "tasks_close w a c"
  unfolding tasks_close_def
proof (intro ballI impI)
  fix t assume t: "t \<in> set c" "tk_workflow_id t = w"
  show "tk_task_type t = WorkflowTask \<or> (\<exists>s\<in>set a. task_le s t)"
  proof (rule disjCI)
    assume no: "\<not> (\<exists>s\<in>set a. task_le s t)"
    show "tk_task_type t = WorkflowTask"
    proof (rule ccontr)
      assume "tk_task_type t \<noteq> WorkflowTask"
      with t assms(2) obtain s where s: "s \<in> set b" "task_le s t" by (auto simp: tasks_close_def)
      with t \<open>tk_task_type t \<noteq> WorkflowTask\<close> have "tk_workflow_id s = w" "tk_task_type s \<noteq> WorkflowTask"
        by (auto simp: task_le_def same_entity_def)
      with s(1) assms(1) obtain r where "r \<in> set a" "task_le r s" by (auto simp: tasks_close_def)
      with s(2) no task_le_trans show False by blast
    qed
  qed
qed

lemma rows_close_trans:
  assumes "rows_close w a b" and "rows_close w b c"
  shows "rows_close w a c"
  unfolding rows_close_def
proof (intro conjI ballI impI)
  show "w \<in> ex_id ` set c \<longleftrightarrow> w \<in> ex_id ` set a" using assms by (simp add: rows_close_def)
  fix e assume e: "e \<in> set c" "ex_id e = w \<or> ex_parent_workflow_id e = Some w"
  with assms(2) obtain r where r: "r \<in> set b" "row_le r e" unfolding rows_close_def by blast
  with e have "ex_id r = w \<or> ex_parent_workflow_id r = Some w" by (auto simp: row_le_def)
  with r(1) assms(1) obtain q where "q \<in> set a" "row_le q r" unfolding rows_close_def by blast
  with r(2) row_le_trans show "\<exists>q\<in>set a. row_le q e" by blast
qed

lemma quiet_refl [simp]: "quiet w d d"
  by (simp add: quiet_def)

lemma quiet_trans:
  assumes "quiet w a b" and "quiet w b c"
  shows "quiet w a c"
proof -
  have "w \<in> ex_id ` set (db_executions b) \<longleftrightarrow> w \<in> ex_id ` set (db_executions a)"
    using assms(1) by (simp add: quiet_def rows_close_def)
  with assms show ?thesis
    unfolding quiet_def by (metis tasks_close_trans rows_close_trans)
qed

lemma hist_ok_quiet:
  assumes "hist_ok env C K w d" and "quiet w d d'"
  shows "hist_ok env C K w d'"
  unfolding hist_ok_def
proof (intro impI conjI ballI)
  assume "command_ids (events d' w) \<subseteq> C"
  with assms have ids: "command_ids (events d w) \<subseteq> C" by (simp add: quiet_def)
  note ok = hist_okD(1)[OF assms(1) ids]
  show "awaited (events d' w) c" if "c \<in> K" for c
    using hist_okD(2)[OF assms(1) ids that] assms(2) by (simp add: quiet_def)
  have "journal_ok env w (events d w) (db_tasks d') (db_executions d')"
  proof (rule journal_closes[OF ok])
    assume "events d w = []"
    with ok have "w \<notin> ex_id ` set (db_executions d)" "\<forall>t\<in>set (db_tasks d). tk_workflow_id t \<noteq> w"
      by (auto simp: journal_ok_def)
    with assms(2) show "\<forall>t\<in>set (db_tasks d'). tk_workflow_id t \<noteq> w" unfolding quiet_def by blast
  qed (use assms(2) in \<open>simp_all add: quiet_def\<close>)
  with assms(2) show "journal_ok env w (events d' w) (db_tasks d') (db_executions d')"
    by (simp add: quiet_def)
qed

section \<open>Statements\<close>

lemma quiet_same:
  "db_executions d' = db_executions d \<Longrightarrow> db_history d' = db_history d \<Longrightarrow> db_tasks d' = db_tasks d
    \<Longrightarrow> quiet w d d'"
  by (simp add: quiet_def events_def workflow_history_def)

lemma quiet_updates: "quiet w d (update_updates p f d)"
  by (rule quiet_same) simp_all

lemma quiet_reject: "quiet w d (reject_pending_updates x v r d)"
  by (simp add: reject_pending_updates_def quiet_updates)

lemma quiet_audit: "record_api_audit x a v acc det d = Inr d' \<Longrightarrow> quiet w d d'"
  by (rule quiet_same) (auto dest: record_api_audit_frame)

lemma quiet_insert_update: "insert_update u d = Inr d' \<Longrightarrow> quiet w d d'"
  by (rule quiet_same) (auto dest: insert_update_frame)

lemma quiet_tasks:
  assumes "\<And>t. t \<in> set (db_tasks d) \<Longrightarrow> p t \<Longrightarrow> task_le t (f t)"
  shows "quiet w d (update_tasks p f d)"
proof -
  have "\<exists>t\<in>set (db_tasks d). task_le t t'" if t': "t' \<in> set (db_tasks (update_tasks p f d))" for t'
  proof -
    have "t' \<in> (\<lambda>t. if p t then f t else t) ` set (db_tasks d)" using t' by (simp add: update_tasks_def)
    then obtain t where "t \<in> set (db_tasks d)" "t' = (if p t then f t else t)" by blast
    with assms show ?thesis by (intro bexI[of _ t]) auto
  qed
  moreover have "tk_workflow_id t' = tk_workflow_id t" if "task_le t t'" for t t'
    using that by (simp add: task_le_def same_entity_def)
  ultimately show ?thesis
    unfolding quiet_def tasks_close_def by (simp add: events_def workflow_history_def) metis
qed

lemma task_le_finish [simp]: "s \<in> {TkCompleted, TkDead} \<Longrightarrow> task_le t (finish_task x s t)"
  by (auto simp: task_le_def same_entity_def finish_task_def open_task_def)

lemma quiet_finish: "s \<in> {TkCompleted, TkDead} \<Longrightarrow> quiet w d (update_tasks p (finish_task x s) d)"
  by (rule quiet_tasks) simp

lemma quiet_kill: "quiet w d (kill_tasks x v d)" "quiet w d (kill_other_tasks x v i d)"
  unfolding kill_tasks_def kill_other_tasks_def by (rule quiet_finish, simp)+

lemma quiet_complete: "complete_task x task d = Inr d' \<Longrightarrow> quiet w d d'"
  by (auto simp: complete_task_def intro: quiet_finish split: if_splits)

lemma quiet_workflow_task:
  assumes "insert_workflow_task x i v q d = Inr d'"
  shows "quiet w d d'"
proof -
  have "execution_exists d v" and d': "d' = d\<lparr>db_tasks := db_tasks d @ [workflow_task x i v q]\<rparr>"
    using assms by (auto simp: insert_workflow_task_def insert_task_def res_simps workflow_task_def)
  then show ?thesis
    by (auto simp: quiet_def events_def workflow_history_def tasks_close_def d' workflow_task_def
        execution_exists_iff intro: le_refl)
qed

lemma quiet_row:
  assumes "\<And>e. e \<in> set (db_executions d) \<Longrightarrow> ex_id e = v \<Longrightarrow> row_le e (f e)"
  shows "quiet w d (update_execution v f d)"
proof -
  let ?g = "\<lambda>e. if ex_id e = v then f e else e"
  have le: "row_le e (?g e)" if "e \<in> set (db_executions d)" for e using assms that by simp
  then have "ex_id (?g e) = ex_id e" if "e \<in> set (db_executions d)" for e using that by (simp add: row_le_def)
  then have "ex_id ` ?g ` set (db_executions d) = ex_id ` set (db_executions d)"
    unfolding image_image by (intro image_cong refl)
  moreover have exs: "set (db_executions (update_execution v f d)) = ?g ` set (db_executions d)"
    by (simp add: update_execution_def update_executions_def)
  moreover have "\<exists>e\<in>set (db_executions d). row_le e e'"
    if "e' \<in> set (db_executions (update_execution v f d))" for e'
    using that unfolding exs by (elim imageE) (metis le)
  ultimately have "rows_close w (db_executions d) (db_executions (update_execution v f d))"
    unfolding rows_close_def by simp
  then show ?thesis by (simp add: quiet_def events_def workflow_history_def)
qed

lemma updated_row:
  assumes "r \<in> set (db_executions (update_execution v f d))" and "ex_id r = v"
    and "\<And>e. ex_id (f e) = ex_id e"
  shows "\<exists>e\<in>set (db_executions d). r = f e"
proof -
  obtain e where "e \<in> set (db_executions d)" "r = (if ex_id e = v then f e else e)"
    using assms(1) by (auto simp: update_execution_def update_executions_def)
  with assms(2,3) show ?thesis by (cases "ex_id e = v") auto
qed

lemma quiet_set_next_seq: "quiet w d (set_next_seq v n d)"
  unfolding set_next_seq_def by (rule quiet_row) (simp add: row_le_def)

lemma events_append:
  assumes "insert_event x v n ty c en ext attrs d = Inr d'"
  shows "events d' w = events d w @
    (if v = w then [history_event_from_row (history_entry x v n ty c en ext attrs)] else [])"
  using insert_event_frame(5)[OF assms] by (simp add: events_def workflow_history_def history_entry_def)

lemma quiet_event: "insert_event x v n ty c en ext attrs d = Inr d' \<Longrightarrow> v \<noteq> w \<Longrightarrow> quiet w d d'"
  using events_append[of x v n ty c en ext attrs d d' w] insert_event_frame(1,2)[of x v n ty c en ext attrs d d']
  by (simp add: quiet_def)

lemma recorded_simps [simp]:
  "ev_type (history_event_from_row (history_entry x v n ty c en ext attrs)) = ty"
  "ev_command_id (history_event_from_row (history_entry x v n ty c en ext attrs)) = c"
  "ev_entity_id (history_event_from_row (history_entry x v n ty c en ext attrs)) = en"
  "ev_external_id (history_event_from_row (history_entry x v n ty c en ext attrs)) = ext"
  "ev_attributes (history_event_from_row (history_entry x v n ty c en ext attrs)) = jsonb_object attrs"
  by (simp_all add: history_event_from_row_def history_entry_def)

section \<open>One event\<close>

lemma insert_event_exists:
  "insert_event x v n ty c en ext attrs d = Inr d' \<Longrightarrow> v \<in> ex_id ` set (db_executions d)"
  by (auto simp: insert_event_def insert_history_def res_simps execution_exists_iff history_entry_def)

lemma closes_around:
  assumes "quiet w d da" and "insert_event x v n ty c en ext attrs da = Inr d1" and "quiet w d1 d2"
  shows "tasks_close w (db_tasks d) (db_tasks d2)" and "rows_close w (db_executions d) (db_executions d2)"
proof -
  have "tasks_close w (db_tasks d) (db_tasks d1)" "rows_close w (db_executions d) (db_executions d1)"
    using assms(1) insert_event_frame(1,2)[OF assms(2)] by (simp_all add: quiet_def)
  moreover have "tasks_close w (db_tasks d1) (db_tasks d2)" "rows_close w (db_executions d1) (db_executions d2)"
    using assms(3) by (simp_all add: quiet_def)
  ultimately show "tasks_close w (db_tasks d) (db_tasks d2)" "rows_close w (db_executions d) (db_executions d2)"
    using tasks_close_trans rows_close_trans by blast+
qed

text \<open>An event among changes that only close: what it needs is judged before, what it settles after.\<close>

lemma hist_event:
  fixes x v n ty c en ext attrs
  defines "ev \<equiv> history_event_from_row (history_entry x v n ty c en ext attrs)"
  assumes q0: "quiet w d da" and ins: "insert_event x v n ty c en ext attrs da = Inr d1" and q: "quiet w d1 d2"
    and ok: "hist_ok env C K w d"
    and new: "v = w \<Longrightarrow> journal_ok env w (events d w) (db_tasks d) (db_executions d) \<Longrightarrow>
      fits (events d w) ev \<and> named_event env w ev \<and> settles w ev (db_tasks d2) (db_executions d2)
      \<and> (is_child_close ev \<longrightarrow> en \<notin> Some ` K)"
  shows "hist_ok env C K w d2"
proof (cases "v = w")
  case False
  from hist_ok_quiet[OF ok quiet_trans[OF q0 quiet_trans[OF quiet_event[OF ins False] q]]] show ?thesis .
next
  case True
  have ev: "events d2 w = events d w @ [ev]"
    using events_append[OF ins, of w] q q0 True by (simp add: quiet_def ev_def)
  show ?thesis unfolding hist_ok_def
  proof (intro impI conjI ballI)
    assume "command_ids (events d2 w) \<subseteq> C"
    then have ids: "command_ids (events d w) \<subseteq> C"
      using command_ids_simps(2) unfolding ev by blast
    note j = hist_okD(1)[OF ok ids] and n = new[OF True hist_okD(1)[OF ok ids]]
    show "awaited (events d2 w) k" if "k \<in> K" for k
      unfolding ev by (rule awaited_append[OF hist_okD(2)[OF ok ids that]]) (use n that in \<open>auto simp: ev_def\<close>)
    have ne: "events d w \<noteq> []"
      using journal_parts(7)[OF j] insert_event_exists[OF ins] True q0 by (simp add: quiet_def rows_close_def)
    have "journal_ok env w (events d w) (db_tasks d2) (db_executions d2)"
      by (rule journal_closes[OF j closes_around[OF q0 ins q]]) (use ne in simp)
    with journal_event ne n show "journal_ok env w (events d2 w) (db_tasks d2) (db_executions d2)"
      unfolding ev by blast
  qed
qed

lemma running_open_log:
  assumes "journal_ok env w evs ts (db_executions d)" and "find_execution d w = Some e" and "ex_status e = WfRunning"
  shows "open_log evs"
proof -
  have "execution_backed evs e" using journal_parts(5)[OF assms(1)] find_execution_Some[OF assms(2)] by blast
  with assms(3) show ?thesis by (simp add: execution_backed_def)
qed

lemma other_kinds:
  "plain_event ev \<Longrightarrow> \<not> is_schedule ev \<and> \<not> is_child_close ev"
  "is_workflow_close ev \<Longrightarrow> \<not> is_schedule ev \<and> \<not> is_child_close ev"
  "is_timer_close ev \<Longrightarrow> \<not> is_schedule ev \<and> \<not> is_child_close ev"
  "ev_type ev \<in> set ACTIVITY_TERMINAL_EVENT_TYPES \<Longrightarrow> \<not> is_schedule ev \<and> \<not> is_child_close ev"
  "is_child_close ev \<Longrightarrow> \<not> is_schedule ev"
  "is_schedule ev \<Longrightarrow> \<not> is_child_close ev"
  by (auto simp: plain_event_def event_kind_defs)

text \<open>Events without obligations, and whatever closes around them.\<close>

lemma hist_plain:
  assumes "quiet w d da" and "insert_event x v n ty c en ext attrs da = Inr d1" and "quiet w d1 d2"
    and "hist_ok env C K w d" and "find_execution d v = Some e" and "ex_status e = WfRunning"
    and plain: "plain_event (history_event_from_row (history_entry x v n ty c en ext attrs))"
  shows "hist_ok env C K w d2"
proof (rule hist_event[OF assms(1-4)], intro conjI)
  assume "v = w" and j: "journal_ok env w (events d w) (db_tasks d) (db_executions d)"
  with assms(5,6) running_open_log have "open_log (events d w)" by blast
  then show "fits (events d w) (history_event_from_row (history_entry x v n ty c en ext attrs))"
    by (rule fits_plain[OF plain])
qed (use plain other_kinds(1)[OF plain] settles_plain in \<open>auto simp: named_event_def\<close>)

text \<open>The last event of a workflow.\<close>

lemma hist_close:
  assumes "quiet w d da" and "insert_event x v n ty c en ext attrs da = Inr d1" and "quiet w d1 d2"
    and "hist_ok env C K w d" and "find_execution d v = Some e" and "ex_status e = WfRunning"
    and ty: "ty \<in> set WORKFLOW_TERMINAL_EVENT_TYPES"
    and "\<And>r. r \<in> set (db_executions d2) \<Longrightarrow> ex_id r = v \<Longrightarrow> ex_status r \<noteq> WfRunning"
  shows "hist_ok env C K w d2"
proof (rule hist_event[OF assms(1-4)])
  let ?ev = "history_event_from_row (history_entry x v n ty c en ext attrs)"
  assume v: "v = w" and j: "journal_ok env w (events d w) (db_tasks d) (db_executions d)"
  with assms(5,6) running_open_log have opn: "open_log (events d w)" by blast
  have close: "is_workflow_close ?ev" using ty by (simp add: is_workflow_close_def)
  moreover have "settles w ?ev (db_tasks d2) (db_executions d2)"
    using close assms(8) v ty by (auto simp: settles_def event_kind_defs)
  ultimately show "fits (events d w) ?ev \<and> named_event env w ?ev
      \<and> settles w ?ev (db_tasks d2) (db_executions d2) \<and> (is_child_close ?ev \<longrightarrow> en \<notin> Some ` K)"
    using fits_workflow_close[OF close opn] other_kinds(2)[OF close] by (simp add: named_event_def)
qed

text \<open>A task reports: its entity has not ended, and no other open task stands for it.\<close>

lemma hist_task_event:
  assumes q0: "quiet w d da" and ins: "insert_event x v n ty c (tk_entity_id t) ext attrs da = Inr d1"
    and q: "quiet w d1 d2" and ok: "hist_ok env C K w d"
    and run: "find_execution d v = Some e" "ex_status e = WfRunning"
    and t: "t \<in> set (db_tasks d)" "tk_workflow_id t = v" "open_task t"
      "(tk_task_type t = ActivityTask \<and> ty \<in> set ACTIVITY_TERMINAL_EVENT_TYPES)
       \<or> (tk_task_type t = TimerTask \<and> ty \<in> set TIMER_TERMINAL_EVENT_TYPES)"
    and closed: "\<And>s. s \<in> set (db_tasks d2) \<Longrightarrow> tk_id s = tk_id t \<Longrightarrow> tk_task_type s = tk_task_type t
      \<Longrightarrow> \<not> open_task s"
  shows "hist_ok env C K w d2"
proof (rule hist_event[OF q0 ins q ok])
  let ?ev = "history_event_from_row (history_entry x v n ty c (tk_entity_id t) ext attrs)"
  assume v: "v = w" and j: "journal_ok env w (events d w) (db_tasks d) (db_executions d)"
  with run running_open_log have opn: "open_log (events d w)" by blast
  have backed: "task_backed (events d w) t" using journal_parts(4)[OF j t(1)] t(2) v by simp
  have sched: "scheduled_by ty' (events d w) (tk_entity_id t) \<Longrightarrow> tk_entity_id t \<noteq> None"
    if "ty' \<in> set ENTITY_EVENT_TYPES" for ty' using orderly_entity[OF journal_parts(1)[OF j]] that by blast
  have one: "\<not> open_task s" if s: "s \<in> set (db_tasks d2)" "tk_workflow_id s = w"
    "tk_task_type s = tk_task_type t" "tk_entity_id s = tk_entity_id t" for s
  proof
    assume "open_task s"
    note closes_around(1)[OF q0 ins q]
    moreover have "tk_task_type s \<noteq> WorkflowTask" using s(3) t(4) by auto
    ultimately obtain s0 where s0: "s0 \<in> set (db_tasks d)" "task_le s0 s"
      using s(1,2) by (auto simp: tasks_close_def)
    have "tk_id t = tk_id s0"
      using journal_parts(3)[OF j] t s(2-4) s0 v \<open>open_task s\<close>
      unfolding one_open_def task_le_def same_entity_def by (metis task_type.distinct)
    with s0(2) closed[OF s(1) _ s(3)] \<open>open_task s\<close> show False by (simp add: task_le_def)
  qed
  show "fits (events d w) ?ev \<and> named_event env w ?ev
      \<and> settles w ?ev (db_tasks d2) (db_executions d2) \<and> (is_child_close ?ev \<longrightarrow> tk_entity_id t \<notin> Some ` K)"
    using t(4)
  proof
    assume a: "tk_task_type t = ActivityTask \<and> ty \<in> set ACTIVITY_TERMINAL_EVENT_TYPES"
    then have "terminal_ok ActivityScheduled is_activity_close (events d w) ?ev"
      using backed t(3) sched[of ActivityScheduled]
      by (auto simp: task_backed_def terminal_ok_def scheduled_by_def not_ended_def event_kind_defs)
    then have "fits (events d w) ?ev" using a by (intro fits_terminal(1)[OF opn]) simp_all
    moreover have "settles w ?ev (db_tasks d2) (db_executions d2)"
      using a one by (auto simp: settles_def event_kind_defs)
    ultimately show ?thesis using a other_kinds(4)[of ?ev] by (simp add: named_event_def)
  next
    assume a: "tk_task_type t = TimerTask \<and> ty \<in> set TIMER_TERMINAL_EVENT_TYPES"
    then have timer: "is_timer_close ?ev" by (simp add: is_timer_close_def)
    have "terminal_ok TimerStarted is_timer_close (events d w) ?ev"
      using a backed t(3) sched[of TimerStarted]
      by (auto simp: task_backed_def terminal_ok_def scheduled_by_def not_ended_def event_kind_defs)
    then have "fits (events d w) ?ev" by (rule fits_terminal(2)[OF opn timer])
    moreover have "settles w ?ev (db_tasks d2) (db_executions d2)"
      using a one by (auto simp: settles_def event_kind_defs)
    ultimately show ?thesis using other_kinds(3)[OF timer] by (simp add: named_event_def)
  qed
qed

end
