(* ===== verification/History_Operations.thy ===== *)
theory History_Operations
  imports History_Laws
begin

text \<open>
  The operations of the engine on the journals: the locale \<open>journaled\<close> is the contract, interpreted for
  every operation that needs no help from its caller; the operations of task owners keep the journal when
  the owner reports on the task it was given.
\<close>

section \<open>The contract\<close>

locale journaled =
  fixes op :: "'a txn"
  assumes keeps: "committed d \<Longrightarrow> op d = Inr (d', r) \<Longrightarrow> hist_ok env C {} w d \<Longrightarrow> hist_ok env C {} w d'"
begin

lemma transact_keeps: "committed d \<Longrightarrow> hist_ok env C {} w d \<Longrightarrow> hist_ok env C {} w (transact op d)"
  by (auto simp: transact_def split: sum.splits intro: keeps)

end

lemma journaled_quiet:
  assumes "\<And>w d d' r. committed d \<Longrightarrow> op d = Inr (d', r) \<Longrightarrow> quiet w d d'"
  shows "journaled op"
  by unfold_locales (blast intro: hist_ok_quiet assms)

section \<open>Quiet operations\<close>

lemma task_le_simps [simp]:
  "task_le t (t\<lparr>tk_lease_expires_at := v\<rparr>)"
  "task_le t (t\<lparr>tk_heartbeat_at := a, tk_heartbeat_details := b, tk_lease_expires_at := v\<rparr>)"
  "task_le t (t\<lparr>tk_visible_at := u, tk_schedule_to_start_deadline := s\<rparr>)"
  by (simp_all add: task_le_def same_entity_def open_task_def)

lemma task_le_pending:
  "open_task t \<Longrightarrow> task_le t (t\<lparr>tk_status := TkPending, tk_visible_at := v, tk_leased_at := a,
    tk_lease_token := b, tk_lease_expires_at := c\<rparr>)"
  "open_task t \<Longrightarrow> task_le t (t\<lparr>tk_status := TkPending, tk_visible_at := v, tk_leased_at := a,
    tk_lease_token := b, tk_lease_expires_at := c, tk_start_to_close_deadline := e,
    tk_heartbeat_at := f, tk_heartbeat_details := g\<rparr>)"
  by (simp_all add: task_le_def same_entity_def open_task_def)

lemma holds_lease_open: "holds_lease x i tok t \<Longrightarrow> open_task t"
  by (simp add: holds_lease_def open_task_def)

interpretation renew_journal: journaled "renew_lease env x i tok dur" for env x i tok dur
  by (rule journaled_quiet) (auto simp: renew_lease_def Let_def res_simps intro!: quiet_tasks split: if_splits)

interpretation heartbeat_journal: journaled "heartbeat_activity env x i tok det dur" for env x i tok det dur
  by (rule journaled_quiet)
    (auto simp: heartbeat_activity_def Let_def res_simps intro!: quiet_tasks split: if_splits)

interpretation release_journal: journaled "release_workflow_task env x task delay" for env x task delay
  by (rule journaled_quiet)
    (auto simp: release_workflow_task_def Let_def res_simps
      intro!: quiet_tasks task_le_pending holds_lease_open split: if_splits)

interpretation reclaim_journal: journaled "reclaim_expired_workflow_tasks x limit" for x limit
proof (rule journaled_quiet)
  fix w d d' r
  assume ok: "committed d" and op: "reclaim_expired_workflow_tasks x limit d = Inr (d', r)"
  define ts where "ts = select_limit limit
    (\<lambda>t. tk_task_type t = WorkflowTask \<and> tk_status t = TkLeased \<and> lease_expired x t
       \<and> tk_id t \<notin> set (tx_locked x)
       \<and> (case find_execution d (tk_workflow_id t) of None \<Rightarrow> False | Some e \<Rightarrow> ex_status e = WfRunning))
    (\<lambda>t. (the (tk_lease_expires_at t), tk_id t)) (db_tasks d)"
  have ts: "set ts \<subseteq> {t \<in> set (db_tasks d). tk_status t = TkLeased}"
    using set_select_limit unfolding ts_def by fastforce
  from op have d': "d' = update_tasks (\<lambda>t. tk_id t \<in> set (map tk_id ts))
      (\<lambda>t. t\<lparr>tk_status := TkPending, tk_visible_at := tx_now x, tk_leased_at := None,
             tk_lease_token := None, tk_lease_expires_at := None,
             tk_start_to_close_deadline := None, tk_heartbeat_at := None,
             tk_heartbeat_details := None\<rparr>) d"
    by (simp add: reclaim_expired_workflow_tasks_def Let_def ts_def split: if_splits)
  show "quiet w d d'"
    unfolding d'
  proof (rule quiet_tasks, rule task_le_pending(2))
    fix t assume "t \<in> set (db_tasks d)" "tk_id t \<in> set (map tk_id ts)"
    then obtain s where "s \<in> set ts" "tk_id s = tk_id t" by auto
    with ts committed_task_unique[OF ok] \<open>t \<in> set (db_tasks d)\<close> have "tk_status t = TkLeased" by fastforce
    then show "open_task t" by (simp add: open_task_def)
  qed
qed

interpretation attributes_journal: journaled "update_search_attributes env x v attrs unset a"
  for env x v attrs unset a
proof (rule journaled_quiet)
  fix w d d' r
  assume "update_search_attributes env x v attrs unset a d = Inr (d', r)"
  then obtain m det where "record_api_audit x a (Some v) True det
      (update_execution v (\<lambda>r. r\<lparr>ex_search_attributes := m\<rparr>) d) = Inr d'"
    by (auto simp: update_search_attributes_def res_simps Let_def)
  from quiet_trans[OF quiet_row quiet_audit[OF this]] show "quiet w d d'" by (simp add: row_le_def)
qed

interpretation register_journal: journaled "register_workflow_definition n v h" for n v h
  by (rule journaled_quiet)
    (auto simp: register_workflow_definition_def res_simps Let_def intro!: quiet_same split: if_splits)

interpretation effect_journal: journaled "record_idempotent_effect x k p" for x k p
  by (rule journaled_quiet) (auto simp: record_idempotent_effect_def intro!: quiet_same split: if_splits)

interpretation worker_journal: journaled "heartbeat_worker x w h p q roles" for x w h p q roles
  by (rule journaled_quiet) (auto dest: heartbeat_worker_Inr intro!: quiet_same)

interpretation stop_worker_journal: journaled "stop_worker x w" for x w
  by (rule journaled_quiet) (auto simp: stop_worker_def intro!: quiet_same)

lemma quiet_schedule_statements:
  "insert_schedule env s d = Inr d' \<Longrightarrow> quiet w d d'" "insert_occurrence r d = Inr d' \<Longrightarrow> quiet w d d'"
  "quiet w d (update_schedule i f d)" "quiet w d (update_occurrences p g d)"
  by (rule quiet_same; auto simp: insert_schedule_def insert_occurrence_def update_schedule_def
      update_occurrences_def res_simps)+

interpretation create_schedule_journal:
  journaled "create_schedule env zs x n wt v i c tz q sa op clk a" for env zs x n wt v i c tz q sa op clk a
proof (rule journaled_quiet)
  fix w d d' r
  assume "create_schedule env zs x n wt v i c tz q sa op clk a d = Inr (d', r)"
  then obtain s d1 det where "insert_schedule env s d = Inr d1" "record_api_audit x a None True det d1 = Inr d'"
    by (auto simp: create_schedule_def Let_def res_simps)
  then show "quiet w d d'" by (blast intro: quiet_trans quiet_schedule_statements(1) quiet_audit)
qed

interpretation pause_schedule_journal: journaled "set_schedule_paused zs x i p clk a" for zs x i p clk a
proof (rule journaled_quiet)
  fix w d d' r
  assume "set_schedule_paused zs x i p clk a d = Inr (d', r)"
  then obtain f b det d1 where "record_api_audit x a None b det d1 = Inr d'" "d1 = d \<or> d1 = update_schedule i f d"
    by (auto simp: set_schedule_paused_def Let_def res_simps split: option.splits if_splits)
  then show "quiet w d d'" by (blast intro: quiet_trans quiet_schedule_statements(3) quiet_audit)
qed

lemma quiet_duplicate: "duplicate_request x a v reason d = Inr (d', r) \<Longrightarrow> quiet w d d'"
  by (auto simp: duplicate_request_def res_simps intro: quiet_audit)

section \<open>Requests from outside\<close>

interpretation signal_journal: journaled "send_signal x v i n p a" for x v i n p a
proof
  fix env C w d d' r
  assume op: "send_signal x v i n p a d = Inr (d', r)" and ok: "hist_ok env C {} w d"
  obtain e where e: "find_execution d v = Some e" and n: "n \<noteq> []"
    using op by (auto simp: send_signal_def res_simps)
  show "hist_ok env C {} w d'"
  proof (cases "external_id_used d v i")
    case True
    with op e ok show ?thesis
      by (auto simp: send_signal_def res_simps intro: hist_ok_quiet quiet_audit)
  next
    case False
    with op e obtain d1 d2 det where run: "ex_status e = WfRunning"
      and 1: "insert_event x v (ex_next_seq e) SignalReceived None None (Some i)
           [(''name'', JStr n), (''payload'', clone_json p)] d = Inr d1"
      and 2: "insert_workflow_task x (tx_uuid x 0) v (ex_queue_name e) d1 = Inr d2"
      and 3: "record_api_audit x a (Some v) True det (set_next_seq v (ex_next_seq e + 1) d2) = Inr d'"
      by (auto simp: send_signal_def res_simps)
    have "quiet w d1 d'"
      using quiet_workflow_task[OF 2] quiet_set_next_seq quiet_audit[OF 3] by (blast intro: quiet_trans)
    from hist_plain[OF quiet_refl 1 this ok e run] n show ?thesis
      by (simp add: plain_event_def dget_jsonb_object)
  qed
qed

interpretation update_journal: journaled "send_update x v i n p a" for x v i n p a
proof
  fix env C w d d' r
  assume op: "send_update x v i n p a d = Inr (d', r)" and ok: "hist_ok env C {} w d"
  obtain e where e: "find_execution d v = Some e" and n: "n \<noteq> []" "i \<noteq> []"
    using op by (auto simp: send_update_def res_simps)
  show "hist_ok env C {} w d'"
  proof (cases "find_update d v i")
    case (Some u)
    with op e ok show ?thesis
      by (auto simp: send_update_def res_simps intro: hist_ok_quiet quiet_audit)
  next
    case None
    with op e obtain u d0 d1 d2 det where run: "ex_status e = WfRunning"
      and 0: "insert_update u d = Inr d0"
      and 1: "insert_event x v (ex_next_seq e) WorkflowUpdateReceived None None (Some (''update:'' @ i))
           [(''update_id'', JStr i), (''name'', JStr n), (''payload'', clone_json p)] d0 = Inr d1"
      and 2: "insert_workflow_task x (tx_uuid x 0) v (ex_queue_name e) d1 = Inr d2"
      and 3: "record_api_audit x a (Some v) True det (set_next_seq v (ex_next_seq e + 1) d2) = Inr d'"
      by (auto simp: send_update_def res_simps Let_def)
    have "quiet w d1 d'"
      using quiet_workflow_task[OF 2] quiet_set_next_seq quiet_audit[OF 3] by (blast intro: quiet_trans)
    from hist_plain[OF quiet_insert_update[OF 0] 1 this ok e run] n show ?thesis
      by (simp add: plain_event_def dget_jsonb_object)
  qed
qed

interpretation pause_journal: journaled "pause_workflow x v reason a" for x v reason a
proof
  fix env C w d d' r
  assume op: "pause_workflow x v reason a d = Inr (d', r)" and ok: "hist_ok env C {} w d"
  obtain e where e: "find_execution d v = Some e" and run: "ex_status e = WfRunning"
    using op by (auto simp: pause_workflow_def res_simps split: if_splits)
  show "hist_ok env C {} w d'"
  proof (cases "ex_paused_at e")
    case None
    with op e run obtain d1 f where 1: "insert_event x v (ex_next_seq e) WorkflowExecutionPaused None None
        None [(''reason'', reason_json reason)] d = Inr d1"
      and 2: "record_api_audit x a (Some v) True (JObj [(''reason'', reason_json reason)])
        (update_execution v f d1) = Inr d'" and f: "\<And>r. row_le r (f r)"
      by (auto simp: pause_workflow_def res_simps Let_def row_le_def)
    have "quiet w d1 d'" using quiet_row[OF f] quiet_audit[OF 2] by (blast intro: quiet_trans)
    from hist_plain[OF quiet_refl 1 this ok e run] show ?thesis by (simp add: plain_event_def)
  next
    case (Some t)
    with op e run ok show ?thesis by (auto simp: pause_workflow_def intro: hist_ok_quiet quiet_duplicate)
  qed
qed

interpretation resume_journal: journaled "resume_workflow env' x v reason a" for env' x v reason a
proof
  fix env C w d d' r
  assume op: "resume_workflow env' x v reason a d = Inr (d', r)" and ok: "hist_ok env C {} w d"
  obtain e where e: "find_execution d v = Some e" and run: "ex_status e = WfRunning"
    using op by (auto simp: resume_workflow_def res_simps split: if_splits)
  show "hist_ok env C {} w d'"
  proof (cases "ex_paused_at e")
    case (Some t)
    with op e run obtain p g attrs d1 f where 1: "insert_event x v (ex_next_seq e) WorkflowExecutionResumed
        None None None attrs (update_tasks p g d) = Inr d1"
      and 2: "record_api_audit x a (Some v) True (JObj [(''reason'', reason_json reason)])
        (update_execution v f d1) = Inr d'"
      and f: "\<And>r. row_le r (f r)" and g: "\<And>t. task_le t (g t)"
      by (auto simp: resume_workflow_def res_simps Let_def row_le_def)
    have "quiet w d1 d'" using quiet_row[OF f] quiet_audit[OF 2] by (blast intro: quiet_trans)
    from hist_plain[OF quiet_tasks[OF g] 1 this ok e run] show ?thesis by (simp add: plain_event_def)
  next
    case None
    with op e run ok show ?thesis by (auto simp: resume_workflow_def intro: hist_ok_quiet quiet_duplicate)
  qed
qed


interpretation cancel_journal: journaled "request_workflow_cancellation x v reason a" for x v reason a
proof
  fix env C w d d' r
  assume op: "request_workflow_cancellation x v reason a d = Inr (d', r)" and ok: "hist_ok env C {} w d"
  obtain e where e: "find_execution d v = Some e" and run: "ex_status e = WfRunning"
    using op by (auto simp: request_workflow_cancellation_def res_simps split: if_splits)
  show "hist_ok env C {} w d'"
  proof (cases "ex_cancellation_requested_at e")
    case None
    let ?f = "\<lambda>r. r\<lparr>ex_cancellation_requested_at := Some (tx_now x), ex_cancellation_reason := reason,
      ex_next_seq := ex_next_seq e + 1\<rparr>"
    from None op e run obtain p d1 d2 where
      1: "insert_event x v (ex_next_seq e) WorkflowCancellationRequested None None
        None [(''reason'', reason_json reason)] d = Inr d1"
      and 2: "insert_workflow_task x (tx_uuid x 0) v (ex_queue_name e)
        (update_tasks p (finish_task x TkDead) (update_execution v ?f d1)) = Inr d2"
      and 3: "record_api_audit x a (Some v) True (JObj [(''reason'', reason_json reason)]) d2 = Inr d'"
      by (auto simp: request_workflow_cancellation_def res_simps Let_def)
    have q: "quiet w d1 d'"
      using quiet_trans[OF quiet_row[of d1 v ?f w] quiet_trans[OF quiet_finish[of TkDead]
          quiet_trans[OF quiet_workflow_task[OF 2] quiet_audit[OF 3]]]] by (simp add: row_le_def)
    have rows: "db_executions d' = db_executions (update_execution v ?f d1)"
      using record_api_audit_frame(1)[OF 3] insert_task_frame(1)[OF 2[unfolded insert_workflow_task_def]] by simp
    let ?ev = "history_event_from_row (history_entry x v (ex_next_seq e) WorkflowCancellationRequested None None
      None [(''reason'', reason_json reason)])"
    show ?thesis
    proof (rule hist_event[OF quiet_refl 1 q ok])
      assume v: "v = w" and j: "journal_ok env w (events d w) (db_tasks d) (db_executions d)"
      have "execution_backed (events d w) e" using journal_parts(5)[OF j] find_execution_Some[OF e] v by blast
      then have "open_log (events d w)" "\<forall>x\<in>set (events d w). ev_type x \<noteq> WorkflowCancellationRequested"
        using run None by (simp_all add: execution_backed_def)
      then have "fits (events d w) ?ev" by (intro fits_cancellation) simp_all
      moreover have "ex_cancellation_requested_at r \<noteq> None" if "r \<in> set (db_executions d')" "ex_id r = w" for r
        using updated_row[of r v ?f d1] that unfolding rows v by auto
      then have "settles w ?ev (db_tasks d') (db_executions d')" by (simp add: settles_def event_kind_defs)
      moreover have "\<not> is_schedule ?ev" "\<not> is_child_close ?ev" by (simp_all add: event_kind_defs)
      ultimately show "fits (events d w) ?ev \<and> named_event env w ?ev
          \<and> settles w ?ev (db_tasks d') (db_executions d') \<and> (is_child_close ?ev \<longrightarrow> None \<notin> Some ` {})"
        by (simp add: named_event_def)
    qed
  next
    case (Some t)
    with op e run ok show ?thesis
      by (auto simp: request_workflow_cancellation_def intro: hist_ok_quiet quiet_duplicate)
  qed
qed

interpretation lease_journal: journaled "lease_task env' x ty q dur" for env' x ty q dur
proof
  fix env C w d d' r
  assume op: "lease_task env' x ty q dur d = Inr (d', r)" and ok: "hist_ok env C {} w d"
  let ?take = "\<lambda>i. update_tasks (\<lambda>t. tk_id t = i \<and> tk_status t = TkPending) (take_lease x (tx_uuid x 0) dur) d"
  have taken: "quiet w d (?take i)" for i
    by (rule quiet_tasks) (auto simp: take_lease_def task_le_def same_entity_def open_task_def)
  show "hist_ok env C {} w d'"
  proof (cases "d' = d")
    case False
    with op obtain t where t: "lease_candidate x ty q d = Some t"
      by (auto simp: lease_task_def Let_def split: if_splits option.splits)
    show ?thesis
    proof (cases "ty = ActivityTask")
      case True
      with op t False obtain e attrs d1 where e: "find_execution d (tk_workflow_id t) = Some e"
        and run: "ex_status e = WfRunning"
        and 1: "insert_event x (tk_workflow_id t) (ex_next_seq e) ActivityStarted None (tk_entity_id t)
          None attrs (?take (tk_id t)) = Inr d1"
        and 2: "d' = set_next_seq (tk_workflow_id t) (ex_next_seq e + 1) d1"
        by (auto simp: lease_task_def Let_def res_simps split: if_splits option.splits)
      from hist_plain[OF taken 1 quiet_set_next_seq ok e run] show ?thesis by (simp add: plain_event_def 2)
    next
      case False
      with op t hist_ok_quiet[OF ok taken] show ?thesis by (auto simp: lease_task_def Let_def split: if_splits)
    qed
  qed (use ok in simp)
qed

section \<open>Tasks that report\<close>

lemma finished_not_open:
  assumes "s \<in> {TkCompleted, TkDead}" and "r \<in> set (db_tasks (update_tasks p (finish_task x s) d))"
    and "\<And>t. t \<in> set (db_tasks d) \<Longrightarrow> tk_id t = i \<Longrightarrow> p t" and "tk_id r = i"
  shows "\<not> open_task r"
proof -
  obtain t where "t \<in> set (db_tasks d)" "r = (if p t then finish_task x s t else t)"
    using assms(2) by (auto simp: update_tasks_def)
  with assms show ?thesis by (auto split: if_splits)
qed

interpretation timer_journal: journaled "fire_due_timer env' x q c" for env' x q c
proof
  fix env C w d d' r
  assume com: "committed d" and op: "fire_due_timer env' x q c d = Inr (d', r)" and ok: "hist_ok env C {} w d"
  show "hist_ok env C {} w d'"
  proof (cases "d' = d")
    case False
    with op obtain t where t: "select_first (due_timer x q c d) (\<lambda>t. (tk_visible_at t, tk_id t)) (db_tasks d)
        = Some t"
      by (auto simp: fire_due_timer_def split: option.splits)
    with op False obtain e attrs d1 d2 where e: "find_execution d (tk_workflow_id t) = Some e"
      and run: "ex_status e = WfRunning"
      and 1: "insert_event x (tk_workflow_id t) (ex_next_seq e) TimerFired None (tk_entity_id t) None attrs d = Inr d1"
      and 2: "insert_workflow_task x (tx_uuid x 0) (tk_workflow_id t) (tk_queue_name t)
        (update_tasks (\<lambda>s. tk_id s = tk_id t) (finish_task x TkCompleted) d1) = Inr d2"
      and d': "d' = set_next_seq (tk_workflow_id t) (ex_next_seq e + 1) d2"
      by (auto simp: fire_due_timer_def res_simps split: option.splits if_splits)
    have q: "quiet w d1 d'"
      unfolding d' using quiet_finish[of TkCompleted] quiet_workflow_task[OF 2] quiet_set_next_seq
      by (blast intro: quiet_trans)
    have "due_timer x q c d t" "t \<in> set (db_tasks d)" using select_first_Some(1,2)[OF t] by auto
    moreover have "\<not> open_task s" if "s \<in> set (db_tasks d')" "tk_id s = tk_id t" "tk_task_type s \<noteq> WorkflowTask"
      for s
      using that finished_not_open[of TkCompleted s "\<lambda>s. tk_id s = tk_id t" x d1 "tk_id t"]
        insert_task_frame(5)[OF 2[unfolded insert_workflow_task_def]]
      by (auto simp: d' set_next_seq_def workflow_task_def)
    ultimately show ?thesis
      by (intro hist_task_event[OF quiet_refl 1 q ok e run])
        (auto simp: due_timer_def open_task_def event_type_defs)
  qed (use ok in simp)
qed


section \<open>Attempts\<close>

lemma quiet_other_task: "insert_task t d = Inr d' \<Longrightarrow> tk_workflow_id t \<noteq> w \<Longrightarrow> quiet w d d'"
  using insert_task_frame[of t d d']
  by (auto simp: quiet_def events_def workflow_history_def tasks_close_def intro: le_refl)

lemma quiet_task: "insert_task t d = Inr d' \<Longrightarrow> tk_task_type t = WorkflowTask \<Longrightarrow> quiet w d d'"
  using insert_task_frame[of t d d']
  by (auto simp: quiet_def events_def workflow_history_def tasks_close_def insert_task_def res_simps
      execution_exists_iff intro: le_refl)

text \<open>
  The end of an attempt, recorded with its event: the task is closed, and what follows is a task of the
  workflow or, when the event leaves the activity open, its next attempt.
\<close>

lemma hist_attempt_over:
  assumes ins: "insert_event x v n ty c (tk_entity_id t) ext attrs d = Inr d1" and ok: "hist_ok env C K w d"
    and run: "find_execution d v = Some e" "ex_status e = WfRunning"
    and t: "t \<in> set (db_tasks d)" "tk_workflow_id t = v" "open_task t" "tk_task_type t = ActivityTask"
    and ty: "ty \<in> set ACTIVITY_TERMINAL_EVENT_TYPES" and s: "s \<in> {TkCompleted, TkDead}"
    and hit: "\<And>r. r \<in> set (db_tasks d) \<Longrightarrow> tk_id r = tk_id t \<Longrightarrow> p r"
    and new: "insert_task t' (update_tasks p (finish_task x s) d1) = Inr d2"
    and t': "tk_workflow_id t' = v"
      "tk_task_type t' = WorkflowTask
       \<or> (tk_task_type t' = ActivityTask \<and> tk_entity_id t' = tk_entity_id t
          \<and> \<not> is_activity_close (history_event_from_row
               (history_entry x v n ty c (tk_entity_id t) ext attrs)))"
  shows "hist_ok env C K w (set_next_seq v m d2)"
proof -
  let ?da = "update_tasks p (finish_task x s) d1"
  let ?ev = "history_event_from_row (history_entry x v n ty c (tk_entity_id t) ext attrs)"
  have closed: "\<not> open_task r" if "r \<in> set (db_tasks ?da)" "tk_id r = tk_id t" for r
    by (rule finished_not_open[OF s that(1) _ that(2)]) (use hit insert_event_frame(2)[OF ins] in auto)
  have fin: "hist_ok env C K w ?da"
    by (rule hist_task_event[OF quiet_refl ins quiet_finish[OF s] ok run t(1-3)]) (use t(4) ty closed in auto)
  have "hist_ok env C K w d2"
  proof (cases "v = w \<and> tk_task_type t' \<noteq> WorkflowTask")
    case False
    then have "quiet w ?da d2" using quiet_other_task[OF new] quiet_task[OF new] t'(1) by blast
    with fin show ?thesis by (rule hist_ok_quiet)
  next
    case True
    with t' have v: "v = w" and ent: "tk_task_type t' = ActivityTask" "tk_entity_id t' = tk_entity_id t"
      and keeps: "\<not> is_activity_close ?ev" by auto
    have evs: "events ?da w = events d w @ [ ?ev]" "events d2 w = events ?da w"
      using events_append[OF ins, of w] v insert_task_frame(2)[OF new]
      by (simp_all add: events_def workflow_history_def)
    show ?thesis unfolding hist_ok_def
    proof (intro impI conjI ballI)
      assume ids': "command_ids (events d2 w) \<subseteq> C"
      then have ids: "command_ids (events d w) \<subseteq> C" "command_ids (events ?da w) \<subseteq> C"
        using command_ids_simps(2) unfolding evs by blast+
      show "awaited (events d2 w) k" if "k \<in> K" for k
        using hist_okD(2)[OF fin ids(2) that] evs(2) by simp
      note j = hist_okD(1)[OF ok ids(1)] and ja = hist_okD(1)[OF fin ids(2)]
      have "task_backed (events d w) t" using journal_parts(4)[OF j t(1)] t(2) v by simp
      then have "task_backed (events ?da w) t'"
        using t(3,4) ent keeps by (auto simp: task_backed_def evs(1) scheduled_by_def not_ended_def)
      moreover have "\<not> open_task r" if r: "r \<in> set (db_tasks ?da)" "same_entity r t'" for r
      proof
        assume "open_task r"
        obtain r0 where r0: "r0 \<in> set (db_tasks d)" "r = (if p r0 then finish_task x s r0 else r0)"
          using r(1) insert_event_frame(2)[OF ins] by (auto simp: update_tasks_def)
        then have "task_le r0 r" using s by simp
        then have "same_entity r0 t" "open_task r0" "tk_id r = tk_id r0"
          using r(2) t'(1) ent t(2,4) \<open>open_task r\<close> by (auto simp: task_le_def same_entity_def)
        moreover have "tk_workflow_id r0 = w" "tk_task_type r0 \<noteq> WorkflowTask"
          using \<open>same_entity r0 t\<close> t(2,4) v by (auto simp: same_entity_def)
        ultimately have "tk_id r = tk_id t"
          using journal_parts(3)[OF j] r0(1) t(1,3) by (auto simp: one_open_def)
        with closed r(1) \<open>open_task r\<close> show False by blast
      qed
      ultimately show "journal_ok env w (events d2 w) (db_tasks d2) (db_executions d2)"
        using journal_task[OF ja] evs insert_task_frame(1,5)[OF new] t'(1) v by simp
    qed
  qed
  then show ?thesis by (rule hist_ok_quiet[OF _ quiet_set_next_seq])
qed

lemma retry_task_simps [simp]:
  "tk_task_type (retry_task x i v ent c a u old) = ActivityTask"
  "tk_entity_id (retry_task x i v ent c a u old) = ent"
  by (simp_all add: retry_task_def)

lemma workflow_task_type [simp]: "tk_task_type (workflow_task x i v q) = WorkflowTask"
  by (simp add: workflow_task_def)

text \<open>Failures and timeouts alike: the attempt that was the last one wakes the workflow.\<close>

lemma hist_attempt_ends:
  assumes "insert_event x v n ty c (tk_entity_id t) ext attrs d = Inr d1" and "hist_ok env C K w d"
    and "find_execution d v = Some e" "ex_status e = WfRunning"
    and "t \<in> set (db_tasks d)" "tk_workflow_id t = v" "open_task t" "tk_task_type t = ActivityTask"
    and ty: "ty \<in> {ActivityFailed, ActivityTimedOut}"
    and attrs: "distinct (map fst attrs)" "map_of attrs ''final'' = Some (JBool final)"
    and hit: "\<And>r. r \<in> set (db_tasks d) \<Longrightarrow> tk_id r = tk_id t \<Longrightarrow> p r"
    and new: "(if final then insert_workflow_task x i v q
        else insert_task (retry_task x i v (tk_entity_id t) c' a u old))
      (update_tasks p (finish_task x (if final then TkDead else TkCompleted)) d1) = Inr d2"
  shows "hist_ok env C K w (set_next_seq v m d2)"
proof -
  have ty': "ty \<in> set ACTIVITY_TERMINAL_EVENT_TYPES" using ty by (auto simp: event_type_defs)
  note over = hist_attempt_over[OF assms(1-8) ty' _ hit]
  show ?thesis
  proof (cases final)
    case True
    with new show ?thesis
      by (intro over[where t' = "workflow_task x i v q" and s = TkDead]) (auto simp: insert_workflow_task_def)
  next
    case False
    then have "\<not> activity_closing (history_event_from_row
        (history_entry x v n ty c (tk_entity_id t) ext attrs))"
      using ty attrs by (auto simp: activity_closing_def dget_jsonb_object)
    with False new show ?thesis
      by (intro over[where t' = "retry_task x i v (tk_entity_id t) c' a u old" and s = TkCompleted])
        (auto simp: is_activity_close_def)
  qed
qed

interpretation timeout_journal: journaled "process_activity_timeout env' x q rv" for env' x q rv
proof
  fix env C w d d' r
  assume com: "committed d" and op: "process_activity_timeout env' x q rv d = Inr (d', r)"
    and ok: "hist_ok env C {} w d"
  show "hist_ok env C {} w d'"
  proof (cases "d' = d")
    case False
    with op obtain t where t: "select_first (attempt_timed_out x q d) (\<lambda>t. (timeout_order t, tk_id t))
        (db_tasks d) = Some t"
      by (auto simp: process_activity_timeout_def split: option.splits)
    with op False obtain e where e: "find_execution d (tk_workflow_id t) = Some e"
      and run: "ex_status e = WfRunning"
      by (auto simp: process_activity_timeout_def split: option.splits if_splits)
    let ?v = "tk_workflow_id t"
    have "attempt_timed_out x q d t" and mem: "t \<in> set (db_tasks d)" using select_first_Some(1,2)[OF t] by auto
    then have ty: "tk_task_type t = ActivityTask" and opn: "open_task t"
      by (auto simp: attempt_timed_out_def open_task_def)
    let ?failure = "JObj [(''type'', JStr ''ActivityTimeout''),
      (''message'', JStr (''activity attempt timed out: '' @ timeout_type x t)),
      (''timeout_type'', JStr (timeout_type x t))]"
    let ?attrs = "\<lambda>final u. [(''attempt'', JInt (tk_attempt t)), (''failure'', ?failure),
      (''final'', JBool final), (''timeout_type'', JStr (timeout_type x t)),
      (''next_visible_at'', if final then JNull else JStr (py_isoformat env' u))]"
    from op t e run obtain final u d1 d2 where
      1: "insert_event x ?v (ex_next_seq e) ActivityTimedOut None (tk_entity_id t) None (?attrs final u) d
        = Inr d1"
      and 2: "(if final then insert_workflow_task x (tx_uuid x 0) ?v (tk_queue_name t)
          else insert_task (retry_task x (tx_uuid x 0) ?v (tk_entity_id t) (tk_command_id t)
            (tk_attempt t + 1) u t))
        (update_tasks (\<lambda>s. tk_id s = tk_id t) (finish_task x (if final then TkDead else TkCompleted)) d1)
        = Inr d2"
      and d': "d' = set_next_seq ?v (ex_next_seq e + 1) d2"
      by (simp add: process_activity_timeout_def Let_def res_simps) blast
    show ?thesis
      unfolding d' by (rule hist_attempt_ends[OF 1 ok e run mem refl opn ty _ _ _ _ 2]) simp_all
  qed (use ok in simp)
qed

text \<open>What the owner of a task says of it is what a row says.\<close>

definition task_matches :: "leased_task \<Rightarrow> db \<Rightarrow> bool" where
  "task_matches task d \<longleftrightarrow>
     (\<exists>t\<in>set (db_tasks d). tk_id t = lt_id task \<and> tk_workflow_id t = lt_workflow_id task
        \<and> tk_task_type t = lt_task_type task \<and> tk_entity_id t = lt_entity_id task)"

lemma live_owned: "activity_live x task t \<Longrightarrow> owned task t \<and> open_task t"
  by (simp add: activity_live_def holds_lease_def owned_def open_task_def)

lemma reported_task:
  assumes "List.find (activity_live x task) (db_tasks d) = Some t" and "committed d" and "task_matches task d"
  shows "t \<in> set (db_tasks d)" and "tk_workflow_id t = lt_workflow_id task"
    and "tk_task_type t = lt_task_type task" and "tk_entity_id t = lt_entity_id task" and "open_task t"
    and "r \<in> set (db_tasks d) \<Longrightarrow> tk_id r = tk_id t \<Longrightarrow> owned task r"
proof -
  have t: "t \<in> set (db_tasks d)" "activity_live x task t" using assms(1) by (auto simp: find_Some_iff)
  then have "tk_id t = lt_id task" by (simp add: activity_live_def holds_lease_def)
  moreover obtain s where s: "s \<in> set (db_tasks d)" "tk_id s = lt_id task" "tk_workflow_id s = lt_workflow_id task"
    "tk_task_type s = lt_task_type task" "tk_entity_id s = lt_entity_id task"
    using assms(3) by (auto simp: task_matches_def)
  ultimately have "s = t" using committed_task_unique[OF assms(2) s(1) t(1)] by simp
  with t s live_owned show "t \<in> set (db_tasks d)" "tk_workflow_id t = lt_workflow_id task"
    "tk_task_type t = lt_task_type task" "tk_entity_id t = lt_entity_id task" "open_task t"
    by auto
  show "owned task r" if "r \<in> set (db_tasks d)" "tk_id r = tk_id t"
    using committed_task_unique[OF assms(2) that(1) t(1) that(2)] live_owned t(2) by blast
qed

lemma fail_activity_journal:
  assumes com: "committed d" and op: "fail_activity env' x task p rv d = Inr (d', r)" and ok: "hist_ok env C K w d"
    and m: "task_matches task d"
  shows "hist_ok env C K w d'"
proof -
  let ?v = "lt_workflow_id task"
  obtain t where t: "List.find (activity_live x task) (db_tasks d) = Some t"
    using op by (auto simp: fail_activity_def res_simps Let_def split: if_splits)
  obtain e where e: "find_execution d ?v = Some e" and run: "ex_status e = WfRunning"
    using op t by (auto simp: fail_activity_def res_simps Let_def split: if_splits)
  note row = reported_task[OF t com m]
  let ?attrs = "\<lambda>final u. [(''attempt'', JInt (lt_attempt task)), (''failure'', clone_json p),
    (''final'', JBool final), (''next_visible_at'', if final then JNull else JStr (py_isoformat env' u))]"
  from op t e run have ty: "tk_task_type t = ActivityTask"
    using row(3) by (auto simp: fail_activity_def split: if_splits)
  from op t e run obtain final u d1 d2 where
    1: "insert_event x ?v (ex_next_seq e) ActivityFailed None (lt_entity_id task) None (?attrs final u) d
      = Inr d1"
    and 2: "(if final then insert_workflow_task x (tx_uuid x 0) ?v (tk_queue_name t)
        else insert_task (retry_task x (tx_uuid x 0) ?v (lt_entity_id task) (lt_command_id task)
          (lt_attempt task + 1) u t))
      (update_tasks (owned task) (finish_task x (if final then TkDead else TkCompleted)) d1) = Inr d2"
    and d': "d' = set_next_seq ?v (ex_next_seq e + 1) d2"
    by (simp add: fail_activity_def Let_def res_simps) blast
  show ?thesis
    unfolding d' by (rule hist_attempt_ends[OF 1[folded row(4)] ok e run row(1,2,5) ty _ _ _ row(6) 2[folded row(4)]])
      simp_all
qed

lemma complete_activity_journal:
  assumes com: "committed d" and op: "complete_activity x task p d = Inr (d', r)" and ok: "hist_ok env C K w d"
    and m: "task_matches task d"
  shows "hist_ok env C K w d'"
proof -
  let ?v = "lt_workflow_id task"
  obtain t where t: "List.find (activity_live x task) (db_tasks d) = Some t"
    using op by (auto simp: complete_activity_def res_simps split: if_splits)
  obtain e where e: "find_execution d ?v = Some e" and run: "ex_status e = WfRunning"
    using op t by (auto simp: complete_activity_def res_simps split: if_splits)
  note row = reported_task[OF t com m]
  from op t e run obtain attrs d1 d2 d3 where ty: "lt_task_type task = ActivityTask"
    and 1: "insert_event x ?v (ex_next_seq e) ActivityCompleted None (lt_entity_id task) None attrs d = Inr d1"
    and 2: "complete_task x task d1 = Inr d2"
    and 3: "insert_workflow_task x (tx_uuid x 0) ?v (tk_queue_name t) d2 = Inr d3"
    and 4: "d' = set_next_seq ?v (ex_next_seq e + 1) d3"
    by (auto simp: complete_activity_def res_simps split: if_splits)
  have q: "quiet w d1 d2" "quiet w d2 d'"
    using quiet_complete[OF 2] quiet_trans[OF quiet_workflow_task[OF 3] quiet_set_next_seq] by (auto simp: 4)
  have "d2 = update_tasks (owned task) (finish_task x TkCompleted) d1"
    using 2 by (simp add: complete_task_def split: if_splits)
  then have "\<not> open_task s" if "s \<in> set (db_tasks d2)" "tk_id s = tk_id t" for s
    using finished_not_open[of TkCompleted s "owned task" x d1 "tk_id t"] that row(6) insert_event_frame(2)[OF 1]
    by simp
  then have "hist_ok env C K w d2"
    by (intro hist_task_event[OF quiet_refl 1[folded row(4)] q(1) ok e run row(1,2,5)])
      (use ty row(3) in \<open>auto simp: event_type_defs\<close>)
  then show ?thesis by (rule hist_ok_quiet[OF _ q(2)])
qed

end
