(* ===== verification/History_Commit.thy ===== *)
theory History_Commit
  imports History_Operations
begin

text \<open>
  The journals through new executions, through closing with timers, descendants and the report to the
  parent, and through the commit of a replay: the last operations of the engine.
\<close>

section \<open>New executions\<close>

lemma quiet_create:
  assumes "create_execution env x i e attrs d = Inr d'" and "ex_id e \<noteq> w" and "ex_parent_workflow_id e \<noteq> Some w"
  shows "quiet w d d'"
proof -
  obtain d1 d2 where 1: "d1 = d\<lparr>db_executions := db_executions d @ [e]\<rparr>"
    and 2: "insert_event x (ex_id e) 1 WorkflowExecutionStarted None None None attrs d1 = Inr d2"
    and 3: "insert_workflow_task x i (ex_id e) (ex_queue_name e) d2 = Inr d'"
    using assms(1) by (auto simp: create_execution_def insert_execution_def res_simps)
  have "quiet w d d1"
    using assms(2,3) by (auto simp: 1 quiet_def events_def workflow_history_def rows_close_def intro: le_refl)
  with quiet_event[OF 2 assms(2)] quiet_workflow_task[OF 3] show ?thesis by (blast intro: quiet_trans)
qed

lemma hist_create:
  assumes op: "create_execution env' x i e attrs d = Inr d'" and ok: "hist_ok env C K w d"
    and "ex_parent_workflow_id e \<noteq> Some w"
  shows "hist_ok env C K w d'"
proof -
  obtain d1 d2 where 1: "d1 = d\<lparr>db_executions := db_executions d @ [e]\<rparr>" "\<not> execution_exists d (ex_id e)"
    and 2: "insert_event x (ex_id e) 1 WorkflowExecutionStarted None None None attrs d1 = Inr d2"
    and 3: "insert_workflow_task x i (ex_id e) (ex_queue_name e) d2 = Inr d'"
    using op by (auto simp: create_execution_def insert_execution_def res_simps)
  have "hist_ok env C K w d2" if True: "ex_id e = w"
  proof -
    show ?thesis unfolding hist_ok_def
    proof (intro impI conjI ballI)
      assume ids: "command_ids (events d2 w) \<subseteq> C"
      have ev: "events d2 w = events d w @
          [history_event_from_row (history_entry x w 1 WorkflowExecutionStarted None None None attrs)]"
        using events_append[OF 2, of w] True by (simp add: 1(1) events_def workflow_history_def)
      then have old: "command_ids (events d w) \<subseteq> C" using command_ids_simps(2) ids by (metis subset_trans)
      note j = hist_okD(1)[OF ok old]
      have nil: "events d w = []"
        using journal_parts(7)[OF j] 1(2) True by (auto simp: execution_exists_iff)
      show "awaited (events d2 w) c" if "c \<in> K" for c
        using hist_okD(2)[OF ok old that] by (simp add: nil awaited_def scheduled_by_def)
      show "journal_ok env w (events d2 w) (db_tasks d2) (db_executions d2)"
        using journal_new[OF j[unfolded nil] _ True assms(3)] insert_event_frame(1,2)[OF 2]
        by (simp add: ev nil 1(1))
    qed
  qed
  with quiet_workflow_task[OF 3] hist_ok_quiet[OF ok quiet_create[OF op]] assms(3) show ?thesis
    by (blast intro: hist_ok_quiet)
qed

lemma new_execution_parent [simp]: "ex_parent_workflow_id (new_execution v n ver i q t a) = None"
  by (simp add: new_execution_def)

interpretation start_journal: journaled "start_workflow env' x n v i q u attrs ro a"
  for env' x n v i q u attrs ro a
proof
  fix env C w d d' r
  assume op: "start_workflow env' x n v i q u attrs ro a d = Inr (d', r)" and ok: "hist_ok env C {} w d"
  obtain e ats d1 det where 1: "create_execution env' x (tx_uuid x 1) e ats d = Inr d1"
    and "ex_parent_workflow_id e = None" and 2: "record_api_audit x a (Some r) True det d1 = Inr d'"
    using op by (fastforce simp: start_workflow_def res_simps Let_def)
  with hist_create[OF 1 ok] quiet_audit[OF 2] show "hist_ok env C {} w d'" by (auto intro: hist_ok_quiet)
qed

interpretation retry_journal: journaled "retry_workflow env' x u a d0" for env' x u a d0
  by unfold_locales (auto simp: retry_workflow_def split: option.splits if_splits intro: start_journal.keeps)

lemma hist_occurrence:
  assumes "start_occurrence env' x i j s t b d = Inr d'" and "hist_ok env C K w d"
  shows "hist_ok env C K w d'"
proof -
  obtain ats d1 where 1: "create_execution env' x (tx_uuid x (i + 1))
      (occurrence_execution env' (tx_uuid x i) (tx_clock x j) s t) ats d = Inr d1"
    and 2: "record_occurrence x (sd_id s) t (tx_uuid x i) b d1 = Inr d'"
    by (rule start_occurrence_cases[OF assms(1)])
  have "hist_ok env C K w d1" using hist_create[OF 1 assms(2)] by (simp add: occurrence_execution_def)
  moreover have "quiet w d1 d'"
    using 2 by (auto simp: record_occurrence_def res_simps intro: quiet_schedule_statements split: if_splits)
  ultimately show ?thesis by (rule hist_ok_quiet)
qed

interpretation materialize_journal: journaled "materialize_due_schedule env' zs x clk" for env' zs x clk
proof
  fix env C w d d' r
  assume op: "materialize_due_schedule env' zs x clk d = Inr (d', r)" and ok: "hist_ok env C {} w d"
  have occ: "hist_ok env C {} w d1" if "materialize_occurrence env' x j s d = Inr d1" for j s d1
    using that ok by (auto simp: materialize_occurrence_def split: if_splits
        intro: hist_occurrence hist_ok_quiet quiet_schedule_statements(2))
  from op show "hist_ok env C {} w d'"
    by (cases rule: materialize_cases)
      (auto intro: ok hist_occurrence[OF _ ok] hist_ok_quiet[OF occ] quiet_schedule_statements(3))
qed

interpretation backfill_journal: journaled "backfill_schedule env' zs x i a b l au" for env' zs x i a b l au
proof
  fix env C w d d' r
  assume op: "backfill_schedule env' zs x i a b l au d = Inr (d', r)" and ok: "hist_ok env C {} w d"
  obtain row ts d1 det where 1: "foldR (backfill_one env' x row) ts (d, 0) = Inr (d1, r)"
    and 2: "record_api_audit x au None True det d1 = Inr d'"
    by (rule backfill_cases[OF op])
  have "hist_ok env C {} w (fst (d1, r))"
    by (rule foldR_invariant[OF 1, where P = "\<lambda>st. hist_ok env C {} w (fst st)"])
      (auto simp: backfill_one_def res_simps ok intro: hist_occurrence split: if_splits)
  with quiet_audit[OF 2] show "hist_ok env C {} w d'" by (auto intro: hist_ok_quiet)
qed

section \<open>Closing\<close>

text \<open>The loop over the pending timers.\<close>

definition timers_ok :: "pyenv \<Rightarrow> int set \<Rightarrow> uuid set \<Rightarrow> uuid \<Rightarrow> db \<Rightarrow> db \<Rightarrow> bool" where
  "timers_ok env C K w d0 d \<longleftrightarrow>
     hist_ok env C K w d \<and> db_executions d = db_executions d0
     \<and> map tk_id (db_tasks d) = map tk_id (db_tasks d0) \<and> list_all2 same_entity (db_tasks d) (db_tasks d0)"

lemma list_all2_same_id:
  assumes "list_all2 same_entity ts ss" and "map tk_id ts = map tk_id ss" and "distinct (map tk_id ss)"
    and "t \<in> set ts" and "s \<in> set ss" and "tk_id t = tk_id s"
  shows "same_entity t s"
proof -
  have len: "length ts = length ss" using assms(2) map_eq_imp_length_eq by blast
  obtain i where i: "i < length ts" "t = ts ! i" using assms(4) by (auto simp: in_set_conv_nth)
  obtain k where k: "k < length ss" "s = ss ! k" using assms(5) by (auto simp: in_set_conv_nth)
  have "map tk_id ss ! i = map tk_id ss ! k" using assms(2,6) i k len by (metis nth_map)
  then have "i = k" using assms(3) i(1) k(1) len by (metis length_map nth_eq_iff_index_eq)
  with assms(1) i k show ?thesis by (simp add: list_all2_conv_all_nth)
qed

lemma update_tasks_same:
  assumes "\<And>t. same_entity (f t) t \<and> tk_id (f t) = tk_id t"
  shows "map tk_id (db_tasks (update_tasks p f d)) = map tk_id (db_tasks d)"
    and "list_all2 same_entity (db_tasks d) ss \<Longrightarrow> list_all2 same_entity (db_tasks (update_tasks p f d)) ss"
  using assms
  by (auto simp: update_tasks_def list_all2_conv_all_nth same_entity_def)

lemma finish_same: "same_entity (finish_task x s t) t \<and> tk_id (finish_task x s t) = tk_id t"
  by (simp add: same_entity_def finish_task_def)

lemma hist_cancel_timer:
  assumes op: "cancel_timer x v reason t (d, n) = Inr (d', n')" and ok: "timers_ok env C K w d0 d"
    and e: "find_execution d0 v = Some e" "ex_status e = WfRunning" and dist: "distinct (map tk_id (db_tasks d0))"
    and t: "t \<in> set (db_tasks d0)" "tk_workflow_id t = v" "tk_task_type t = TimerTask"
  shows "timers_ok env C K w d0 d'"
proof -
  let ?hit = "\<lambda>s. tk_id s = tk_id t \<and> tk_status s = TkPending"
  let ?da = "update_tasks ?hit (finish_task x TkDead) d"
  have q: "quiet w d ?da" by (rule quiet_finish) simp
  have same: "map tk_id (db_tasks ?da) = map tk_id (db_tasks d0)" "list_all2 same_entity (db_tasks ?da) (db_tasks d0)"
    using update_tasks_same(1)[OF finish_same] update_tasks_same(2)[OF finish_same] ok
    by (auto simp: timers_ok_def)
  have h: "hist_ok env C K w d" and exs: "db_executions d = db_executions d0" using ok by (auto simp: timers_ok_def)
  show ?thesis
  proof (cases "length (filter ?hit (db_tasks d)) = 1")
    case False
    with op have "d' = ?da" by (simp add: cancel_timer_def Let_def)
    with same exs hist_ok_quiet[OF h q] show ?thesis by (simp add: timers_ok_def)
  next
    case True
    with op have ins: "insert_event x v n TimerCanceled None (tk_entity_id t) None [(''reason'', JStr reason)] ?da
        = Inr d'"
      by (auto simp: cancel_timer_def Let_def res_simps)
    have "filter ?hit (db_tasks d) \<noteq> []" using True by auto
    then obtain r where r: "r \<in> set (db_tasks d)" "?hit r" unfolding filter_empty_conv by blast
    have rt: "same_entity r t"
      using list_all2_same_id[OF _ _ dist r(1) t(1)] r(2) ok by (simp add: timers_ok_def)
    have dd: "distinct (map tk_id (db_tasks d))" using ok dist by (simp add: timers_ok_def)
    have hit: "?hit s" if "s \<in> set (db_tasks d)" "tk_id s = tk_id r" for s
    proof -
      have "s = r" using dd that r(1) by (metis distinct_find option.inject)
      with r(2) show ?thesis by simp
    qed
    have closed: "\<not> open_task s" if "s \<in> set (db_tasks d')" "tk_id s = tk_id r" for s
      by (rule finished_not_open[of TkDead s ?hit x d])
        (use hit that insert_event_frame(2)[OF ins] in auto)
    have ent: "tk_entity_id r = tk_entity_id t" "tk_workflow_id r = v" "tk_task_type r = TimerTask" "open_task r"
      using rt t r(2) by (auto simp: same_entity_def open_task_def)
    have ev: "find_execution d v = Some e" using find_execution_cong[OF exs] e(1) by simp
    have "hist_ok env C K w d'"
      by (rule hist_task_event[OF q ins[folded ent(1)] quiet_refl h ev e(2) r(1) ent(2,4) _ closed])
        (simp_all add: ent(3) event_type_defs)
    with same exs insert_event_frame(1,2)[OF ins] show ?thesis by (simp add: timers_ok_def)
  qed
qed

lemma hist_cancel_timers:
  assumes "cancel_pending_timers x v n reason d = Inr (d', n')" and "hist_ok env C K w d"
    and "find_execution d v = Some e" "ex_status e = WfRunning" and "distinct (map tk_id (db_tasks d))"
  shows "hist_ok env C K w d'" and "db_executions d' = db_executions d"
proof -
  have same: "list_all2 same_entity (db_tasks d) (db_tasks d)"
    by (simp add: list.rel_refl same_entity_def)
  have "timers_ok env C K w d (fst (d', n'))"
  proof (rule foldR_invariant[OF assms(1)[unfolded cancel_pending_timers_def],
        where P = "\<lambda>st. timers_ok env C K w d (fst st)"])
    fix t s s' assume t: "t \<in> set (pending_timers v d)" and "timers_ok env C K w d (fst s)"
      "cancel_timer x v reason t s = Inr s'"
    then show "timers_ok env C K w d (fst s')"
      using hist_cancel_timer[of x v reason t "fst s" "snd s" "fst s'" "snd s'"] assms(3-5)
      by (auto simp: pending_timers_def)
  qed (simp add: timers_ok_def assms(2) same)
  then show "hist_ok env C K w d'" "db_executions d' = db_executions d" by (auto simp: timers_ok_def)
qed


text \<open>Children that close with their parent.\<close>

lemma hist_terminate_child: "child_closing x (hist_ok env C K w)"
  unfolding child_closing_def
proof (intro allI impI)
  fix c d d'
  assume op: "terminate_child x c d = Inr d'" and c: "find_execution d (ex_id c) = Some c" "ex_status c = WfRunning"
    and ok: "hist_ok env C K w d"
  let ?f = "\<lambda>e. e\<lparr>ex_status := WfTerminated, ex_next_seq := ex_next_seq c + 1,
                  ex_closed_at := Some (tx_now x),
                  ex_failure := Some (JObj [(''reason'', JStr ''parent workflow closed'')])\<rparr>"
  obtain attrs d1 where
    1: "insert_event x (ex_id c) (ex_next_seq c) WorkflowExecutionTerminated None None None attrs d = Inr d1"
    and 2: "d' = reject_pending_updates x (ex_id c) ''parent workflow closed''
      (kill_tasks x (ex_id c) (update_execution (ex_id c) ?f d1))"
    using op by (auto simp: terminate_child_def res_simps)
  have "quiet w d1 (update_execution (ex_id c) ?f d1)" by (rule quiet_row) (simp add: row_le_def)
  then have q: "quiet w d1 d'" unfolding 2 by (blast intro: quiet_trans quiet_kill quiet_reject)
  show "hist_ok env C K w d'"
  proof (rule hist_close[OF quiet_refl 1 q ok c])
    fix r assume "r \<in> set (db_executions d')" "ex_id r = ex_id c"
    then show "ex_status r \<noteq> WfRunning"
      using updated_row[of r "ex_id c" ?f d1] by (auto simp: 2 reject_pending_updates_def kill_tasks_def)
  qed (simp add: event_type_defs)
qed

text \<open>A running child owes its parent a report.\<close>

definition owes :: "execution_row \<Rightarrow> uuid \<Rightarrow> uuid set" where
  "owes e w = (if ex_parent_workflow_id e = Some w then {ex_id e} else {})"

lemma hist_owes:
  assumes "hist_ok env C {} w d" and "find_execution d v = Some e" and "ex_status e = WfRunning"
  shows "hist_ok env C (owes e w) w d"
  unfolding hist_ok_def
proof (intro impI conjI ballI)
  assume ids: "command_ids (events d w) \<subseteq> C"
  note j = hist_okD(1)[OF assms(1) ids]
  show "journal_ok env w (events d w) (db_tasks d) (db_executions d)" by (rule j)
  show "awaited (events d w) c" if "c \<in> owes e w" for c
    using journal_parts(6)[OF j] find_execution_Some[OF assms(2)] assms(3) that
    by (auto simp: owes_def awaited_def child_backed_def split: if_splits)
qed

lemma child_event_kinds:
  "is_child_close (history_event_from_row (history_entry x v n (child_event_type st) c en ext attrs))"
  by (cases st) (simp_all add: event_kind_defs)

lemma hist_notify:
  assumes op: "notify_parent_of_child_terminal x i (ex_id e) (ex_parent_workflow_id e) st payload d = Inr d'"
    and ok: "hist_ok env C (owes e w) w d"
    and closed: "\<And>r. r \<in> set (db_executions d) \<Longrightarrow> ex_id r = ex_id e \<Longrightarrow> ex_status r \<noteq> WfRunning"
  shows "hist_ok env C {} w d'"
proof -
  have ok': "hist_ok env C {} w d" using ok by (simp add: hist_ok_def)
  show ?thesis
  proof (cases "\<exists>r. ex_parent_workflow_id e = Some w \<and> find_execution d w = Some r \<and> ex_status r = WfRunning")
    case True
    then obtain r where r: "ex_parent_workflow_id e = Some w" "find_execution d w = Some r" "ex_status r = WfRunning"
      by auto
    with op obtain attrs d1 where
      1: "insert_event x w (ex_next_seq r) (child_event_type st) None (Some (ex_id e)) None attrs d = Inr d1"
      and 2: "insert_workflow_task x i w (ex_queue_name r) (set_next_seq w (ex_next_seq r + 1) d1) = Inr d'"
      by (auto simp: notify_parent_of_child_terminal_def res_simps)
    let ?ev = "history_event_from_row (history_entry x w (ex_next_seq r) (child_event_type st) None
      (Some (ex_id e)) None attrs)"
    have q: "quiet w d1 d'" using quiet_set_next_seq quiet_workflow_task[OF 2] by (blast intro: quiet_trans)
    note kind = child_event_kinds[of x w "ex_next_seq r" st None "Some (ex_id e)" None attrs]
    show ?thesis
    proof (cases "command_ids (events d w) \<subseteq> C")
      case ids: True
      have aw: "awaited (events d w) (ex_id e)" using hist_okD(2)[OF ok ids] r(1) by (simp add: owes_def)
      show ?thesis
      proof (rule hist_event[OF quiet_refl 1 q ok'])
        assume j: "journal_ok env w (events d w) (db_tasks d) (db_executions d)"
        have "open_log (events d w)" by (rule running_open_log[OF j r(2,3)])
        moreover have "terminal_ok ChildWorkflowStarted is_child_close (events d w) ?ev"
          using aw by (auto simp: awaited_def terminal_ok_def scheduled_by_def not_ended_def is_schedule_def
              SCHEDULE_EVENT_TYPES_def)
        ultimately have "fits (events d w) ?ev" by (intro fits_terminal(3)[OF _ kind])
        moreover have "ex_status s \<noteq> WfRunning" if "s \<in> set (db_executions d')" "ex_id s = ex_id e" for s
        proof -
          have "db_executions d' = db_executions (set_next_seq w (ex_next_seq r + 1) d1)"
            by (rule insert_task_frame(1)[OF 2[unfolded insert_workflow_task_def]])
          with that(1) insert_event_frame(1)[OF 1] obtain s0 where "s0 \<in> set (db_executions d)"
            "s = (if ex_id s0 = w then s0\<lparr>ex_next_seq := ex_next_seq r + 1\<rparr> else s0)"
            by (auto simp: set_next_seq_def update_execution_def update_executions_def)
          with closed[of s0] that(2) show ?thesis by (auto split: if_splits)
        qed
        then have "settles w ?ev (db_tasks d') (db_executions d')"
          using kind by (auto simp: settles_def is_child_close_def event_kind_defs)
        ultimately show "fits (events d w) ?ev \<and> named_event env w ?ev
            \<and> settles w ?ev (db_tasks d') (db_executions d')
            \<and> (is_child_close ?ev \<longrightarrow> Some (ex_id e) \<notin> Some ` {})"
          using other_kinds(5)[OF kind] by (simp add: named_event_def)
      qed
    next
      case False
      moreover have "events d' w = events d w @ [ ?ev]" using events_append[OF 1, of w] q by (simp add: quiet_def)
      ultimately show ?thesis unfolding hist_ok_def using command_ids_simps(2) by (metis subset_trans)
    qed
  next
    case False
    then have "quiet w d d'"
    proof (cases "\<exists>p r. ex_parent_workflow_id e = Some p \<and> find_execution d p = Some r \<and> ex_status r = WfRunning")
      case other: True
      then obtain p r where r: "ex_parent_workflow_id e = Some p" "find_execution d p = Some r" "ex_status r = WfRunning"
        by auto
      with False have p: "p \<noteq> w" by auto
      from r op obtain attrs d1 where
        1: "insert_event x p (ex_next_seq r) (child_event_type st) None (Some (ex_id e)) None attrs d = Inr d1"
        and 2: "insert_workflow_task x i p (ex_queue_name r) (set_next_seq p (ex_next_seq r + 1) d1) = Inr d'"
        by (auto simp: notify_parent_of_child_terminal_def res_simps)
      show ?thesis
        using quiet_event[OF 1 p] quiet_set_next_seq quiet_workflow_task[OF 2] by (blast intro: quiet_trans)
    next
      case none: False
      with op have "d' = d" by (auto simp: notify_parent_of_child_terminal_def split: option.splits if_splits)
      then show ?thesis by simp
    qed
    with ok' show ?thesis by (rule hist_ok_quiet)
  qed
qed


lemma hist_end:
  assumes ins: "insert_event x (ex_id e) n ty c en ext attrs d = Inr d1" and ok: "hist_ok env C (owes e w) w d"
    and e: "find_execution d (ex_id e) = Some e" "ex_status e = WfRunning"
    and ty: "ty \<in> set WORKFLOW_TERMINAL_EVENT_TYPES"
    and f: "\<And>r. row_le r (f r)" "\<And>r. ex_status (f r) \<noteq> WfRunning"
    and q: "quiet w (update_execution (ex_id e) f d1) d2"
      "db_executions d2 = db_executions (update_execution (ex_id e) f d1)"
    and op: "notify_parent_of_child_terminal x i (ex_id e) (ex_parent_workflow_id e) st payload d2 = Inr d'"
  shows "hist_ok env C {} w d'"
proof -
  have closed: "ex_status r \<noteq> WfRunning" if "r \<in> set (db_executions d2)" "ex_id r = ex_id e" for r
    using updated_row[of r "ex_id e" f d1] that f unfolding q(2) by (auto simp: row_le_def)
  have "hist_ok env C (owes e w) w d2"
    by (rule hist_close[OF quiet_refl ins quiet_trans[OF quiet_row[OF f(1)] q(1)] ok e ty closed])
  from hist_notify[OF op this closed] show ?thesis .
qed

lemma progress_task_ids: "progress ov X Y d0 d \<Longrightarrow> distinct (map tk_id (db_tasks d))"
  by (simp add: progress_def store_ok_def)

interpretation terminate_journal: journaled "terminate_workflow k x v reason a" for k x v reason a
proof
  fix env C w d d' r
  assume com: "committed d" and op: "terminate_workflow k x v reason a d = Inr (d', r)"
    and ok: "hist_ok env C {} w d"
  obtain e where e: "find_execution d v = Some e"
    using op by (auto simp: terminate_workflow_def res_simps split: if_splits)
  have v: "ex_id e = v" using find_execution_Some[OF e] by simp
  show "hist_ok env C {} w d'"
  proof (cases "ex_status e = WfTerminated")
    case True
    with op e ok show ?thesis
      by (auto simp: terminate_workflow_def intro: hist_ok_quiet quiet_duplicate)
  next
    case False
    let ?f = "\<lambda>n e. e\<lparr>ex_status := WfTerminated, ex_next_seq := n + 1, ex_closed_at := Some (tx_now x)\<rparr>"
    from False op e obtain d1 d2 n d3 d4 where run: "ex_status e = WfRunning"
      and 1: "terminate_descendants k x v d = Inr d1"
      and 2: "cancel_pending_timers x v (ex_next_seq e) ''workflow terminated''
        (reject_pending_updates x v ''workflow terminated'' d1) = Inr (d2, n)"
      and 3: "insert_event x v n WorkflowExecutionTerminated None None None
        [(''reason'', reason_json reason)] d2 = Inr d3"
      and 4: "notify_parent_of_child_terminal x (tx_uuid x 0) v (ex_parent_workflow_id e) WfTerminated
        (JObj [(''reason'', reason_json reason)]) (kill_tasks x v (update_execution v (?f n) d3)) = Inr d4"
      and 5: "record_api_audit x a (Some v) True (JObj [(''reason'', reason_json reason)]) d4 = Inr d'"
      by (auto simp: terminate_workflow_def res_simps split: if_splits)
    note p = committed_progress[OF com]
    have h1: "hist_ok env C (owes e w) w d1"
      by (rule terminate_descendants_keeps[OF 1 p _ hist_terminate_child hist_owes[OF ok e run]]) simp
    note d1 = terminate_descendants_of_progress[OF 1 p _ e]
    let ?r = "reject_pending_updates x v ''workflow terminated'' d1"
    have "hist_ok env C (owes e w) w ?r" by (rule hist_ok_quiet[OF h1 quiet_reject])
    moreover have e1: "find_execution ?r v = Some e" and "distinct (map tk_id (db_tasks ?r))"
      using d1 progress_task_ids[OF d1(1)] by (simp_all add: reject_pending_updates_def)
    ultimately have h2: "hist_ok env C (owes e w) w d2" "db_executions d2 = db_executions ?r"
      using hist_cancel_timers[OF 2 _ e1 run] by auto
    have e2: "find_execution d2 v = Some e" using find_execution_cong[OF h2(2)] e1 by simp
    have "hist_ok env C {} w d4"
      by (rule hist_end[OF 3[folded v] h2(1) e2[folded v] run _ _ _ quiet_kill(1) _ 4[folded v]])
        (simp_all add: event_type_defs row_le_def v kill_tasks_def)
    then show ?thesis by (rule hist_ok_quiet[OF _ quiet_audit[OF 5]])
  qed
qed


section \<open>Committing a replay\<close>

lemma commit_cancellation_journal:
  assumes com: "committed d" and op: "commit_cancellation k x task e d = Inr d'" and ok: "hist_ok env C {} w d"
    and e: "find_execution d (lt_workflow_id task) = Some e" "ex_status e = WfRunning"
  shows "hist_ok env C {} w d'"
proof -
  let ?v = "lt_workflow_id task"
  let ?f = "\<lambda>n e. e\<lparr>ex_status := WfTerminated, ex_next_seq := n + 1, ex_closed_at := Some (tx_now x)\<rparr>"
  obtain d1 n d2 attrs d3 pl where
    1: "cancel_pending_timers x ?v (ex_next_seq e) ''workflow cancellation requested'' d = Inr (d1, n)"
    and 2: "terminate_descendants k x ?v d1 = Inr d2"
    and 3: "insert_event x ?v n WorkflowExecutionTerminated None None None attrs
      (reject_pending_updates x ?v ''workflow cancelled'' d2) = Inr d3"
    and 4: "notify_parent_of_child_terminal x (tx_uuid x 0) ?v (ex_parent_workflow_id e) WfTerminated pl
      (kill_other_tasks x ?v (lt_id task) (update_execution ?v (?f n) d3)) = Inr d'"
    using op by (auto simp: commit_cancellation_def res_simps Let_def)
  have v: "ex_id e = ?v" using find_execution_Some[OF e(1)] by simp
  note p = committed_progress[OF com]
  have h1: "hist_ok env C (owes e w) w d1"
    by (rule hist_cancel_timers(1)[OF 1 hist_owes[OF ok e] e progress_task_ids[OF p]])
  note p1 = cancel_pending_timers_progress[OF 1 p e refl]
  have e1: "find_execution d1 ?v = Some e" using p1(2) e(1) by simp
  have h2: "hist_ok env C (owes e w) w (reject_pending_updates x ?v ''workflow cancelled'' d2)"
    by (rule hist_ok_quiet[OF terminate_descendants_keeps[OF 2 p1(1) _ hist_terminate_child h1] quiet_reject]) simp
  have e2: "find_execution (reject_pending_updates x ?v ''workflow cancelled'' d2) ?v = Some e"
    using terminate_descendants_of_progress(2)[OF 2 p1(1) _ e1] by (simp add: reject_pending_updates_def)
  show ?thesis
    by (rule hist_end[OF 3[folded v] h2[folded v] e2[folded v] e(2) _ _ _ quiet_kill(2) _ 4[folded v]])
      (simp_all add: event_type_defs row_le_def v kill_other_tasks_def)
qed

lemma commit_close_journal:
  assumes com: "committed d" and op: "commit_close k x task e completed payload d = Inr d'"
    and ok: "hist_ok env C {} w d"
    and e: "find_execution d (lt_workflow_id task) = Some e" "ex_status e = WfRunning"
  shows "hist_ok env C {} w d'"
proof -
  let ?v = "lt_workflow_id task"
  let ?f = "\<lambda>n e. e\<lparr>ex_status := (if completed then WfCompleted else WfFailed),
                 ex_result := (if completed then Some (clone_json payload) else None),
                 ex_failure := (if completed then None else Some (clone_json payload)),
                 ex_next_seq := n + 1, ex_closed_at := Some (tx_now x)\<rparr>"
  let ?ty = "if completed then WorkflowExecutionCompleted else WorkflowExecutionFailed"
  obtain d1 d2 n attrs d3 st where
    1: "terminate_descendants k x ?v d = Inr d1"
    and 2: "cancel_pending_timers x ?v (ex_next_seq e) ''workflow closed''
      (reject_pending_updates x ?v ''workflow closed'' d1) = Inr (d2, n)"
    and 3: "insert_event x ?v n ?ty None None None attrs d2 = Inr d3"
    and 4: "notify_parent_of_child_terminal x (tx_uuid x 0) ?v (ex_parent_workflow_id e) st payload
      (kill_other_tasks x ?v (lt_id task) (update_execution ?v (?f n) d3)) = Inr d'"
    using op by (auto simp: commit_close_def res_simps Let_def)
  have v: "ex_id e = ?v" using find_execution_Some[OF e(1)] by simp
  note p = committed_progress[OF com]
  have h1: "hist_ok env C (owes e w) w (reject_pending_updates x ?v ''workflow closed'' d1)"
    by (rule hist_ok_quiet[OF terminate_descendants_keeps[OF 1 p _ hist_terminate_child hist_owes[OF ok e]]
          quiet_reject]) simp
  note p1 = terminate_descendants_of_progress[OF 1 p _ e(1)]
  have e1: "find_execution (reject_pending_updates x ?v ''workflow closed'' d1) ?v = Some e"
    using p1(2) by (simp add: reject_pending_updates_def)
  have "distinct (map tk_id (db_tasks (reject_pending_updates x ?v ''workflow closed'' d1)))"
    using progress_task_ids[OF p1(1)] by (simp add: reject_pending_updates_def)
  note h2 = hist_cancel_timers[OF 2 h1 e1 e(2) this]
  have e2: "find_execution d2 ?v = Some e" using find_execution_cong[OF h2(2)] e1 by simp
  show ?thesis
    by (rule hist_end[OF 3[folded v] h2(1) e2[folded v] e(2) _ _ _ quiet_kill(2) _ 4[folded v]])
      (auto simp: event_type_defs row_le_def v kill_other_tasks_def)
qed

subsection \<open>New commands\<close>

text \<open>The index on \<^verbatim>\<open>(workflow_id, command_id)\<close> refuses a second event for a command.\<close>

lemma new_command:
  assumes "insert_event x w n ty (Some c) en ext attrs d = Inr d'" and "ty \<in> set SCHEDULE_EVENT_TYPES"
  shows "c \<notin> command_ids (events d w)"
proof
  assume "c \<in> command_ids (events d w)"
  then obtain r where r: "r \<in> set (db_history d)" "hr_workflow_id r = w"
    "is_schedule (history_event_from_row r)" "ev_command_id (history_event_from_row r) = Some c"
    by (auto simp: command_ids_def events_def workflow_history_def)
  then have "hr_command_id r = Some c" "is_command_event (hr_event_type r)"
    by (auto simp: history_event_from_row_def is_schedule_def SCHEDULE_EVENT_TYPES_def is_command_event_def)
  moreover have "is_command_event ty"
    using assms(2) by (simp add: SCHEDULE_EVENT_TYPES_def is_command_event_def)
  ultimately show False
    using assms(1) r(1,2)
    by (auto simp: insert_event_def insert_history_def res_simps history_entry_def list_all_iff)
qed

lemma schedule_journal:
  fixes x w n ty c en ext attrs
  defines "ev \<equiv> history_event_from_row (history_entry x w n ty (Some c) en ext attrs)"
  assumes ins: "insert_event x w n ty (Some c) en ext attrs d = Inr d1" and ok: "hist_ok env C K w d"
    and free: "collision_free env w C" and e: "find_execution d w = Some e" "ex_status e = WfRunning"
    and ty: "ty \<in> set SCHEDULE_EVENT_TYPES" and en: "\<And>u. en = Some u \<Longrightarrow> named env w ty c u"
      "ty \<in> set ENTITY_EVENT_TYPES \<Longrightarrow> en \<noteq> None"
    and ids: "command_ids (events d1 w) \<subseteq> C"
  shows "events d1 w = events d w @ [ev]"
    and "journal_ok env w (events d w) (db_tasks d) (db_executions d)"
    and "journal_ok env w (events d w @ [ev]) (db_tasks d) (db_executions d)"
    and "events d w \<noteq> []"
    and "\<And>u ty'. en = Some u \<Longrightarrow> ty' \<in> set SCHEDULE_EVENT_TYPES \<Longrightarrow> \<not> scheduled_by ty' (events d w) (Some u)"
    and "k \<in> K \<Longrightarrow> awaited (events d1 w) k"
proof -
  show evs: "events d1 w = events d w @ [ev]" using events_append[OF ins, of w] by (simp add: ev_def)
  have old: "command_ids (events d w) \<subseteq> C" using ids command_ids_simps(2) unfolding evs by blast
  show j: "journal_ok env w (events d w) (db_tasks d) (db_executions d)" by (rule hist_okD(1)[OF ok old])
  show ne: "events d w \<noteq> []" using journal_parts(7)[OF j] insert_event_exists[OF ins] by simp
  have sch: "is_schedule ev" using ty by (simp add: ev_def is_schedule_def)
  then show "awaited (events d1 w) k" if "k \<in> K"
    unfolding evs using hist_okD(2)[OF ok old that] other_kinds(6) awaited_append by blast
  have cmd: "ev_command_id ev = Some c" and ent: "ev_entity_id ev = en" "ev_type ev = ty" by (simp_all add: ev_def)
  note sched = journal_schedule[OF j free ids[unfolded evs] ne running_open_log[OF j e] sch cmd new_command[OF ins ty],
      unfolded ent, OF en]
  show "journal_ok env w (events d w @ [ev]) (db_tasks d) (db_executions d)" by (rule sched(1))
  show "\<not> scheduled_by ty' (events d w) (Some u)" if "en = Some u" "ty' \<in> set SCHEDULE_EVENT_TYPES" for u ty'
    by (rule sched(2)[OF _ _ that])
qed

text \<open>The three shapes of a command: an event alone, with a task, and with a child.\<close>

lemma hist_schedule:
  assumes ins: "insert_event x v n ty (Some c) en ext attrs d = Inr d1" and ok: "hist_ok env C K w d"
    and free: "collision_free env w C" and e: "find_execution d v = Some e" "ex_status e = WfRunning"
    and ty: "ty \<in> set SCHEDULE_EVENT_TYPES" and en: "\<And>u. en = Some u \<Longrightarrow> named env v ty c u"
      "ty \<in> set ENTITY_EVENT_TYPES \<Longrightarrow> en \<noteq> None"
  shows "hist_ok env C K w d1"
proof (cases "v = w")
  case True
  note sched = schedule_journal[OF ins[unfolded True] ok free e(1)[unfolded True] e(2) ty en[unfolded True]]
  show ?thesis
    unfolding hist_ok_def
    using sched(1,3,6) insert_event_frame(1,2)[OF ins] by auto
next
  case False
  with ok quiet_event[OF ins] show ?thesis by (blast intro: hist_ok_quiet)
qed

lemma hist_schedule_task:
  assumes ins: "insert_event x v n ty (Some c) (Some u) ext attrs d = Inr d1" and ok: "hist_ok env C K w d"
    and free: "collision_free env w C" and e: "find_execution d v = Some e" "ex_status e = WfRunning"
    and u: "named env v ty c u" and task: "insert_task t d1 = Inr d2"
    and t: "(ty, tk_task_type t) \<in> {(ActivityScheduled, ActivityTask), (TimerStarted, TimerTask)}"
      "tk_workflow_id t = v" "tk_entity_id t = Some u"
  shows "hist_ok env C K w d2"
proof (cases "v = w")
  case True
  have ty: "ty \<in> set SCHEDULE_EVENT_TYPES" using t(1) by (auto simp: SCHEDULE_EVENT_TYPES_def)
  have same: "events d2 w = events d1 w"
    using insert_task_frame(2)[OF task] by (simp add: events_def workflow_history_def)
  note frame = insert_task_frame(1,5)[OF task] insert_event_frame(1,2)[OF ins]
  show ?thesis unfolding hist_ok_def
  proof (intro impI conjI ballI)
    assume "command_ids (events d2 w) \<subseteq> C"
    then have ids: "command_ids (events d1 w) \<subseteq> C" by (simp add: same)
    note sched = schedule_journal[OF ins[unfolded True] ok free e(1)[unfolded True] e(2) ty _ _ ids]
    show "awaited (events d2 w) k" if "k \<in> K" for k
      using sched(6)[OF _ _ that] u True by (simp add: same)
    show "journal_ok env w (events d2 w) (db_tasks d2) (db_executions d2)"
      using journal_schedule_task[OF sched(2) _ sched(3) sched(4), of t] sched(1,5) u ty t True
      by (simp add: same frame)
  qed
next
  case False
  with quiet_event[OF ins False] quiet_other_task[OF task] t(2) show ?thesis
    by (blast intro: hist_ok_quiet[OF ok] quiet_trans)
qed

lemma hist_schedule_child:
  assumes ins: "insert_event x v n ChildWorkflowStarted (Some c) (Some (ex_id r)) ext attrs d = Inr d1"
    and ok: "hist_ok env C K w d"
    and free: "collision_free env w C" and e: "find_execution d v = Some e" "ex_status e = WfRunning"
    and u: "named env v ChildWorkflowStarted c (ex_id r)"
    and new: "create_execution env' x i r ats d1 = Inr d2" and r: "ex_parent_workflow_id r = Some v"
  shows "hist_ok env C K w d2"
proof (cases "v = w")
  case True
  have ty: "ChildWorkflowStarted \<in> set SCHEDULE_EVENT_TYPES" by (simp add: SCHEDULE_EVENT_TYPES_def)
  obtain da db where a: "da = d1\<lparr>db_executions := db_executions d1 @ [r]\<rparr>" "\<not> execution_exists d1 (ex_id r)"
    and b: "insert_event x (ex_id r) 1 WorkflowExecutionStarted None None None ats da = Inr db"
    and c: "insert_workflow_task x i (ex_id r) (ex_queue_name r) db = Inr d2"
    using new by (auto simp: create_execution_def insert_execution_def res_simps)
  have other: "ex_id r \<noteq> w"
    using a(2) find_execution_Some[OF e(1)] True insert_event_frame(1)[OF ins] by (auto simp: execution_exists_iff)
  have same: "events da w = events d1 w" by (simp add: a events_def workflow_history_def)
  have "hist_ok env C K w da" unfolding hist_ok_def
  proof (intro impI conjI ballI)
    assume "command_ids (events da w) \<subseteq> C"
    then have ids: "command_ids (events d1 w) \<subseteq> C" by (simp add: same)
    note sched = schedule_journal[OF ins[unfolded True] ok free e(1)[unfolded True] e(2) ty _ _ ids]
    show "awaited (events da w) k" if "k \<in> K" for k
      using sched(6)[OF _ _ that] u True by (simp add: same)
    show "journal_ok env w (events da w) (db_tasks da) (db_executions da)"
      unfolding same using journal_schedule_child[OF sched(2) _ sched(3), of r] sched(1,5) u ty other True
      by (simp add: a insert_event_frame(1,2)[OF ins])
  qed
  with quiet_event[OF b other] quiet_workflow_task[OF c] show ?thesis by (blast intro: hist_ok_quiet quiet_trans)
next
  case False
  have "hist_ok env C K w d1" by (rule hist_ok_quiet[OF ok quiet_event[OF ins False]])
  from hist_create[OF new this] r False show ?thesis by simp
qed


lemma append_command_journal:
  assumes op: "append_command env' x v q (i, c) (d, n) = Inr (d', n')" and ok: "hist_ok env C K w d"
    and free: "collision_free env w C" and e: "find_execution d v = Some e" "ex_status e = WfRunning"
    and c: "named_command env v c" "\<not> is_continuation c"
  shows "hist_ok env C K w d'"
proof (cases c)
  case (ScheduleActivity a)
  with op obtain attrs d1 t where
    1: "insert_event x v n ActivityScheduled (Some (sa_command_id a)) (Some (sa_entity_id a)) None attrs d = Inr d1"
    and 2: "insert_task t d1 = Inr d'"
    and t: "tk_task_type t = ActivityTask" "tk_workflow_id t = v" "tk_entity_id t = Some (sa_entity_id a)"
    by (auto simp: append_command_def res_simps append_activity_command_def workflow_task_def)
  show ?thesis by (rule hist_schedule_task[OF 1 ok free e _ 2]) (use t c ScheduleActivity in auto)
next
  case (ScheduleTimer a)
  with op obtain attrs d1 t where
    1: "insert_event x v n TimerStarted (Some (st_command_id a)) (Some (st_entity_id a)) None attrs d = Inr d1"
    and 2: "insert_task t d1 = Inr d'"
    and t: "tk_task_type t = TimerTask" "tk_workflow_id t = v" "tk_entity_id t = Some (st_entity_id a)"
    by (auto simp: append_command_def res_simps append_timer_command_def workflow_task_def)
  show ?thesis by (rule hist_schedule_task[OF 1 ok free e _ 2]) (use t c ScheduleTimer in auto)
next
  case (RecordMarker m)
  with op obtain attrs where
    1: "insert_event x v n MarkerRecorded (Some (rm_command_id m)) None None attrs d = Inr d'"
    by (auto simp: append_command_def res_simps append_marker_command_def)
  show ?thesis by (rule hist_schedule[OF 1 ok free e]) (simp_all add: event_type_defs)
next
  case (StartChildWorkflow b)
  let ?r = "\<lambda>child_queue attributes.
    (new_execution (sc_child_workflow_id b) (sc_workflow_type b) (sc_definition_version b) (sc_input b)
       child_queue (tx_clock x i) attributes)
      \<lparr>ex_parent_workflow_id := Some v, ex_parent_command_id := Some (sc_command_id b),
       ex_parent_close_policy := Some (sc_parent_close_policy b)\<rparr>"
  from op StartChildWorkflow obtain attrs d1 cq ca ats where
    1: "insert_event x v n ChildWorkflowStarted (Some (sc_command_id b)) (Some (sc_child_workflow_id b)) None
      attrs d = Inr d1"
    and 2: "create_execution env' x (tx_uuid x i) (?r cq ca) ats d1 = Inr d'"
    by (auto simp: append_command_def res_simps append_child_workflow_command_def Let_def)
  show ?thesis
    by (rule hist_schedule_child[OF _ ok free e _ 2]) (use 1 c StartChildWorkflow in \<open>simp_all add: new_execution_def\<close>)
next
  case (ResolveWorkflowUpdate u)
  with op obtain p f attrs ext where
    1: "insert_event x v n WorkflowUpdateResolved (Some (ru_command_id u)) None ext attrs
      (update_updates p f d) = Inr d'"
    by (auto simp: append_command_def res_simps append_update_resolution_def Let_def)
  have e': "find_execution (update_updates p f d) v = Some e" using e by simp
  show ?thesis
    by (rule hist_schedule[OF 1 hist_ok_quiet[OF ok quiet_updates] free e' e(2)]) (simp_all add: event_type_defs)
next
  case (ContinueAsNew k)
  with c show ?thesis by simp
qed

lemma append_all_journal:
  assumes "foldR (append_command env' x v q) (List.enumerate i cs) (d, n) = Inr (d', n')"
    and "progress ov X Y d0 d" and "dom ov \<subseteq> {v}" and "find_execution d v = Some e"
    and "ex_status e = WfRunning" and "cursor ov e = n" and "hist_ok env C K w d" and "collision_free env w C"
    and "\<forall>c\<in>set cs. named_command env v c \<and> \<not> is_continuation c"
  shows "hist_ok env C K w d'"
  using assms
proof (induction cs arbitrary: i d n ov)
  case (Cons c cs)
  obtain d1 n1 where 1: "append_command env' x v q (i, c) (d, n) = Inr (d1, n1)"
    and 2: "foldR (append_command env' x v q) (List.enumerate (Suc i) cs) (d1, n1) = Inr (d', n')"
    using Cons.prems(1) by (auto simp: res_simps)
  have c: "named_command env v c" "\<not> is_continuation c"
    and rest: "\<forall>c\<in>set cs. named_command env v c \<and> \<not> is_continuation c"
    using Cons.prems(9) by simp_all
  note next_ = append_command_progress[OF 1 Cons.prems(2-6) c(2)]
  have id: "ex_id e = v" using find_execution_Some[OF Cons.prems(4)] by simp
  have dom: "dom [v \<mapsto> n1] \<subseteq> {v}" by (simp del: fun_upd_apply)
  have "hist_ok env C K w d1"
    by (rule append_command_journal[OF 1 Cons.prems(7,8,4,5) c])
  from Cons.IH[OF 2 next_(1) dom next_(2) Cons.prems(5) cursor_simps(2)[OF id] this Cons.prems(8) rest]
  show ?case .
qed simp

lemma append_commands_journal:
  assumes op: "append_commands env' x v q n cs d = Inr d'" and p: "progress Map.empty X Y d0 d"
    and e: "find_execution d v = Some e" "ex_status e = WfRunning" "ex_next_seq e = n"
    and ok: "hist_ok env C K w d" and free: "collision_free env w C"
    and cs: "\<forall>c\<in>set cs. named_command env v c \<and> \<not> is_continuation c"
  shows "hist_ok env C K w d'"
proof -
  obtain d1 n1 d2 where
    1: "foldR (append_command env' x v q) (List.enumerate 0 cs) (d, n) = Inr (d1, n1)"
    and 2: "(if list_ex records_marker cs then insert_workflow_task x (tx_uuid x (length cs)) v q d1
      else Inr d1) = Inr d2" and d': "d' = set_next_seq v n1 d2"
    using op by (auto simp: append_commands_def res_simps)
  have "hist_ok env C K w d1" by (rule append_all_journal[OF 1 p _ e(1,2) _ ok free cs]) (simp_all add: e(3))
  moreover have "quiet w d1 d2" using 2 by (auto intro: quiet_workflow_task split: if_splits)
  ultimately show ?thesis unfolding d' by (blast intro: hist_ok_quiet quiet_set_next_seq)
qed

subsection \<open>Continuation\<close>

lemma create_execution_fresh: "create_execution env x i r attrs d = Inr d' \<Longrightarrow> find_execution d (ex_id r) = None"
  using find_execution_None[of d "ex_id r"]
  by (auto simp: create_execution_def insert_execution_def res_simps execution_exists_iff)

lemma commit_continue_as_new_journal:
  assumes op: "commit_continue_as_new env' x v i n c d = Inr d'" and ok: "hist_ok env C K w d"
    and e: "find_execution d v = Some e" "ex_status e = WfRunning" and free: "collision_free env w C"
    and c: "named env v WorkflowExecutionContinuedAsNew (cn_command_id c) (cn_new_workflow_id c)"
  shows "hist_ok env C K w d'"
proof -
  let ?f = "\<lambda>e. e\<lparr>ex_status := WfCompleted,
     ex_result := Some (JObj [(''continued_to'', JStr (uuid_str (cn_new_workflow_id c)))]),
     ex_next_seq := n + 2, ex_closed_at := Some (tx_now x),
     ex_continued_to := Some (cn_new_workflow_id c)\<rparr>"
  obtain attrs1 d1 attrs2 d2 r attrs3 d3 where
    1: "insert_event x v n WorkflowExecutionContinuedAsNew (Some (cn_command_id c))
      (Some (cn_new_workflow_id c)) None attrs1 d = Inr d1"
    and 2: "insert_event x v (n + 1) WorkflowExecutionCompleted None None None attrs2 d1 = Inr d2"
    and 3: "create_execution env' x (tx_uuid x 0) r attrs3 d2 = Inr d3" and r: "ex_parent_workflow_id r = None"
    and d': "d' = kill_other_tasks x v i (reject_pending_updates x v ''workflow continued as new''
      (update_execution v ?f d3))"
    using op e(1) by (auto simp: commit_continue_as_new_def res_simps Let_def)
  have h1: "hist_ok env C K w d1"
    by (rule hist_schedule[OF 1 ok free e]) (use c in \<open>simp_all add: event_type_defs\<close>)
  have e1: "find_execution d1 v = Some e" "find_execution d2 v = Some e"
    using insert_event_find[OF 1] insert_event_find[OF 2] e(1) by simp_all
  have "quiet w d3 (update_execution v ?f d3)" by (rule quiet_row) (simp add: row_le_def)
  then have q: "quiet w d3 d'" unfolding d' by (blast intro: quiet_trans quiet_kill quiet_reject)
  show ?thesis
  proof (cases "v = w")
    case True
    have "ex_id r \<noteq> w" using create_execution_fresh[OF 3] e1(2) True by auto
    then have "quiet w d2 d'" using quiet_create[OF 3] r q by (auto intro: quiet_trans)
    then show ?thesis
    proof (rule hist_close[OF quiet_refl 2 _ h1 e1(1) e(2)])
      fix s assume "s \<in> set (db_executions d')" "ex_id s = v"
      then show "ex_status s \<noteq> WfRunning"
        using updated_row[of s v ?f d3] by (auto simp: d' reject_pending_updates_def kill_other_tasks_def)
    qed (simp add: event_type_defs)
  next
    case False
    have "hist_ok env C K w d3"
      by (rule hist_create[OF 3 hist_ok_quiet[OF h1 quiet_event[OF 2 False]]]) (simp add: r)
    with q show ?thesis by (blast intro: hist_ok_quiet)
  qed
qed

lemma commit_commands_journal:
  assumes com: "committed d" and op: "commit_commands env' k x task q e cs d = Inr d'"
    and ok: "hist_ok env C {} w d" and free: "collision_free env w C"
    and e: "find_execution d (lt_workflow_id task) = Some e" "ex_status e = WfRunning"
    and cs: "\<forall>c\<in>set cs. named_command env (lt_workflow_id task) c"
  shows "hist_ok env C {} w d'"
proof (cases "filter is_continuation cs")
  case Nil
  then have "\<forall>c\<in>set cs. named_command env (lt_workflow_id task) c \<and> \<not> is_continuation c"
    using cs by (simp add: filter_empty_conv)
  moreover have "append_commands env' x (lt_workflow_id task) q (ex_next_seq e) cs d = Inr d'"
    using op Nil by (simp add: commit_commands_def split: if_splits)
  ultimately show ?thesis
    using append_commands_journal[OF _ committed_progress[OF com] e refl ok free] by blast
next
  case (Cons c rest)
  then have "is_continuation c" "c \<in> set cs" using filter_eq_ConsD[OF Cons] by auto
  then obtain n where c: "c = ContinueAsNew n" by (cases c) auto
  with Cons op obtain d1 where 1: "terminate_descendants k x (lt_workflow_id task) d = Inr d1"
    and 2: "commit_continue_as_new env' x (lt_workflow_id task) (lt_id task) (ex_next_seq e) n d1 = Inr d'"
    by (auto simp: commit_commands_def res_simps split: if_splits)
  note p = committed_progress[OF com]
  have "hist_ok env C {} w d1" by (rule terminate_descendants_keeps[OF 1 p _ hist_terminate_child ok]) simp
  moreover have "find_execution d1 (lt_workflow_id task) = Some e"
    by (rule terminate_descendants_of_progress(2)[OF 1 p _ e(1)]) simp
  moreover have "named env (lt_workflow_id task) WorkflowExecutionContinuedAsNew (cn_command_id n) (cn_new_workflow_id n)"
    using cs \<open>c \<in> set cs\<close> c by auto
  ultimately show ?thesis using commit_continue_as_new_journal[OF 2 _ _ e(2) free] by blast
qed

lemma commit_workflow_replay_journal:
  assumes com: "committed d" and op: "commit_workflow_replay env' k x task rr d = Inr (d', r)"
    and ok: "hist_ok env C {} w d" and free: "collision_free env w C"
    and cs: "\<forall>c\<in>set (rr_commands rr). named_command env (lt_workflow_id task) c"
  shows "hist_ok env C {} w d'"
proof -
  obtain t where t: "List.find (holds_lease x (lt_id task) (lt_lease_token task)) (db_tasks d) = Some t"
    using op by (auto simp: commit_workflow_replay_def res_simps split: if_splits)
  obtain e where e: "find_execution d (lt_workflow_id task) = Some e" "ex_status e = WfRunning"
    using op t by (auto simp: commit_workflow_replay_def res_simps split: if_splits)
  from op t e obtain d1 where 1: "(if ex_cancellation_requested_at e \<noteq> None
        \<and> rr_status rr \<in> {COMMANDS, BLOCKED}
      then commit_cancellation k x task e d
      else case rr_status rr of
          COMMANDS \<Rightarrow> commit_commands env' k x task (tk_queue_name t) e (rr_commands rr) d
        | COMPLETED \<Rightarrow> commit_close k x task e True (rr_result rr) d
        | FAILED \<Rightarrow> commit_close k x task e False (rr_failure rr) d
        | BLOCKED \<Rightarrow> Inr d) = Inr d1" and 2: "complete_task x task d1 = Inr d'"
    by (auto simp: commit_workflow_replay_def res_simps simp del: insert_iff split: if_splits)
  have "hist_ok env C {} w d1"
    using 1 ok commit_cancellation_journal[OF com _ ok e] commit_commands_journal[OF com _ ok free e cs]
      commit_close_journal[OF com _ ok e]
    by (auto split: if_splits replay_status.splits)
  then show ?thesis by (rule hist_ok_quiet[OF _ quiet_complete[OF 2]])
qed

end
