(* ===== verification/Faithful.thy ===== *)
theory Faithful
  imports History_Commit Workers
begin

text \<open>
  The engine with owners that keep to the protocol: what a worker reports names the task it leased, and
  the commands it commits carry the identities that replay computes. The workers of
  \<^verbatim>\<open>engine/workers\<close> are such owners, and under them every history stays in order.
\<close>

section \<open>Faithful owners\<close>

abbreviation faithful :: "pyenv \<Rightarrow> db \<Rightarrow> db \<Rightarrow> bool" where
  "faithful env \<equiv> step_where task_matches (\<lambda>_ w rr. \<forall>c\<in>set (rr_commands rr). named_command env w c)"

lemma faithful_commit:
  "task_matches task d \<Longrightarrow> \<forall>c\<in>set (rr_commands rr). named_command env (lt_workflow_id task) c \<Longrightarrow>
    commit_workflow_replay env' k x task rr d = Inr (d', u) \<Longrightarrow> faithful env d d'"
  by (rule commit_where)

lemma faithful_complete:
  "task_matches task d \<Longrightarrow> complete_activity x task p d = Inr (d', u) \<Longrightarrow> faithful env d d'"
  by (rule complete_where)

lemma faithful_fail:
  "task_matches task d \<Longrightarrow> fail_activity env' x task p rv d = Inr (d', b) \<Longrightarrow> faithful env d d'"
  by (rule fail_where)

lemma faithful_step: "faithful env d d' \<Longrightarrow> step d d'"
  by (erule step_where_mono) simp_all

lemma faithful_steps: "(faithful env)\<^sup>*\<^sup>* d d' \<Longrightarrow> step\<^sup>*\<^sup>* d d'"
  by (rule rtranclp_mono[THEN predicate2D]) (auto intro: faithful_step)

lemma faithful_journal:
  assumes "faithful env d d'" and com: "committed d" and free: "collision_free env w C"
    and ok: "hist_ok env C {} w d"
  shows "hist_ok env C {} w d'"
  using assms(1)
proof cases
  case step_register then show ?thesis using register_journal.keeps[OF com _ ok] by blast
next
  case step_start then show ?thesis using start_journal.keeps[OF com _ ok] by blast
next
  case step_retry then show ?thesis using retry_journal.keeps[OF com _ ok] by blast
next
  case step_pause then show ?thesis using pause_journal.keeps[OF com _ ok] by blast
next
  case step_resume then show ?thesis using resume_journal.keeps[OF com _ ok] by blast
next
  case step_attributes then show ?thesis using attributes_journal.keeps[OF com _ ok] by blast
next
  case step_terminate then show ?thesis using terminate_journal.keeps[OF com _ ok] by blast
next
  case step_cancel then show ?thesis using cancel_journal.keeps[OF com _ ok] by blast
next
  case step_signal then show ?thesis using signal_journal.keeps[OF com _ ok] by blast
next
  case step_update then show ?thesis using update_journal.keeps[OF com _ ok] by blast
next
  case step_effect then show ?thesis using effect_journal.keeps[OF com _ ok] by blast
next
  case step_lease then show ?thesis using lease_journal.keeps[OF com _ ok] by blast
next
  case step_renew then show ?thesis using renew_journal.keeps[OF com _ ok] by blast
next
  case step_heartbeat then show ?thesis using heartbeat_journal.keeps[OF com _ ok] by blast
next
  case step_reclaim then show ?thesis using reclaim_journal.keeps[OF com _ ok] by blast
next
  case step_release then show ?thesis using release_journal.keeps[OF com _ ok] by blast
next
  case commit_where then show ?thesis using commit_workflow_replay_journal[OF com _ ok free] by blast
next
  case complete_where then show ?thesis using complete_activity_journal[OF com _ ok] by blast
next
  case fail_where then show ?thesis using fail_activity_journal[OF com _ ok] by blast
next
  case step_timer then show ?thesis using timer_journal.keeps[OF com _ ok] by blast
next
  case step_timeout then show ?thesis using timeout_journal.keeps[OF com _ ok] by blast
next
  case step_create_schedule then show ?thesis using create_schedule_journal.keeps[OF com _ ok] by blast
next
  case step_pause_schedule then show ?thesis using pause_schedule_journal.keeps[OF com _ ok] by blast
next
  case step_materialize then show ?thesis using materialize_journal.keeps[OF com _ ok] by blast
next
  case step_backfill then show ?thesis using backfill_journal.keeps[OF com _ ok] by blast
next
  case step_worker then show ?thesis using worker_journal.keeps[OF com _ ok] by blast
next
  case step_stop_worker then show ?thesis using stop_worker_journal.keeps[OF com _ ok] by blast
qed

lemma hist_empty: "hist_ok env C {} w empty_db"
  by (simp add: hist_ok_def journal_ok_def events_def workflow_history_def empty_db_def one_open_def)

lemma faithful_history:
  assumes "(faithful env)\<^sup>*\<^sup>* empty_db d" and "collision_free env w C"
  shows "hist_ok env C {} w d"
  using assms(1)
proof (induction rule: rtranclp_induct)
  case (step y z)
  have "committed y" using steps_progress[OF faithful_steps[OF step.hyps(1)] committed_empty] by simp
  from faithful_journal[OF step.hyps(2) this assms(2) step.IH] show ?case .
qed (rule hist_empty)

lemma faithful_valid_history:
  assumes "(faithful env)\<^sup>*\<^sup>* empty_db d" and "find_execution d w = Some e"
    and "collision_free env w (command_ids (events d w))"
  shows "valid_history (events d w)"
proof -
  have "committed d" using steps_progress[OF faithful_steps[OF assms(1)] committed_empty] by simp
  from log_of_seqs[OF this assms(2)] have seqs: "map ev_seq (events d w) = [1..int (length (events d w))]"
    by (simp add: log_of_def events_def)
  note j = hist_okD(1)[OF faithful_history[OF assms(1,3)] subset_refl]
  have "events d w \<noteq> []" using journal_parts(7)[OF j] find_execution_Some[OF assms(2)] by auto
  moreover from this have "ev_type (hd (events d w)) = WorkflowExecutionStarted" using j by (simp add: journal_ok_def)
  ultimately show ?thesis
    using orderly_events_ok[OF journal_parts(1)[OF j] seqs] by (simp add: valid_history_def)
qed

text \<open>What a worker loads for a replay is the log of the workflow.\<close>

lemma loaded_history:
  assumes "load_workflow_replay_state x task d d1 d2 = Inr st" and "only_appends d1 d2" and "committed d2"
  shows "rs_history st = events d2 (lt_workflow_id task)" and "find_execution d2 (lt_workflow_id task) \<noteq> None"
    and "rs_workflow_id st = lt_workflow_id task"
proof -
  obtain e1 where "find_execution d1 (lt_workflow_id task) = Some e1"
    and st: "rs_history st = map history_event_from_row (sort_key hr_seq (workflow_history d2 (lt_workflow_id task)))"
      "rs_workflow_id st = lt_workflow_id task"
    using assms(1) by (auto simp: load_workflow_replay_state_def split: if_splits option.splits)
  then obtain e where e: "find_execution d2 (lt_workflow_id task) = Some e"
    using only_appends_find[OF assms(2)] by blast
  have "sorted (map hr_seq (workflow_history d2 (lt_workflow_id task)))"
    using committed_sequence(1)[OF assms(3) e] by simp
  then show "rs_history st = events d2 (lt_workflow_id task)" using st by (simp add: events_def sort_key_id_if_sorted)
  show "find_execution d2 (lt_workflow_id task) \<noteq> None" "rs_workflow_id st = lt_workflow_id task"
    using e st by simp_all
qed

section \<open>The workers are faithful\<close>

lemma task_matches_later: "task_matches task d \<Longrightarrow> only_appends d d' \<Longrightarrow> task_matches task d'"
  unfolding task_matches_def only_appends_def task_identity_def by fastforce

lemma leased_task_matches:
  assumes "lease_task env x ty q dur d = Inr (d', Some task)"
  shows "task_matches task d'"
proof -
  obtain t where t: "lease_candidate x ty q d = Some t" and task: "task = leased_task_of x (tx_uuid x 0) dur t"
    using assms by (auto simp: lease_task_def Let_def res_simps split: if_splits option.splits)
  let ?d = "update_tasks (\<lambda>s. tk_id s = tk_id t \<and> tk_status s = TkPending) (take_lease x (tx_uuid x 0) dur) d"
  have "db_tasks d' = db_tasks ?d"
    using assms t by (auto simp: lease_task_def Let_def res_simps set_next_seq_def
        dest!: insert_event_frame(2) split: if_splits option.splits)
  moreover have "t \<in> set (db_tasks d)"
    using t by (auto simp: lease_candidate_def dest!: select_first_Some(1))
  then have "(if tk_status t = TkPending then take_lease x (tx_uuid x 0) dur t else t) \<in> set (db_tasks ?d)"
    by (force simp: update_tasks_def)
  ultimately show ?thesis
    unfolding task_matches_def task
    by (intro bexI[of _ "if tk_status t = TkPending then take_lease x (tx_uuid x 0) dur t else t"])
      (simp_all add: leased_task_of_def take_lease_def)
qed

lemma matches_after_steps:
  "task_matches task d \<Longrightarrow> committed d \<Longrightarrow> (faithful env)\<^sup>*\<^sup>* d d' \<Longrightarrow> task_matches task d'"
  using steps_progress[OF faithful_steps] task_matches_later by blast

lemma run_workflow_task_faithful:
  assumes other: "interferes (faithful env) other" and com: "committed d"
  shows "(faithful env)\<^sup>*\<^sup>* d (fst (run_workflow_task env k x other reg q dur d))"
proof (cases "lease_task env (x 0) WorkflowTask q dur d")
  case (Inr p)
  obtain d1 t where p: "p = (d1, t)" by (cases p)
  have lease: "faithful env d d1" using Inr by (auto simp: p intro: step_lease)
  show ?thesis
  proof (cases t)
    case (Some task)
    define e1 e2 e3 e4 where e: "e1 = other (Suc 0) d1" "e2 = other 2 e1" "e3 = other 3 e2" "e4 = other 4 e3"
    have o: "(faithful env)\<^sup>*\<^sup>* d1 e1" "(faithful env)\<^sup>*\<^sup>* e1 e2" "(faithful env)\<^sup>*\<^sup>* e2 e3" "(faithful env)\<^sup>*\<^sup>* e3 e4"
      using other by (auto simp: e intro: interferes_then)
    have s: "(faithful env)\<^sup>*\<^sup>* d d1" "(faithful env)\<^sup>*\<^sup>* d1 e2" using lease rtranclp_trans[OF o(1,2)] by simp_all
    have 1: "(faithful env)\<^sup>*\<^sup>* d1 e4" using rtranclp_trans[OF s(2) rtranclp_trans[OF o(3,4)]] .
    have 2: "(faithful env)\<^sup>*\<^sup>* d e2" "(faithful env)\<^sup>*\<^sup>* d e3" "(faithful env)\<^sup>*\<^sup>* d e4"
      using rtranclp_trans[OF s] rtranclp_trans[OF rtranclp_trans[OF s] o(3)] rtranclp_trans[OF s(1) 1] by simp_all
    have coms: "committed d1" "committed e2" "committed e3" "only_appends e2 e3"
      using steps_progress[OF faithful_steps[OF s(1)] com] steps_progress[OF faithful_steps[OF 2(1)] com]
        steps_progress[OF faithful_steps[OF 2(2)] com] steps_progress[OF faithful_steps[OF o(3)]] by simp_all
    have m: "task_matches task e4"
      using leased_task_matches[of env "x 0" WorkflowTask q dur d d1 task] Inr Some
      by (intro matches_after_steps[OF _ coms(1) 1]) (simp add: p)
    have commits: "(faithful env)\<^sup>*\<^sup>* d d'"
      if "load_workflow_replay_state (x 1) task e1 e2 e3 = Inr st"
        "replay_workflow env f (rs_workflow_id st) i h = Inr rr"
        "commit_workflow_replay env k (x 2) task rr e4 = Inr (d', u)" for st f i h rr d' u
    proof (rule steps_then[OF 2(3) faithful_commit[OF m _ that(3)]])
      show "\<forall>c\<in>set (rr_commands rr). named_command env (lt_workflow_id task) c"
        using replay_names[OF that(2)] loaded_history(3)[OF that(1) coms(4,3)] by simp
    qed
    show ?thesis
      using 2 Inr Some commits
      by (auto simp: run_workflow_task_def p Let_def e[symmetric] split: sum.splits
          intro: steps_then[OF 2(3) step_release])
  qed (use lease Inr in \<open>simp add: run_workflow_task_def p\<close>)
qed (simp add: run_workflow_task_def)

lemma run_activity_task_faithful:
  assumes other: "interferes (faithful env) other" and com: "committed d"
  shows "(faithful env)\<^sup>*\<^sup>* d (fst (run_activity_task env x other reg q dur d))"
proof (cases "lease_task env (x 0) ActivityTask q dur d")
  case (Inr p)
  obtain d1 t where p: "p = (d1, t)" by (cases p)
  have 0: "(faithful env)\<^sup>*\<^sup>* d d1" using Inr by (auto simp: p intro: step_lease)
  have "(faithful env)\<^sup>*\<^sup>* d (fst (finish_activity env (x i) task oc (other i d2)))"
    if "run_activity act env x other task 1 d1 = (d2, i, oc)" and t: "t = Some task" for act task d2 i oc
  proof -
    have 1: "(faithful env)\<^sup>*\<^sup>* d1 (other i d2)"
      using run_activity_steps[OF other rtranclp.rtrancl_refl, of d1 act env x task 1] that(1)
      by (intro interferes_then[OF other]) simp
    have "committed d1" using steps_progress[OF faithful_steps[OF 0] com] by simp
    then have m: "task_matches task (other i d2)"
      using leased_task_matches[of env "x 0" ActivityTask q dur d d1 task] Inr t
      by (intro matches_after_steps[OF _ _ 1]) (simp_all add: p)
    note 2 = rtranclp_trans[OF 0 1]
    show ?thesis
      by (auto simp: finish_activity_def 2 split: activity_outcome.splits sum.splits
          intro: steps_then[OF 2 faithful_fail[OF m]] steps_then[OF 2 faithful_complete[OF m]])
  qed
  with 0 Inr show ?thesis
    by (auto simp: run_activity_task_def p Let_def split: sum.splits option.splits prod.splits)
qed (simp add: run_activity_task_def)

end
