(* ===== verification/Worker_Service.thy ===== *)
theory Worker_Service
  imports Faithful
begin

text \<open>
  \<^verbatim>\<open>run_worker\<close> of \<^verbatim>\<open>engine/workers/runner.py\<close>: the heartbeat loop and one loop per role run concurrently
  in a task group until the stop event is set. A run is the sequence of the turns that the event loop
  gives to them; a turn is one whole iteration of one loop, after which its tests of the stop event and
  its pauses leave the order of the turns open. What others commit inside a turn is its interference,
  what they commit between two turns is a turn of its own; so is what a loop had committed of an
  iteration that a crash or an interrupt of the group cancels.
\<close>

section \<open>The service\<close>

datatype service_turn =
    HeartbeatTurn tx
  | HeartbeatLost db_error
  | RoleTurn string "nat \<Rightarrow> tx" "nat \<Rightarrow> db \<Rightarrow> db"
  | OthersTurn "db \<Rightarrow> db"
  | StopTurn
  | InterruptTurn

text \<open>
  A run ends because the stop event is set, because the heartbeat fails, or because the service is cancelled:
  \<^verbatim>\<open>asyncio\<close> cancels its main task for an interrupt from the keyboard, where no handler is installed that
  would set the stop event.
\<close>

datatype service_exit = Running | Stopped | Crashed db_error | Interrupted

record service =
  sv_db :: db
  sv_metrics :: "string \<Rightarrow> loop_metrics"

record service_config =
  vc_env :: pyenv
  vc_zones :: zones
  vc_depth :: nat
  vc_registry :: worker_registry
  vc_queue_name :: string
  vc_roles :: "string list"
  vc_worker_id :: uuid
  vc_hostname :: string
  vc_process_id :: int

text \<open>
  The steps of the three roles, with the defaults of the worker functions: leases of 30 seconds and at most
  100 reclaimed tasks.
\<close>

definition role_step ::
  "service_config \<Rightarrow> string \<Rightarrow> (nat \<Rightarrow> tx) \<Rightarrow> (nat \<Rightarrow> db \<Rightarrow> db) \<Rightarrow> db \<Rightarrow> db \<times> (worker_error + int)" where
  "role_step c role x other d =
     (if role = ''workflow''
      then map_prod id (map_sum id of_bool)
             (run_workflow_task (vc_env c) (vc_depth c) x other (vc_registry c) (vc_queue_name c) 30000000 d)
      else if role = ''activity''
      then map_prod id (map_sum id of_bool)
             (run_activity_task (vc_env c) x other (vc_registry c) (vc_queue_name c) 30000000 d)
      else run_maintenance (vc_env c) (vc_zones c) x other (Some (vc_queue_name c)) 100 None d)"

definition role_turn ::
  "service_config \<Rightarrow> string \<Rightarrow> (nat \<Rightarrow> tx) \<Rightarrow> (nat \<Rightarrow> db \<Rightarrow> db) \<Rightarrow> service \<Rightarrow> service" where
  "role_turn c role x other s =
     (let (d, r) = role_step c role x other (sv_db s)
      in \<lparr>sv_db = d, sv_metrics = (sv_metrics s)(role := count_iteration r (sv_metrics s role))\<rparr>)"

text \<open>One iteration of the heartbeat loop.\<close>

definition heartbeat_turn :: "service_config \<Rightarrow> tx \<Rightarrow> service \<Rightarrow> db_error + service" where
  "heartbeat_turn c x s =
     map_sum id (\<lambda>(d, u). s\<lparr>sv_db := d\<rparr>)
       (heartbeat_worker x (vc_worker_id c) (vc_hostname c) (vc_process_id c) (vc_queue_name c) (vc_roles c)
          (sv_db s))"

text \<open>
  The task group. The heartbeat loop catches nothing: its exception ends the group, and with it every role.
\<close>

fun run_service :: "service_config \<Rightarrow> service_turn list \<Rightarrow> service \<Rightarrow> service \<times> service_exit" where
  "run_service c [] s = (s, Running)"
| "run_service c (HeartbeatTurn x # ts) s =
     (case heartbeat_turn c x s of Inl e \<Rightarrow> (s, Crashed e) | Inr s \<Rightarrow> run_service c ts s)"
| "run_service c (HeartbeatLost e # ts) s = (s, Crashed e)"
| "run_service c (RoleTurn role x other # ts) s =
     run_service c ts (if role \<in> set (vc_roles c) then role_turn c role x other s else s)"
| "run_service c (OthersTurn f # ts) s = run_service c ts (s\<lparr>sv_db := f (sv_db s)\<rparr>)"
| "run_service c (StopTurn # ts) s = (s, Stopped)"
| "run_service c (InterruptTurn # ts) s = (s, Interrupted)"

text \<open>
  The whole function. \<open>stop\<close> is the transaction of the last write; \<open>None\<close> is that it fails, which is
  suppressed.
\<close>

definition run_worker ::
  "service_config \<Rightarrow> py_float \<Rightarrow> py_float \<Rightarrow> string list \<Rightarrow> service_turn list \<Rightarrow> tx option \<Rightarrow> service
    \<Rightarrow> string + service \<times> service_exit" where
  "run_worker c idle_delay heartbeat_interval roles turns stop s =
     bindR (worker_roles idle_delay heartbeat_interval roles) (\<lambda>ordered_roles.
       let (s, ending) = run_service (c\<lparr>vc_roles := ordered_roles\<rparr>) turns s
       in Inr (case (ending, stop) of
                 (Running, _) \<Rightarrow> s
               | (_, None) \<Rightarrow> s
               | (_, Some x) \<Rightarrow> s\<lparr>sv_db := transact (stop_worker x (vc_worker_id c)) (sv_db s)\<rparr>, ending))"

section \<open>What the service does\<close>

fun turn_interferes :: "(db \<Rightarrow> db \<Rightarrow> bool) \<Rightarrow> service_turn \<Rightarrow> bool" where
  "turn_interferes S (RoleTurn role x other) = interferes S other"
| "turn_interferes S (OthersTurn f) = (\<forall>d. S\<^sup>*\<^sup>* d (f d))"
| "turn_interferes S _ = True"

lemma role_turn_faithful:
  assumes "interferes (faithful (vc_env c)) other" and "committed (sv_db s)"
  shows "(faithful (vc_env c))\<^sup>*\<^sup>* (sv_db s) (sv_db (role_turn c role x other s))"
proof -
  have "sv_db (role_turn c role x other s) = fst (role_step c role x other (sv_db s))"
    by (simp add: role_turn_def split_beta)
  then show ?thesis
    using run_workflow_task_faithful[OF assms] run_activity_task_faithful[OF assms] run_maintenance_steps[OF assms(1)]
    by (simp add: role_step_def)
qed

lemma heartbeat_turn_faithful:
  assumes "heartbeat_turn c x s = Inr s'" and "committed (sv_db s)"
  shows "faithful (vc_env c) (sv_db s) (sv_db s')" and "committed (sv_db s')"
proof -
  from assms(1) obtain d u where beat: "heartbeat_worker x (vc_worker_id c) (vc_hostname c) (vc_process_id c)
      (vc_queue_name c) (vc_roles c) (sv_db s) = Inr (d, u)" and s': "sv_db s' = d"
    by (cases "heartbeat_worker x (vc_worker_id c) (vc_hostname c) (vc_process_id c) (vc_queue_name c)
      (vc_roles c) (sv_db s)") (auto simp: heartbeat_turn_def)
  from beat show "faithful (vc_env c) (sv_db s) (sv_db s')" by (auto simp: s' intro: step_worker)
  from worker_tx.keeps_committed[OF assms(2) beat] show "committed (sv_db s')" by (simp add: s')
qed

lemma run_service_faithful:
  assumes "\<forall>t\<in>set ts. turn_interferes (faithful (vc_env c)) t" and "committed (sv_db s)"
  shows "(faithful (vc_env c))\<^sup>*\<^sup>* (sv_db s) (sv_db (fst (run_service c ts s)))"
  using assms
proof (induction c ts s rule: run_service.induct)
  case (2 c x ts s)
  show ?case
  proof (cases "heartbeat_turn c x s")
    case (Inr s')
    note beat = heartbeat_turn_faithful[OF this 2(3)]
    with 2(1)[OF Inr] 2(2) have "(faithful (vc_env c))\<^sup>*\<^sup>* (sv_db s') (sv_db (fst (run_service c ts s')))" by simp
    with beat(1) Inr show ?thesis by (simp add: converse_rtranclp_into_rtranclp)
  qed simp
next
  case (4 c role x other ts s)
  define s1 where "s1 = (if role \<in> set (vc_roles c) then role_turn c role x other s else s)"
  have 1: "(faithful (vc_env c))\<^sup>*\<^sup>* (sv_db s) (sv_db s1)"
    using role_turn_faithful[of c other s] 4(2,3) by (simp add: s1_def)
  then have "committed (sv_db s1)" using steps_progress[OF faithful_steps 4(3)] by blast
  from rtranclp_trans[OF 1 4(1)[folded s1_def, OF _ this]] 4(2) show ?case by (simp add: s1_def)
next
  case (5 c f ts s)
  define s1 where "s1 = s\<lparr>sv_db := f (sv_db s)\<rparr>"
  have 1: "(faithful (vc_env c))\<^sup>*\<^sup>* (sv_db s) (sv_db s1)" using 5(2) by (simp add: s1_def)
  then have "committed (sv_db s1)" using steps_progress[OF faithful_steps 5(3)] by blast
  from rtranclp_trans[OF 1 5(1)[folded s1_def, OF _ this]] 5(2) show ?case by (simp add: s1_def)
qed simp_all

lemma stopped_row: "r \<in> set (db_workers (transact (stop_worker x w) d)) \<Longrightarrow> wk_worker_id r = w
  \<Longrightarrow> wk_stopped_at r = Some (tx_now x)"
  by (rule stop_worker_stopped[of x w d "transact (stop_worker x w) d" "()"]) (simp_all add: transact_def stop_worker_def)

lemma transact_stop_faithful: "faithful env d (transact (stop_worker x w) d)"
  by (rule step_stop_worker[of x w]) (simp add: transact_def stop_worker_def)

lemma run_worker_cases:
  assumes "run_worker c idle_delay heartbeat_interval roles turns stop s = Inr (s', ending)"
  obtains rs s1 where "run_service (c\<lparr>vc_roles := rs\<rparr>) turns s = (s1, ending)"
    and "sv_db s' = sv_db s1 \<and> (ending = Running \<or> stop = None)
      \<or> ending \<noteq> Running \<and> (\<exists>x. stop = Some x \<and> sv_db s' = transact (stop_worker x (vc_worker_id c)) (sv_db s1))"
proof (cases "worker_roles idle_delay heartbeat_interval roles")
  case (Inr rs)
  obtain s1 e where run: "run_service (c\<lparr>vc_roles := rs\<rparr>) turns s = (s1, e)" by fastforce
  with assms Inr have e: "e = ending" by (simp add: run_worker_def)
  from assms Inr have s': "(case (ending, stop) of (Running, _) \<Rightarrow> s1 | (_, None) \<Rightarrow> s1
      | (_, Some x) \<Rightarrow> s1\<lparr>sv_db := transact (stop_worker x (vc_worker_id c)) (sv_db s1)\<rparr>) = s'"
    by (simp add: run_worker_def run[unfolded e])
  show ?thesis by (rule that[OF run[unfolded e]]) (simp add: s'[symmetric] split: service_exit.split option.split)
qed (use assms in \<open>simp add: run_worker_def\<close>)

text \<open>A failing step of a role is counted and the service goes on; one lost heartbeat ends it.\<close>

definition service_goes_on :: "service_turn \<Rightarrow> bool" where
  "service_goes_on t = (case t of RoleTurn r x other \<Rightarrow> True | OthersTurn f \<Rightarrow> True | _ \<Rightarrow> False)"

lemma lost_heartbeat_ends_service:
  "\<forall>t\<in>set ts. service_goes_on t \<Longrightarrow>
    snd (run_service c ts s) = Running
    \<and> run_service c (ts @ HeartbeatLost e # ts') s = (fst (run_service c ts s), Crashed e)"
  by (induction c ts s rule: run_service.induct) (auto simp: service_goes_on_def)

end
