(* ===== verification/Logging.thy ===== *)
theory Logging
  imports Security
begin

text \<open>
  The structured logging of \<^verbatim>\<open>engine/observability.py\<close>: the configuration of the root logger and the line
  that the formatter writes for a record. Values that JSON does not know are already the strings that
  \<^verbatim>\<open>default=str\<close> makes of them.
\<close>

section \<open>Configuration\<close>

text \<open>
  \<^verbatim>\<open>str.upper\<close> within Latin-1; the letters whose capitals lie outside stay, and no level has such a letter.
\<close>

definition char_upper :: "char \<Rightarrow> char" where
  "char_upper c = (let n = of_char c :: int in
     if (97 \<le> n \<and> n \<le> 122) \<or> (224 \<le> n \<and> n \<le> 254 \<and> n \<noteq> 247) then char_of (n - 32) else c)"

definition str_upper :: "string \<Rightarrow> string" where
  "str_upper s = map char_upper s"

text \<open>The integer attributes of \<^verbatim>\<open>logging\<close> with upper-case names.\<close>

definition LOG_LEVELS :: "(string \<times> int) list" where
  "LOG_LEVELS = [(''CRITICAL'', 50), (''FATAL'', 50), (''ERROR'', 40), (''WARNING'', 30), (''WARN'', 30),
     (''INFO'', 20), (''DEBUG'', 10), (''NOTSET'', 0)]"

datatype logging_error = InvalidLevel string | InvalidFormat

datatype log_format = JSONLines | TextLines

record root_logger =
  rl_handlers :: "log_format list"
  rl_level :: int

definition configure_logging :: "environ \<Rightarrow> root_logger \<Rightarrow> logging_error + root_logger" where
  "configure_logging environ logger =
     (let level_name = str_upper (case map_of environ ''LOG_LEVEL'' of Some v \<Rightarrow> v | None \<Rightarrow> ''INFO'')
      in case map_of LOG_LEVELS level_name of
           None \<Rightarrow> Inl (InvalidLevel level_name)
         | Some level \<Rightarrow>
             let log_format = str_lower (case map_of environ ''DWE_LOG_FORMAT'' of Some v \<Rightarrow> v | None \<Rightarrow> ''json'')
             in if log_format = ''json'' then Inr (logger\<lparr>rl_handlers := [JSONLines], rl_level := level\<rparr>)
                else if log_format = ''text'' then Inr (logger\<lparr>rl_handlers := [TextLines], rl_level := level\<rparr>)
                else Inl InvalidFormat)"

section \<open>The formatter\<close>

text \<open>\<^verbatim>\<open>logging.makeLogRecord({}).__dict__\<close>.\<close>

definition LOG_RECORD_FIELDS :: "string list" where
  "LOG_RECORD_FIELDS =
     [''name'', ''msg'', ''args'', ''levelname'', ''levelno'', ''pathname'', ''filename'', ''module'', ''exc_info'',
      ''exc_text'', ''stack_info'', ''lineno'', ''funcName'', ''created'', ''msecs'', ''relativeCreated'', ''thread'',
      ''threadName'', ''processName'', ''process'', ''taskName'']"

text \<open>\<open>lr_dict\<close> is \<^verbatim>\<open>record.__dict__\<close> and \<open>lr_exception\<close> the formatted \<^verbatim>\<open>exc_info\<close>, when there is one.\<close>

record log_record =
  lr_levelname :: string
  lr_name :: string
  lr_message :: string
  lr_dict :: dict
  lr_exception :: "string option"

definition is_context_field :: "string \<Rightarrow> bool" where
  "is_context_field key \<longleftrightarrow> key \<notin> set LOG_RECORD_FIELDS \<and> take 1 key \<noteq> ''_''"

definition log_payload :: "string \<Rightarrow> log_record \<Rightarrow> dict" where
  "log_payload timestamp record =
     (let payload = [(''timestamp'', JStr timestamp), (''level'', JStr (lr_levelname record)),
            (''logger'', JStr (lr_name record)), (''message'', JStr (lr_message record))];
          payload = fold (\<lambda>(key, value) payload.
            if is_context_field key then AList.update key value payload else payload) (lr_dict record) payload
      in case lr_exception record of
           None \<Rightarrow> payload
         | Some text \<Rightarrow> AList.update ''exception'' (JStr text) payload)"

text \<open>
  \<^verbatim>\<open>json.dumps(payload, separators=(",", ":"), sort_keys=True)\<close> keeps to ASCII: in the canonical text, where
  such characters stand only inside strings, the others are escaped.
\<close>

definition ascii_char :: "char \<Rightarrow> string" where
  "ascii_char c =
     (if of_char c \<le> (126 :: int) then [c]
      else [CHR 0x5C, CHR ''u'', CHR ''0'', CHR ''0'', hex_digit (of_char c div 16), hex_digit (of_char c mod 16)])"

definition format_record :: "pyenv \<Rightarrow> string \<Rightarrow> log_record \<Rightarrow> string" where
  "format_record env timestamp record =
     concat (map ascii_char (canonical_json env (JObj (log_payload timestamp record))))"

section \<open>One record, one line\<close>

definition printable :: "char \<Rightarrow> bool" where
  "printable c \<longleftrightarrow> 32 \<le> (of_char c :: int) \<and> of_char c \<le> (126 :: int)"

abbreviation no_control :: "string \<Rightarrow> bool" where
  "no_control s \<equiv> \<forall>c\<in>set s. 32 \<le> (of_char c :: int)"

lemma of_char_code [simp]: "0 \<le> n \<Longrightarrow> n < 256 \<Longrightarrow> (of_char (char_of n) :: int) = n"
  by (simp add: take_bit_int_eq_self)

lemma hex_digit_code: "0 \<le> n \<Longrightarrow> n < 16 \<Longrightarrow> printable (hex_digit n)"
  by (simp add: hex_digit_def printable_def)

lemma byte_bounds: "0 \<le> (of_char c :: int)" "(of_char c :: int) < 256"
  by (simp_all add: of_char_def horner_sum_bit_eq_take_bit) 

lemma hex_pair_printable: "printable (hex_digit (of_char c div 16))" "printable (hex_digit (of_char c mod 16))"
  using byte_bounds[of c] by (auto intro!: hex_digit_code)

lemma escape_no_control: "no_control (escape_char c)"
  using hex_pair_printable[of c] by (auto simp: escape_char_def printable_def)

lemma quote_no_control: "no_control (quote_str s)"
  using escape_no_control by (auto simp: quote_str_def)

lemma digits_no_control: "0 \<le> n \<Longrightarrow> no_control (digits n)"
proof (induction n rule: digits.induct)
  case (1 n)
  then show ?case by (subst digits.simps) auto
qed

lemma int_str_no_control: "no_control (int_str n)"
  using digits_no_control[of n] digits_no_control[of "- n"] by (auto simp: int_str_def)

lemma join_no_control: "no_control sep \<Longrightarrow> \<forall>s\<in>set ss. no_control s \<Longrightarrow> no_control (join sep ss)"
  by (induction sep ss rule: join.induct) auto

lemma canonical_no_control:
  assumes floats: "\<And>q. no_control (py_float_repr env q)"
  shows "no_control (canonical_json env v)"
proof (induction v)
  case (JArr xs)
  then show ?case using join_no_control[of "'',''" "map (canonical_json env) xs"] by auto
next
  case (JObj d)
  let ?ts = "map (\<lambda>(k, t). quote_str k @ '':'' @ t) (sort_key fst (map (map_prod id (canonical_json env)) d))"
  have "no_control s" if "s \<in> set ?ts" for s
  proof -
    from that obtain k v where kv: "(k, v) \<in> set d" and s: "s = quote_str k @ '':'' @ canonical_json env v" by auto
    have "no_control (canonical_json env v)" by (rule JObj[OF kv]) simp
    with quote_no_control[of k] show ?thesis unfolding s by auto
  qed
  then have "no_control (join '','' ?ts)" by (intro join_no_control) simp_all
  then show ?case by simp
qed (use floats int_str_no_control quote_no_control in auto)

lemma ascii_printable: "32 \<le> (of_char c :: int) \<Longrightarrow> list_all printable (ascii_char c)"
  using hex_pair_printable[of c] by (simp add: ascii_char_def printable_def)

lemma format_record_printable:
  assumes "\<And>q. no_control (py_float_repr env q)"
  shows "list_all printable (format_record env timestamp record)"
proof -
  have "list_all printable (concat (map ascii_char s))" if "no_control s" for s
    using that ascii_printable by (induction s) simp_all
  from this[OF canonical_no_control[OF assms]] show ?thesis unfolding format_record_def .
qed

section \<open>The fields of a line\<close>

lemma context_fields:
  "distinct (map fst d) \<Longrightarrow>
    map_of (fold (\<lambda>(key, value) payload. if is_context_field key then AList.update key value payload else payload)
      d payload) k
    = (if is_context_field k \<and> map_of d k \<noteq> None then map_of d k else map_of payload k)"
proof (induction d arbitrary: payload)
  case (Cons p d)
  then have "map_of d (fst p) = None" by (simp add: map_of_eq_None_iff)
  with Cons show ?case by (cases p) (auto simp: update_conv')
qed simp

lemma log_payload_lookup:
  assumes "distinct (map fst (lr_dict record))"
  shows "map_of (log_payload timestamp record) k =
    (if k = ''exception'' \<and> lr_exception record \<noteq> None then map_option JStr (lr_exception record)
     else if is_context_field k \<and> map_of (lr_dict record) k \<noteq> None then map_of (lr_dict record) k
     else map_of [(''timestamp'', JStr timestamp), (''level'', JStr (lr_levelname record)),
            (''logger'', JStr (lr_name record)), (''message'', JStr (lr_message record))] k)"
  unfolding log_payload_def Let_def
  by (cases "lr_exception record") (simp_all add: context_fields[OF assms] update_conv')

end
