(* ===== verification/Cli.thy ===== *)
theory Cli
  imports Worker_Service Logging Migrations Replay_Check
begin

text \<open>
  \<^verbatim>\<open>engine/cli.py\<close>: the subcommands of the program and their exit codes. The Python process around a command
  is a record: environment, files, modules that can be imported, the migration directory and the functions
  of the standard library that read text. \<^verbatim>\<open>argparse\<close> splits the command line into options and values; the
  model starts there, with the list of the given names and texts, and does what \<^verbatim>\<open>argparse\<close> does with the
  declared arguments. A database that cannot be reached is not modelled.
\<close>

section \<open>The process\<close>

datatype module_value = WorkflowValue workflow_definition | RegistryValue worker_registry | OtherValue

datatype cli_error =
    ReferenceSyntax string
  | ModuleMissing string
  | AttributeMissing string
  | NotADefinition string
  | NotARegistry string
  | VersionMismatch int int
  | BadUuid string
  | BadJson string
  | ConfigFailure config_error
  | MigrationFailure migration_error
  | CliDatabase db_error
  | CheckFailure check_error
  | ServiceError string
  | ServiceCrash db_error
  | LoggingFailure logging_error
  | Usage string
  | KeyboardInterrupt

record 's process =
  pc_env :: pyenv
  pc_environ :: environ
  pc_read_file :: "string \<Rightarrow> string option"
  pc_parse_float :: "string \<Rightarrow> py_float option"
  pc_loads :: "string \<Rightarrow> json option"
  pc_modules :: "string \<Rightarrow> (string \<Rightarrow> module_value option) option"
  pc_directory :: "(string \<times> string) list"
  pc_run_sql :: "string \<Rightarrow> 's \<Rightarrow> 's option"

record 's world =
  wd_schema :: "'s schema_state"
  wd_db :: db

section \<open>References\<close>

definition load_value :: "'s process \<Rightarrow> string \<Rightarrow> string \<Rightarrow> cli_error + module_value" where
  "load_value pc what reference =
     (let (module_name, separator, attribute) = partition_on CHR '':'' reference
      in if \<not> separator \<or> module_name = [] \<or> attribute = [] then Inl (ReferenceSyntax what)
         else case pc_modules pc module_name of
                None \<Rightarrow> Inl (ModuleMissing module_name)
              | Some attributes \<Rightarrow>
                  (case attributes attribute of
                     None \<Rightarrow> Inl (AttributeMissing attribute)
                   | Some value \<Rightarrow> Inr value))"

definition load_definition :: "'s process \<Rightarrow> string \<Rightarrow> cli_error + workflow_definition" where
  "load_definition pc reference =
     bindR (load_value pc ''definition'' reference) (\<lambda>value.
     case value of WorkflowValue def \<Rightarrow> Inr def | _ \<Rightarrow> Inl (NotADefinition reference))"

definition load_registry :: "'s process \<Rightarrow> string \<Rightarrow> cli_error + worker_registry" where
  "load_registry pc reference =
     bindR (load_value pc ''definitions'' reference) (\<lambda>value.
     case value of RegistryValue reg \<Rightarrow> Inr reg | _ \<Rightarrow> Inl (NotARegistry reference))"

definition json_input :: "'s process \<Rightarrow> string \<Rightarrow> cli_error + json" where
  "json_input pc raw = (case pc_loads pc raw of None \<Rightarrow> Inl (BadJson raw) | Some v \<Rightarrow> Inr v)"

definition configured_pool :: "'s process \<Rightarrow> string \<Rightarrow> string \<Rightarrow> cli_error + database_config" where
  "configured_pool pc database_url application_name =
     map_sum ConfigFailure id
       (database_config_from_env (pc_environ pc) (pc_read_file pc) (pc_parse_float pc) (Some database_url)
          application_name)"

text \<open>\<^verbatim>\<open>migrate\<close> of \<^verbatim>\<open>engine/persistence/migrations.py\<close>.\<close>

definition migrate :: "'s process \<Rightarrow> 's schema_state \<Rightarrow> 's schema_state \<times> (migration_error + unit)" where
  "migrate pc st =
     (case discover_migrations (pc_env pc) (pc_directory pc) of
        Inl e \<Rightarrow> (st, Inl e)
      | Inr migrations \<Rightarrow> apply_migrations (pc_run_sql pc) migrations st)"

definition registered_pool ::
  "'s process \<Rightarrow> string \<Rightarrow> string \<Rightarrow> 's world \<Rightarrow> 's world \<times> (cli_error + database_config)" where
  "registered_pool pc database_url application_name w =
     (let (schema, r) = migrate pc (wd_schema w)
      in (w\<lparr>wd_schema := schema\<rparr>,
          bindR (map_sum MigrationFailure id r) (\<lambda>u. configured_pool pc database_url application_name)))"

section \<open>Commands\<close>

datatype printed =
    PrintedReport replay_check_report
  | PrintedStart uuid
  | PrintedJson json
  | PrintedNothing

text \<open>A command ends with what it prints and its exit code, or with an exception.\<close>

type_synonym 's run = "'s world \<times> (cli_error + printed \<times> int)"

definition run_replay_check :: "'s process \<Rightarrow> string \<Rightarrow> int \<Rightarrow> string \<Rightarrow> string \<Rightarrow> 's world \<Rightarrow> 's run" where
  "run_replay_check pc workflow_id against_version definition database_url w =
     (w, bindR (load_definition pc definition) (\<lambda>def.
         if df_version def \<noteq> against_version then Inl (VersionMismatch (df_version def) against_version)
         else
           bindR (configured_pool pc database_url ''dwe-replay-check'') (\<lambda>pool.
           case py_parse_uuid (pc_env pc) workflow_id of
             None \<Rightarrow> Inl (BadUuid workflow_id)
           | Some i \<Rightarrow>
               bindR (map_sum CheckFailure id (replay_check (pc_env pc) i def (wd_db w))) (\<lambda>report.
               Inr (PrintedReport report, if rp_compatible report then 0 else 1)))))"

text \<open>The loop over the definitions of a registry: each is one transaction.\<close>

fun register_definitions :: "workflow_definition list \<Rightarrow> db \<Rightarrow> db \<times> (db_error + unit)" where
  "register_definitions [] d = (d, Inr ())"
| "register_definitions (def # defs) d =
     (case register_workflow_definition (df_name def) (df_version def) (df_code_hash def) d of
        Inl e \<Rightarrow> (d, Inl e)
      | Inr (d, u) \<Rightarrow> register_definitions defs d)"

definition registered_json :: "worker_registry \<Rightarrow> json" where
  "registered_json registry =
     JObj [(''registered'', JArr (map (\<lambda>item.
       JObj [(''workflow_type'', JStr (df_name item)), (''version'', JInt (df_version item))])
       (registered_workflows registry)))]"

definition run_register :: "'s process \<Rightarrow> string \<Rightarrow> string \<Rightarrow> 's world \<Rightarrow> 's run" where
  "run_register pc definitions database_url w =
     (case load_registry pc definitions of
        Inl e \<Rightarrow> (w, Inl e)
      | Inr registry \<Rightarrow>
          (case registered_pool pc database_url ''dwe-register'' w of
             (w, Inl e) \<Rightarrow> (w, Inl e)
           | (w, Inr pool) \<Rightarrow>
               let (d, r) = register_definitions (registered_workflows registry) (wd_db w)
               in (w\<lparr>wd_db := d\<rparr>,
                   bindR (map_sum CliDatabase id r) (\<lambda>u. Inr (PrintedJson (registered_json registry), 0)))))"

definition run_start ::
  "'s process \<Rightarrow> tx \<Rightarrow> string \<Rightarrow> int \<Rightarrow> string \<Rightarrow> string \<Rightarrow> string \<Rightarrow> 's world \<Rightarrow> 's run" where
  "run_start pc x workflow_type version input queue database_url w =
     (case registered_pool pc database_url ''dwe-start'' w of
        (w, Inl e) \<Rightarrow> (w, Inl e)
      | (w, Inr pool) \<Rightarrow>
          (case json_input pc input of
             Inl e \<Rightarrow> (w, Inl e)
           | Inr workflow_input \<Rightarrow>
               (case start_workflow (pc_env pc) x workflow_type version workflow_input queue None [] None None
                       (wd_db w) of
                  Inl e \<Rightarrow> (w, Inl (CliDatabase e))
                | Inr (d, started) \<Rightarrow> (w\<lparr>wd_db := d\<rparr>, Inr (PrintedStart started, 0)))))"

text \<open>
  \<open>c\<close> carries the identity of the process and \<open>turns\<close> the turns of the service. A service that is still
  running has no exit code yet: the command ends when the turns stop it, a heartbeat fails or the service is
  interrupted. \<^verbatim>\<open>asyncio.run\<close> turns the cancellation of an interrupted service into \<^verbatim>\<open>KeyboardInterrupt\<close>. An
  interrupt before the service runs is not modelled.
\<close>

definition run_worker_command ::
  "'s process \<Rightarrow> service_config \<Rightarrow> service_turn list \<Rightarrow> tx option \<Rightarrow> string \<Rightarrow> string \<Rightarrow> string list option
    \<Rightarrow> py_float \<Rightarrow> py_float \<Rightarrow> string \<Rightarrow> 's world \<Rightarrow> ('s world \<times> (cli_error + printed \<times> int) option)" where
  "run_worker_command pc c turns stop definitions queue role poll_interval heartbeat_interval database_url w =
     (case load_registry pc definitions of
        Inl e \<Rightarrow> (w, Some (Inl e))
      | Inr registry \<Rightarrow>
          (case registered_pool pc database_url ''dwe-worker'' w of
             (w, Inl e) \<Rightarrow> (w, Some (Inl e))
           | (w, Inr pool) \<Rightarrow>
               (case register_definitions (registered_workflows registry) (wd_db w) of
                  (d, Inl e) \<Rightarrow> (w\<lparr>wd_db := d\<rparr>, Some (Inl (CliDatabase e)))
                | (d, Inr u) \<Rightarrow>
                    let roles = (case role of Some (r # rs) \<Rightarrow> r # rs
                                 | _ \<Rightarrow> [''workflow'', ''activity'', ''maintenance''])
                    in (case run_worker (c\<lparr>vc_env := pc_env pc, vc_registry := registry, vc_queue_name := queue\<rparr>)
                              poll_interval heartbeat_interval roles turns stop
                              \<lparr>sv_db = d, sv_metrics = (\<lambda>r. \<lparr>lm_errors = 0, lm_progressed = 0, lm_idle = 0\<rparr>)\<rparr> of
                         Inl e \<Rightarrow> (w\<lparr>wd_db := d\<rparr>, Some (Inl (ServiceError e)))
                       | Inr (s, ending) \<Rightarrow>
                           (w\<lparr>wd_db := sv_db s\<rparr>,
                            (case ending of
                              Running \<Rightarrow> None
                            | Stopped \<Rightarrow> Some (Inr (PrintedNothing, 0))
                            | Crashed e \<Rightarrow> Some (Inl (ServiceCrash e))
                            | Interrupted \<Rightarrow> Some (Inl KeyboardInterrupt)))))))"

text \<open>\<open>token\<close> is the value of \<^verbatim>\<open>secrets.token_urlsafe(32)\<close>.\<close>

definition configuration_entry :: "pyenv \<Rightarrow> string \<Rightarrow> string \<Rightarrow> string \<Rightarrow> string" where
  "configuration_entry env key_id role token = key_id @ '':'' @ role @ '':'' @ token_digest env token"

definition run_auth_key :: "pyenv \<Rightarrow> string \<Rightarrow> string \<Rightarrow> string \<Rightarrow> printed \<times> int" where
  "run_auth_key env token key_id role =
     (PrintedJson (JObj [(''key_id'', JStr key_id), (''role'', JStr role), (''token'', JStr token),
        (''configuration'', JStr (configuration_entry env key_id role token))]), 0)"

section \<open>The command line\<close>

text \<open>
  The declarations of \<^verbatim>\<open>build_parser\<close>. An argument without a flag is positional, and then its name stands
  for it in the list of the given texts.
\<close>

datatype arg_type = StrArg | IntArg | FloatArg

datatype arg_value = StrValue string | IntValue int | FloatValue py_float | ListValue "string list" | NoValue

record argument =
  ag_dest :: string
  ag_flag :: string
  ag_type :: arg_type
  ag_required :: bool
  ag_default :: arg_value
  ag_choices :: "string list"
  ag_append :: bool

definition positional :: "string \<Rightarrow> argument" where
  "positional name = \<lparr>ag_dest = name, ag_flag = name, ag_type = StrArg, ag_required = True, ag_default = NoValue,
     ag_choices = [], ag_append = False\<rparr>"

definition option_of :: "string \<Rightarrow> string \<Rightarrow> arg_type \<Rightarrow> argument" where
  "option_of flag dest ty = \<lparr>ag_dest = dest, ag_flag = flag, ag_type = ty, ag_required = False,
     ag_default = NoValue, ag_choices = [], ag_append = False\<rparr>"

definition database_argument :: "string option \<Rightarrow> argument" where
  "database_argument default_url =
     (option_of ''--database-url'' ''database_url'' StrArg)
       \<lparr>ag_default := (case default_url of None \<Rightarrow> NoValue | Some u \<Rightarrow> StrValue u),
        ag_required := (default_url = None)\<rparr>"

definition build_parser :: "'s process \<Rightarrow> cli_error + (string \<times> argument list) list" where
  "build_parser pc =
     bindR (map_sum ConfigFailure id (secret_value (pc_environ pc) (pc_read_file pc) ''DATABASE_URL'' False))
       (\<lambda>default_url.
     let required = (\<lambda>a. a\<lparr>ag_required := True\<rparr>);
         database = database_argument default_url
     in Inr
       [(''auth-key'',
          [required (option_of ''--key-id'' ''key_id'' StrArg),
           (required (option_of ''--role'' ''role'' StrArg))
             \<lparr>ag_choices := [''viewer'', ''operator'', ''admin'']\<rparr>]),
        (''replay-check'',
          [positional ''workflow_id'', required (option_of ''--against-version'' ''against_version'' IntArg),
           required (option_of ''--definition'' ''definition'' StrArg), database]),
        (''register'', [required (option_of ''--definitions'' ''definitions'' StrArg), database]),
        (''start'',
          [positional ''workflow_type'', required (option_of ''--version'' ''version'' IntArg),
           (option_of ''--input'' ''input'' StrArg)\<lparr>ag_default := StrValue ''null''\<rparr>,
           (option_of ''--queue'' ''queue'' StrArg)\<lparr>ag_default := StrValue ''default''\<rparr>, database]),
        (''worker'',
          [required (option_of ''--definitions'' ''definitions'' StrArg),
           (option_of ''--queue'' ''queue'' StrArg)\<lparr>ag_default := StrValue ''default''\<rparr>,
           (option_of ''--role'' ''role'' StrArg)
             \<lparr>ag_append := True, ag_choices := [''workflow'', ''activity'', ''maintenance'']\<rparr>,
           (option_of ''--poll-interval'' ''poll_interval'' FloatArg)
             \<lparr>ag_default := FloatValue (Finite (py_round (pc_env pc) (5 / 100)))\<rparr>,
           (option_of ''--heartbeat-interval'' ''heartbeat_interval'' FloatArg)
             \<lparr>ag_default := FloatValue (Finite 10)\<rparr>, database])])"

text \<open>The value of one argument: every given text is converted and checked, the last one or all of them count.\<close>

definition convert_text :: "'s process \<Rightarrow> argument \<Rightarrow> string \<Rightarrow> cli_error + arg_value" where
  "convert_text pc a t =
     (if ag_choices a \<noteq> [] \<and> t \<notin> set (ag_choices a) then Inl (Usage (ag_dest a))
      else case ag_type a of
             StrArg \<Rightarrow> Inr (StrValue t)
           | IntArg \<Rightarrow> (case int_of_string t of None \<Rightarrow> Inl (Usage (ag_dest a)) | Some n \<Rightarrow> Inr (IntValue n))
           | FloatArg \<Rightarrow> (case pc_parse_float pc t of None \<Rightarrow> Inl (Usage (ag_dest a)) | Some q \<Rightarrow> Inr (FloatValue q)))"

fun collect :: "('a \<Rightarrow> 'e + 'b) \<Rightarrow> 'a list \<Rightarrow> 'e + 'b list" where
  "collect f [] = Inr []"
| "collect f (x # xs) = bindR (f x) (\<lambda>y. bindR (collect f xs) (\<lambda>ys. Inr (y # ys)))"

definition argument_value ::
  "'s process \<Rightarrow> (string \<times> string) list \<Rightarrow> argument \<Rightarrow> cli_error + string \<times> arg_value" where
  "argument_value pc given a =
     (let texts = map snd (filter (\<lambda>g. fst g = ag_flag a) given)
      in bindR (collect (convert_text pc a) texts) (\<lambda>values.
         if values = []
         then if ag_required a then Inl (Usage (ag_dest a)) else Inr (ag_dest a, ag_default a)
         else Inr (ag_dest a, if ag_append a then ListValue texts else last values)))"

definition parse_arguments ::
  "'s process \<Rightarrow> argument list \<Rightarrow> (string \<times> string) list \<Rightarrow> cli_error + (string \<times> arg_value) list" where
  "parse_arguments pc arguments given =
     (case List.find (\<lambda>g. fst g \<notin> set (map ag_flag arguments)) given of
        Some g \<Rightarrow> Inl (Usage (fst g))
      | None \<Rightarrow> collect (argument_value pc given) arguments)"

text \<open>The attributes of the namespace, with the casts of the handlers.\<close>

definition text_of :: "(string \<times> arg_value) list \<Rightarrow> string \<Rightarrow> string" where
  "text_of ns k = (case map_of ns k of Some (StrValue s) \<Rightarrow> s | _ \<Rightarrow> [])"

definition number_of :: "(string \<times> arg_value) list \<Rightarrow> string \<Rightarrow> int" where
  "number_of ns k = (case map_of ns k of Some (IntValue n) \<Rightarrow> n | _ \<Rightarrow> 0)"

definition float_of :: "(string \<times> arg_value) list \<Rightarrow> string \<Rightarrow> py_float" where
  "float_of ns k = (case map_of ns k of Some (FloatValue q) \<Rightarrow> q | _ \<Rightarrow> NaN)"

definition list_of :: "(string \<times> arg_value) list \<Rightarrow> string \<Rightarrow> string list option" where
  "list_of ns k = (case map_of ns k of Some (ListValue l) \<Rightarrow> Some l | _ \<Rightarrow> None)"

text \<open>What happens while the program runs: its transaction, its random token and the turns of its service.\<close>

record runtime =
  rt_tx :: tx
  rt_token :: string
  rt_service :: service_config
  rt_turns :: "service_turn list"
  rt_stop :: "tx option"

definition dispatch ::
  "'s process \<Rightarrow> runtime \<Rightarrow> string \<Rightarrow> (string \<times> arg_value) list \<Rightarrow> 's world
    \<Rightarrow> 's world \<times> (cli_error + printed \<times> int) option" where
  "dispatch pc rt command ns w =
     (if command = ''auth-key''
      then (w, Some (Inr (run_auth_key (pc_env pc) (rt_token rt) (text_of ns ''key_id'') (text_of ns ''role''))))
      else if command = ''replay-check''
      then map_prod id Some (run_replay_check pc (text_of ns ''workflow_id'') (number_of ns ''against_version'')
             (text_of ns ''definition'') (text_of ns ''database_url'') w)
      else if command = ''register''
      then map_prod id Some (run_register pc (text_of ns ''definitions'') (text_of ns ''database_url'') w)
      else if command = ''start''
      then map_prod id Some (run_start pc (rt_tx rt) (text_of ns ''workflow_type'') (number_of ns ''version'')
             (text_of ns ''input'') (text_of ns ''queue'') (text_of ns ''database_url'') w)
      else (case run_worker_command pc (rt_service rt) (rt_turns rt) (rt_stop rt) (text_of ns ''definitions'')
                   (text_of ns ''queue'') (list_of ns ''role'') (float_of ns ''poll_interval'')
                   (float_of ns ''heartbeat_interval'') (text_of ns ''database_url'') w of
              (w, Some (Inl KeyboardInterrupt)) \<Rightarrow> (w, Some (Inr (PrintedNothing, 130)))
            | (w, res) \<Rightarrow> (w, res)))"

definition main ::
  "'s process \<Rightarrow> runtime \<Rightarrow> root_logger \<Rightarrow> string \<Rightarrow> (string \<times> string) list \<Rightarrow> 's world
    \<Rightarrow> 's world \<times> (cli_error + printed \<times> int) option" where
  "main pc rt logger command given w =
     (case bindR (map_sum LoggingFailure id (configure_logging (pc_environ pc) logger)) (\<lambda>logger.
           bindR (build_parser pc) (\<lambda>parser.
           case map_of parser command of
             None \<Rightarrow> Inl (Usage command)
           | Some arguments \<Rightarrow> parse_arguments pc arguments given)) of
        Inl e \<Rightarrow> (w, Some (Inl e))
      | Inr ns \<Rightarrow> dispatch pc rt command ns w)"

text \<open>The exit code of the process: 2 from \<^verbatim>\<open>argparse\<close>, 1 for an exception that nothing catches.\<close>

fun exit_code :: "cli_error + printed \<times> int \<Rightarrow> int" where
  "exit_code (Inl (Usage m)) = 2"
| "exit_code (Inl e) = 1"
| "exit_code (Inr (out, n)) = n"

end
