(* ===== verification/History_Properties.thy ===== *)
theory History_Properties
  imports Faithful Engine_Properties
begin

text \<open>
  The properties of the engine together with its workers: workers keep to the protocol, and every history
  that the engine then writes is one that replay accepts.
\<close>

section \<open>Workers\<close>

text \<open>
  C19. The workers keep to the protocol: whatever a step of the workflow worker, of the activity worker or
  a maintenance pass does to a database is made of transactions of the engine in which results are reported
  for the task that was leased, with its workflow and entity, and commands are committed with the ids that
  replay derives from workflow and command id; also when other such clients commit between any two of their
  transactions and when the step ends in an error.
\<close>

theorem worker_steps_are_faithful:
  assumes "interferes (faithful env) other" and "(faithful env)\<^sup>*\<^sup>* empty_db d"
  shows "(faithful env)\<^sup>*\<^sup>* d (fst (run_workflow_task env k x other reg q dur d))
    \<and> (faithful env)\<^sup>*\<^sup>* d (fst (run_activity_task env x other reg q dur d))
    \<and> (faithful env)\<^sup>*\<^sup>* d (fst (run_maintenance env zs x other qn l clk d))"
proof -
  have "committed d" using steps_progress[OF faithful_steps[OF assms(2)] committed_empty] by simp
  with run_workflow_task_faithful[OF assms(1)] run_activity_task_faithful[OF assms(1)]
    run_maintenance_steps[OF assms(1)]
  show ?thesis by blast
qed

text \<open>A worker decides and commits while a signal arrives between two reads of its load.\<close>

definition sleeper :: workflow_definition where
  "sleeper = \<lparr>df_name = ''w'', df_version = 1, df_function =
       \<lparr>pf_name = ''w'', pf_module = ''m'', pf_qualname = ''w'', pf_source = None, pf_identity = 0,
        pf_body = (\<lambda>inp. Await (ReqSleep 1000000) finish)\<rparr>,
     df_code_hash = ''h''\<rparr>"

definition signaller :: "nat \<Rightarrow> db \<Rightarrow> db" where
  "signaller i = (if i = 2 then transact (send_signal (sample_tx 15) 1 ''s'' ''go'' JNull None) else id)"

definition busy_run :: "db \<times> (worker_error + bool)" where
  "busy_run = run_workflow_task sample_env 10 (\<lambda>i. sample_tx (20 + int i)) signaller
     (empty_registry\<lparr>rg_workflows := [((''w'', 1), sleeper)]\<rparr>) ''q'' 50 sample_started"

lemma faithful_transact:
  "(faithful env)\<^sup>*\<^sup>* d0 d \<Longrightarrow> (\<And>d' r. op d = Inr (d', r) \<Longrightarrow> faithful env d d')
    \<Longrightarrow> (faithful env)\<^sup>*\<^sup>* d0 (transact op d)"
  by (auto simp: transact_def split: sum.splits intro: rtranclp.rtrancl_into_rtrancl)

lemma sample_started_faithful: "(faithful sample_env)\<^sup>*\<^sup>* empty_db sample_started"
  unfolding sample_started_def
  by (intro faithful_transact rtranclp.rtrancl_refl) (auto intro: step_start step_register)

theorem worker_steps_are_faithful_witness:
  "snd busy_run = Inr True
    \<and> map hr_event_type (db_history (fst busy_run)) = [WorkflowExecutionStarted, SignalReceived, TimerStarted]
    \<and> (faithful sample_env)\<^sup>*\<^sup>* sample_started (fst busy_run)"
proof (intro conjI)
  show "snd busy_run = Inr True" by code_simp
  show "map hr_event_type (db_history (fst busy_run)) = [WorkflowExecutionStarted, SignalReceived, TimerStarted]"
    by code_simp
  have "(faithful sample_env)\<^sup>*\<^sup>* d (signaller i d)" for i d
    unfolding signaller_def by (auto intro: faithful_transact[OF rtranclp.rtrancl_refl] step_signal)
  then have "interferes (faithful sample_env) signaller" by (simp add: interferes_def)
  from worker_steps_are_faithful[OF this sample_started_faithful]
  show "(faithful sample_env)\<^sup>*\<^sup>* sample_started (fst busy_run)" unfolding busy_run_def by blast
qed

section \<open>Histories\<close>

text \<open>
  C2. Whatever clients, workers and maintenance have done, in any order, the history that a worker loads
  for a workflow task is accepted by the replay index, so that replay never stops with a corrupted history,
  also when others commit between the reads of the worker; provided that the hash behind entity ids has not
  mapped two commands of this history to one id.
\<close>

theorem loaded_history_is_always_valid:
  assumes "(faithful env)\<^sup>*\<^sup>* empty_db d" and "(faithful env)\<^sup>*\<^sup>* d d1" and "(faithful env)\<^sup>*\<^sup>* d1 d2"
    and "load_workflow_replay_state x task d d1 d2 = Inr st"
    and "collision_free env (lt_workflow_id task) (command_ids (rs_history st))"
  shows "\<exists>ix. HistoryIndex (rs_history st) = Inr ix
    \<and> (\<forall>env' f v i e. replay_workflow env' f v i (rs_history st) \<noteq> Inl (InvalidHistoryError e))"
proof -
  have reach: "(faithful env)\<^sup>*\<^sup>* empty_db d1" "(faithful env)\<^sup>*\<^sup>* empty_db d2"
    using rtranclp_trans[OF assms(1,2)] rtranclp_trans[OF rtranclp_trans[OF assms(1,2)] assms(3)] by simp_all
  have com: "committed d1" "committed d2"
    using steps_progress[OF faithful_steps[OF reach(1)] committed_empty]
      steps_progress[OF faithful_steps[OF reach(2)] committed_empty] by simp_all
  have app: "only_appends d1 d2" using steps_progress[OF faithful_steps[OF assms(3)] com(1)] by simp
  note st = loaded_history[OF assms(4) app com(2)]
  obtain e where "find_execution d2 (lt_workflow_id task) = Some e" using st(2) by auto
  from faithful_valid_history[OF reach(2) this] assms(5) have "valid_history (rs_history st)" by (simp add: st(1))
  then obtain ix where ix: "HistoryIndex (rs_history st) = Inr ix" by (auto simp: HistoryIndex_iff)
  then have "replay_workflow env' f v i (rs_history st) \<noteq> Inl (InvalidHistoryError e)" for env' f v i e
    by (auto simp: replay_workflow_def Let_def split: outcome.splits exn.splits suspension.splits prod.splits option.splits)
  with ix show ?thesis by blast
qed

text \<open>The sample run is faithful; at time 60 a worker takes the workflow task that the activity has woken.\<close>

lemma sample_completed_faithful: "(faithful sample_env)\<^sup>*\<^sup>* empty_db sample_completed"
proof -
  have 1: "(faithful sample_env)\<^sup>*\<^sup>* empty_db sample_leased"
    unfolding sample_leased_def by (rule faithful_transact[OF sample_started_faithful]) (rule step_lease)
  have m1: "task_matches sample_task sample_leased" by code_simp
  have "\<forall>c\<in>set (rr_commands sample_decision). named_command sample_env (lt_workflow_id sample_task) c"
    by code_simp
  then have 2: "(faithful sample_env)\<^sup>*\<^sup>* empty_db sample_scheduled"
    unfolding sample_scheduled_def by (intro faithful_transact[OF 1] faithful_commit[OF m1])
  have 3: "(faithful sample_env)\<^sup>*\<^sup>* empty_db sample_running"
    unfolding sample_running_def by (rule faithful_transact[OF 2]) (rule step_lease)
  have m3: "task_matches sample_attempt sample_running" by code_simp
  show ?thesis
    unfolding sample_completed_def by (intro faithful_transact[OF 3] faithful_complete[OF m3])
qed

definition sample_woken :: db where
  "sample_woken = transact (lease_task sample_env (sample_tx 60) WorkflowTask ''q'' 50) sample_completed"

definition sample_wake_task :: leased_task where
  "sample_wake_task = sample_task\<lparr>lt_id := 5000, lt_lease_token := 6000\<rparr>"

definition sample_state :: "db_error + workflow_replay_state" where
  "sample_state = load_workflow_replay_state (sample_tx 65) sample_wake_task sample_woken sample_woken sample_woken"

lemma collision_free_one: "collision_free env w {c}" "collision_free env w {}"
  by (simp_all add: collision_free_def)

theorem loaded_history_is_always_valid_witness:
  "\<exists>st ix. sample_state = Inr st \<and> length (rs_history st) = 4 \<and> HistoryIndex (rs_history st) = Inr ix"
proof -
  have "(case sample_state of Inl e \<Rightarrow> False | Inr st \<Rightarrow>
      length (rs_history st) = 4 \<and> list_all (\<lambda>ev. is_schedule ev \<longrightarrow> ev_command_id ev = Some 0) (rs_history st))"
    by code_simp
  then obtain st where st: "sample_state = Inr st" "length (rs_history st) = 4"
    and ids: "list_all (\<lambda>ev. is_schedule ev \<longrightarrow> ev_command_id ev = Some 0) (rs_history st)"
    by (auto split: sum.splits)
  have "command_ids (rs_history st) \<subseteq> {0}" using ids by (auto simp: command_ids_def list_all_iff)
  then have "command_ids (rs_history st) = {} \<or> command_ids (rs_history st) = {0}" by blast
  then have free: "collision_free sample_env (lt_workflow_id sample_wake_task) (command_ids (rs_history st))"
    using collision_free_one by metis
  have "(faithful sample_env)\<^sup>*\<^sup>* empty_db sample_woken"
    unfolding sample_woken_def by (rule faithful_transact[OF sample_completed_faithful]) (rule step_lease)
  from loaded_history_is_always_valid[OF this rtranclp.rtrancl_refl rtranclp.rtrancl_refl st(1)[unfolded sample_state_def] free] st show ?thesis by blast
qed

end
