(* ===== verification/Cli_Properties.thy ===== *)
theory Cli_Properties
  imports Cli History_Properties Schedule_Properties
begin

text \<open>The properties of the program as it is started from a shell: its commands, its worker service and its logs.\<close>

section \<open>Keys\<close>

lemma split_on_last: "c \<notin> set a \<Longrightarrow> split_on c a = [a]"
  by (induction a) auto

lemma split_on_append: "c \<notin> set a \<Longrightarrow> split_on c (a @ c # b) = a # split_on c b"
  by (induction a) (auto simp: split_on_nonempty split: list.splits)

lemma strip_clean: "\<forall>c\<in>set s. \<not> is_space c \<Longrightarrow> str_strip s = s"
proof -
  assume "\<forall>c\<in>set s. \<not> is_space c"
  then have "dropWhile is_space s = s" "dropWhile is_space (rev s) = rev s"
    by (auto simp: dropWhile_eq_self_iff hd_in_set intro: hd_in_set dest: last_in_set simp: hd_rev)
  then show ?thesis by (simp add: str_strip_def)
qed

definition key_char :: "char \<Rightarrow> bool" where
  "key_char c \<longleftrightarrow> is_alnum c \<or> c = CHR ''-'' \<or> c = CHR ''_''"

definition plain_char :: "char \<Rightarrow> bool" where
  "plain_char c \<longleftrightarrow> c \<noteq> CHR '':'' \<and> c \<noteq> CHR '','' \<and> \<not> is_space c"

lemma key_char_plain: "key_char c \<Longrightarrow> plain_char c"
  by (auto simp: key_char_def plain_char_def is_alnum_def is_space_def Let_def)

lemma hex_char_digit: "0 \<le> n \<Longrightarrow> n < 16 \<Longrightarrow> hex_char (hex_digit n)"
proof -
  have "list_all (\<lambda>n. hex_char (hex_digit n)) [0..15]" by code_simp
  then show "0 \<le> n \<Longrightarrow> n < 16 \<Longrightarrow> ?thesis" by (simp add: list_all_iff)
qed

lemma hex_char_simps: "hex_char c \<Longrightarrow> char_lower c = c \<and> plain_char c"
  by (auto simp: hex_char_def char_lower_def plain_char_def is_space_def)

lemma hexdigest_ok:
  assumes "\<forall>b\<in>set bs. 0 \<le> b \<and> b < 256"
  shows "length (hexdigest bs) = 2 * length bs" and "list_all hex_char (hexdigest bs)"
  using assms by (induction bs) (auto simp: hexdigest_def intro!: hex_char_digit)

lemma role_names: "role_of role = Some r \<Longrightarrow> \<forall>c\<in>set role. plain_char c"
  by (auto simp: role_of_def plain_char_def is_space_def split: if_splits)

lemma entry_plain:
  assumes "\<forall>c\<in>set key_id. plain_char c" and "role_of role = Some r"
    and "\<forall>b\<in>set (py_sha256 env token). 0 \<le> b \<and> b < 256"
  shows "\<forall>c\<in>set (configuration_entry env key_id role token). c \<noteq> CHR '','' \<and> \<not> is_space c"
    and "split_on CHR '':'' (configuration_entry env key_id role token)
      = [key_id, role, token_digest env token]"
proof -
  have d: "\<forall>c\<in>set (token_digest env token). plain_char c"
    using hexdigest_ok(2)[OF assms(3)] hex_char_simps by (auto simp: token_digest_def list_all_iff)
  note k = assms(1) and r = role_names[OF assms(2)]
  show "\<forall>c\<in>set (configuration_entry env key_id role token). c \<noteq> CHR '','' \<and> \<not> is_space c"
  proof
    fix c assume "c \<in> set (configuration_entry env key_id role token)"
    then consider "c \<in> set key_id" | "c = CHR '':''" | "c \<in> set role" | "c \<in> set (token_digest env token)"
      unfolding configuration_entry_def by auto
    then show "c \<noteq> CHR '','' \<and> \<not> is_space c"
    proof cases
      case 2
      have "\<not> is_space CHR '':''" by code_simp
      then show ?thesis unfolding 2 by simp
    qed (use d k r in \<open>auto simp: plain_char_def\<close>)
  qed
  have "CHR '':'' \<notin> set key_id" "CHR '':'' \<notin> set role" "CHR '':'' \<notin> set (token_digest env token)"
    using d k r unfolding plain_char_def by blast+
  then show "split_on CHR '':'' (configuration_entry env key_id role token) = [key_id, role, token_digest env token]"
    unfolding configuration_entry_def by (simp add: split_on_append split_on_last)
qed

lemma entry_parses:
  assumes key: "\<forall>c\<in>set key_id. key_char c" "\<exists>c\<in>set key_id. is_alnum c" "length key_id \<le> 100"
    and role: "role_of role = Some r"
    and sha: "length (py_sha256 env token) = 32" "\<forall>b\<in>set (py_sha256 env token). 0 \<le> b \<and> b < 256"
  shows "parse_key (configuration_entry env key_id role token)
    = Inr \<lparr>ak_key_id = key_id, ak_role = r, ak_digest = token_digest env token\<rparr>"
proof -
  have "\<forall>c\<in>set key_id. plain_char c" using key(1) key_char_plain by blast
  note plain = entry_plain[OF this role sha(2)]
  have strip: "str_strip (configuration_entry env key_id role token) = configuration_entry env key_id role token"
    using plain(1) by (intro strip_clean) blast
  let ?bare = "filter (\<lambda>c. c \<noteq> CHR ''-'' \<and> c \<noteq> CHR ''_'') key_id"
  have bare: "?bare \<noteq> []" "list_all is_alnum ?bare"
  proof -
    obtain c where "c \<in> set key_id" "is_alnum c" using key(2) by blast
    moreover from this have "c \<noteq> CHR ''-''" "c \<noteq> CHR ''_''" by (auto simp: is_alnum_def)
    ultimately show "?bare \<noteq> []" by (auto simp: filter_empty_conv)
    show "list_all is_alnum ?bare" using key(1) by (auto simp: list_all_iff key_char_def)
  qed
  have hex: "list_all hex_char (token_digest env token)" "length (token_digest env token) = 64"
    using hexdigest_ok[OF sha(2)] sha(1) by (simp_all add: token_digest_def)
  then have low: "str_lower (token_digest env token) = token_digest env token"
    using hex_char_simps by (auto simp: str_lower_def list_all_iff intro: map_idI)
  have "key_id \<noteq> []" using key(2) by auto
  then show ?thesis
    unfolding parse_key_def strip plain(2) using bare key(3) role hex low by (simp add: Let_def)
qed

definition sole_key :: "api_key \<Rightarrow> auth_config" where
  "sole_key k = \<lparr>ac_keys = [k], ac_disabled = False, ac_requests_per_minute = 300, ac_max_request_bytes = 1048576\<rparr>"

lemma entry_configures:
  assumes key: "\<forall>c\<in>set key_id. key_char c" "\<exists>c\<in>set key_id. is_alnum c" "length key_id \<le> 100"
    and role: "role_of role = Some r"
    and sha: "length (py_sha256 env token) = 32" "\<forall>b\<in>set (py_sha256 env token). 0 \<le> b \<and> b < 256"
  shows "auth_config_from_env [(''DWE_API_KEYS'', configuration_entry env key_id role token)] read_file
    = Inr (sole_key \<lparr>ak_key_id = key_id, ak_role = r, ak_digest = token_digest env token\<rparr>)"
proof -
  let ?e = "configuration_entry env key_id role token"
  have "\<forall>c\<in>set key_id. plain_char c" using key(1) key_char_plain by blast
  note plain = entry_plain[OF this role sha(2)]
  have strip: "str_strip ?e = ?e" using plain(1) by (intro strip_clean) blast
  have split: "split_on CHR '','' ?e = [ ?e]" using plain(1) by (intro split_on_last) blast
  have "?e \<noteq> []" by (simp add: configuration_entry_def)
  then have keys: "parse_keys [ ?e]
      = Inr [\<lparr>ak_key_id = key_id, ak_role = r, ak_digest = token_digest env token\<rparr>]"
    by (simp add: strip entry_parses[OF assms])
  have "str_lower (str_strip ''required'') = ''required''" by code_simp
  moreover have "positive_int [(''DWE_API_KEYS'', ?e)] ''DWE_RATE_LIMIT_PER_MINUTE'' 300 = Inr 300"
    "positive_int [(''DWE_API_KEYS'', ?e)] ''DWE_MAX_REQUEST_BYTES'' 1048576 = Inr 1048576"
  proof -
    have "int_of_string (int_str 300) = Some 300" "int_of_string (int_str 1048576) = Some 1048576" by code_simp+
    then show "positive_int [(''DWE_API_KEYS'', ?e)] ''DWE_RATE_LIMIT_PER_MINUTE'' 300 = Inr 300"
      "positive_int [(''DWE_API_KEYS'', ?e)] ''DWE_MAX_REQUEST_BYTES'' 1048576 = Inr 1048576"
      by (simp_all add: positive_int_def)
  qed
  ultimately show ?thesis
    by (simp add: auth_config_from_env_def secret_value_def strip split keys sole_key_def Let_def del: parse_keys.simps)
qed

lemma main_auth_key:
  assumes "configure_logging (pc_environ pc) logger = Inr l"
    and "secret_value (pc_environ pc) (pc_read_file pc) ''DATABASE_URL'' False = Inr url"
    and "role_of role = Some r"
  shows "main pc rt logger ''auth-key'' [(''--key-id'', key_id), (''--role'', role)] w
    = (w, Some (Inr (run_auth_key (pc_env pc) (rt_token rt) key_id role)))"
proof -
  have "role \<in> {''viewer'', ''operator'', ''admin''}" using assms(3) by (auto simp: role_of_def split: if_splits)
  then show ?thesis
    by (simp add: main_def build_parser_def assms(1,2) parse_arguments_def option_of_def argument_value_def
        convert_text_def dispatch_def text_of_def Let_def)
qed

text \<open>The command does not check the key id: it prints, with exit code 0, entries that the API refuses.\<close>

lemma unusable_key_printed:
  assumes "configure_logging (pc_environ pc) logger = Inr l"
    and "secret_value (pc_environ pc) (pc_read_file pc) ''DATABASE_URL'' False = Inr url"
    and role: "role_of role = Some r"
    and key: "\<forall>c\<in>set key_id. plain_char c" "\<exists>c\<in>set key_id. \<not> key_char c"
    and sha: "\<forall>b\<in>set (py_sha256 (pc_env pc) (rt_token rt)). 0 \<le> b \<and> b < 256"
  shows "main pc rt logger ''auth-key'' [(''--key-id'', key_id), (''--role'', role)] w
      = (w, Some (Inr (run_auth_key (pc_env pc) (rt_token rt) key_id role)))
    \<and> parse_key (configuration_entry (pc_env pc) key_id role (rt_token rt)) = Inl BadKeyId"
proof -
  note plain = entry_plain[OF key(1) role sha]
  have strip: "str_strip (configuration_entry (pc_env pc) key_id role (rt_token rt))
      = configuration_entry (pc_env pc) key_id role (rt_token rt)"
    using plain(1) by (intro strip_clean) blast
  have "\<not> list_all is_alnum (filter (\<lambda>c. c \<noteq> CHR ''-'' \<and> c \<noteq> CHR ''_'') key_id)"
    using key(2) by (auto simp: list_all_iff key_char_def)
  then show ?thesis unfolding parse_key_def strip plain(2) by (simp add: Let_def main_auth_key[OF assms(1-3)])
qed

text \<open>
  C29. A key made by the command line works: whoever runs \<^verbatim>\<open>engine auth-key\<close> with a key id of letters,
  digits, hyphens and underscores and a role gets, with exit code 0, a token and a configuration entry; the
  entry alone is a valid API configuration, under which exactly the tokens with the digest of the printed
  token are accepted, with that key id and role.
\<close>

theorem printed_key_authenticates:
  assumes "configure_logging (pc_environ pc) logger = Inr l"
    and "secret_value (pc_environ pc) (pc_read_file pc) ''DATABASE_URL'' False = Inr url"
    and "\<forall>c\<in>set key_id. key_char c" and "\<exists>c\<in>set key_id. is_alnum c" and "length key_id \<le> 100"
    and "role_of role = Some r"
    and "length (py_sha256 (pc_env pc) (rt_token rt)) = 32"
    and "\<forall>b\<in>set (py_sha256 (pc_env pc) (rt_token rt)). 0 \<le> b \<and> b < 256"
  shows "\<exists>out entry cfg.
    main pc rt logger ''auth-key'' [(''--key-id'', key_id), (''--role'', role)] w
      = (w, Some (Inr (PrintedJson (JObj out), 0)))
    \<and> map_of out ''token'' = Some (JStr (rt_token rt))
    \<and> map_of out ''configuration'' = Some (JStr entry)
    \<and> auth_config_from_env [(''DWE_API_KEYS'', entry)] read_file = Inr cfg \<and> validate cfg = Inr ()
    \<and> (\<forall>token. authenticate (pc_env pc) cfg token =
          (if token_digest (pc_env pc) token = token_digest (pc_env pc) (rt_token rt)
           then Some \<lparr>pr_key_id = key_id, pr_role = r\<rparr> else None))"
proof -
  note configured = entry_configures[OF assms(3-8), of read_file]
  show ?thesis
    unfolding main_auth_key[OF assms(1,2,6)] run_auth_key_def
    by (intro exI conjI allI, rule refl, simp, simp, rule configured)
       (simp_all add: sole_key_def validate_def authenticate_def match_key_def)
qed

definition digest_env :: pyenv where
  "digest_env = sample_env\<lparr>py_sha256 := (\<lambda>s. replicate 31 0 @ [int (length s) mod 256])\<rparr>"

definition sample_process :: "unit process" where
  "sample_process = \<lparr>pc_env = digest_env, pc_environ = [], pc_read_file = (\<lambda>f. None),
     pc_parse_float = (\<lambda>s. None), pc_loads = (\<lambda>s. None), pc_modules = (\<lambda>m. None), pc_directory = [],
     pc_run_sql = (\<lambda>s q. None)\<rparr>"

definition sample_service :: service_config where
  "sample_service = \<lparr>vc_env = sample_env, vc_zones = sample_zones, vc_depth = 10, vc_registry = empty_registry,
     vc_queue_name = ''q'', vc_roles = [], vc_worker_id = 77, vc_hostname = ''host'', vc_process_id = 4\<rparr>"

definition sample_runtime :: runtime where
  "sample_runtime = \<lparr>rt_tx = sample_tx 10, rt_token = ''0123456789abcdef'', rt_service = sample_service,
     rt_turns = [], rt_stop = None\<rparr>"

definition sample_world :: "unit world" where
  "sample_world = \<lparr>wd_schema = \<lparr>ss_schema = (), ss_applied = []\<rparr>, wd_db = empty_db\<rparr>"

definition sample_logger :: root_logger where
  "sample_logger = \<lparr>rl_handlers = [], rl_level = 30\<rparr>"

theorem printed_key_authenticates_witness:
  "\<exists>out entry cfg.
    main sample_process sample_runtime sample_logger ''auth-key''
        [(''--key-id'', ''ops-1''), (''--role'', ''operator'')] sample_world
      = (sample_world, Some (Inr (PrintedJson (JObj out), 0)))
    \<and> map_of out ''configuration'' = Some (JStr entry)
    \<and> auth_config_from_env [(''DWE_API_KEYS'', entry)] (\<lambda>f. None) = Inr cfg
    \<and> authenticate digest_env cfg ''0123456789abcdef'' = Some \<lparr>pr_key_id = ''ops-1'', pr_role = Operator\<rparr>
    \<and> authenticate digest_env cfg ''0123456789abcdefg'' = None"
proof -
  have "configure_logging (pc_environ sample_process) sample_logger = Inr \<lparr>rl_handlers = [JSONLines], rl_level = 20\<rparr>"
    and "secret_value (pc_environ sample_process) (pc_read_file sample_process) ''DATABASE_URL'' False = Inr None"
    and "\<forall>c\<in>set ''ops-1''. key_char c" and "\<exists>c\<in>set ''ops-1''. is_alnum c" and "length ''ops-1'' \<le> 100"
    and "role_of ''operator'' = Some Operator"
    and "length (py_sha256 (pc_env sample_process) (rt_token sample_runtime)) = 32"
    and "\<forall>b\<in>set (py_sha256 (pc_env sample_process) (rt_token sample_runtime)). 0 \<le> b \<and> b < 256"
    by code_simp+
  note made = printed_key_authenticates[OF this, of sample_world "\<lambda>f. None"]
  have other: "token_digest digest_env ''0123456789abcdefg'' \<noteq> token_digest digest_env ''0123456789abcdef''"
    by code_simp
  have "pc_env sample_process = digest_env" "rt_token sample_runtime = ''0123456789abcdef''"
    by (simp_all add: sample_process_def sample_runtime_def)
  with made show ?thesis
    by (elim exE conjE, intro exI conjI) (assumption | simp only: other refl simp_thms if_True if_False)+
qed

section \<open>Commands\<close>

lemma run_worker_keeps_protocol:
  assumes "run_worker c idle_delay heartbeat_interval roles turns stop s = Inr (s', ending)"
    and "\<forall>t\<in>set turns. turn_interferes (faithful (vc_env c)) t" and "committed (sv_db s)"
  shows "(faithful (vc_env c))\<^sup>*\<^sup>* (sv_db s) (sv_db s')"
    and "ending \<noteq> Running \<Longrightarrow> stop = Some x \<Longrightarrow> r \<in> set (db_workers (sv_db s'))
      \<Longrightarrow> wk_worker_id r = vc_worker_id c \<Longrightarrow> wk_stopped_at r = Some (tx_now x)"
proof -
  from assms(1) obtain rs s1 where run: "run_service (c\<lparr>vc_roles := rs\<rparr>) turns s = (s1, ending)"
    and s': "sv_db s' = sv_db s1 \<and> (ending = Running \<or> stop = None)
      \<or> ending \<noteq> Running \<and> (\<exists>x. stop = Some x \<and> sv_db s' = transact (stop_worker x (vc_worker_id c)) (sv_db s1))"
    by (rule run_worker_cases)
  have s1: "(faithful (vc_env c))\<^sup>*\<^sup>* (sv_db s) (sv_db s1)"
    using run_service_faithful[of turns "c\<lparr>vc_roles := rs\<rparr>" s] assms(2,3) run by simp
  from s' show "(faithful (vc_env c))\<^sup>*\<^sup>* (sv_db s) (sv_db s')"
    using s1 rtranclp.rtrancl_into_rtrancl[OF s1 transact_stop_faithful] by auto
  from s' show "ending \<noteq> Running \<Longrightarrow> stop = Some x \<Longrightarrow> r \<in> set (db_workers (sv_db s'))
      \<Longrightarrow> wk_worker_id r = vc_worker_id c \<Longrightarrow> wk_stopped_at r = Some (tx_now x)"
    using stopped_row by auto
qed

lemma register_definitions_faithful: "(faithful env)\<^sup>*\<^sup>* d (fst (register_definitions defs d))"
proof (induction defs d rule: register_definitions.induct)
  case (2 def defs d)
  then show ?case
    by (auto split: sum.split intro: converse_rtranclp_into_rtranclp step_register)
qed simp

lemma registered_pool_db [simp]: "wd_db (fst (registered_pool pc url name w)) = wd_db w"
  by (simp add: registered_pool_def split_beta)

lemma run_register_faithful: "(faithful env)\<^sup>*\<^sup>* (wd_db w) (wd_db (fst (run_register pc definitions url w)))"
  using register_definitions_faithful[of env]
  by (auto simp: run_register_def split_beta split: sum.split)

lemma run_start_faithful: "(faithful env)\<^sup>*\<^sup>* (wd_db w) (wd_db (fst (run_start pc x wt v input q url w)))"
  by (auto simp: run_start_def split_beta split: sum.split intro!: r_into_rtranclp step_start)

lemma start_of_worker_uninterrupted:
  "load_registry pc reference \<noteq> Inl KeyboardInterrupt" "registered_pool pc url name w \<noteq> (w', Inl KeyboardInterrupt)"
  by (auto simp: load_registry_def load_value_def registered_pool_def configured_pool_def res_simps Let_def map_sum_def
      split: prod.splits option.splits if_splits module_value.splits sum.splits)

text \<open>The worker command runs the service on the database with the definitions registered.\<close>

lemma run_worker_command_cases:
  assumes "run_worker_command pc c turns stop definitions queue role poll beat url w = (w', res)"
  obtains (early) defs e where "wd_db w' = fst (register_definitions defs (wd_db w))" and "res = Some (Inl e)"
      and "e \<noteq> KeyboardInterrupt"
  | (service) defs reg roles ms s ending where
      "run_worker (c\<lparr>vc_env := pc_env pc, vc_registry := reg, vc_queue_name := queue\<rparr>) poll beat roles turns stop
         \<lparr>sv_db = fst (register_definitions defs (wd_db w)), sv_metrics = ms\<rparr> = Inr (s, ending)"
      and "wd_db w' = sv_db s" and "ending = Running \<Longrightarrow> res = None"
proof (cases "load_registry pc definitions")
  case (Inl e)
  with assms early[of "[]" e] start_of_worker_uninterrupted(1)[of pc definitions] show ?thesis
    by (auto simp: run_worker_command_def)
next
  case reg: (Inr reg)
  obtain w1 r1 where pool: "registered_pool pc url ''dwe-worker'' w = (w1, r1)" by fastforce
  then have db: "wd_db w1 = wd_db w" using registered_pool_db[of pc url "''dwe-worker''" w] by simp
  obtain d r2 where defs: "register_definitions (registered_workflows reg) (wd_db w) = (d, r2)" by fastforce
  show ?thesis
  proof (cases "(\<exists>e. r1 = Inl e) \<or> (\<exists>e. r2 = Inl e)")
    case True
    have "r1 \<noteq> Inl KeyboardInterrupt" using start_of_worker_uninterrupted(2) pool by metis
    with True assms early[of "[]"] early[of "registered_workflows reg"] show ?thesis
      by (cases r1) (use db in \<open>auto simp: run_worker_command_def reg pool defs\<close>)
  next
    case False
    define roles where "roles = (case role of Some (r # rs) \<Rightarrow> r # rs | _ \<Rightarrow> [''workflow'', ''activity'', ''maintenance''])"
    define ms where "ms = (\<lambda>r :: string. \<lparr>lm_errors = 0, lm_progressed = 0, lm_idle = 0\<rparr>)"
    define run where "run = run_worker (c\<lparr>vc_env := pc_env pc, vc_registry := reg, vc_queue_name := queue\<rparr>) poll beat
      roles turns stop \<lparr>sv_db = d, sv_metrics = ms\<rparr>"
    from False assms have res: "(case run of Inl e \<Rightarrow> (w1\<lparr>wd_db := d\<rparr>, Some (Inl (ServiceError e)))
      | Inr (s, ending) \<Rightarrow> (w1\<lparr>wd_db := sv_db s\<rparr>,
          (case ending of Running \<Rightarrow> None | Stopped \<Rightarrow> Some (Inr (PrintedNothing, 0))
           | Crashed e \<Rightarrow> Some (Inl (ServiceCrash e)) | Interrupted \<Rightarrow> Some (Inl KeyboardInterrupt)))) = (w', res)"
      by (cases r1; cases r2)
         (simp_all add: run_worker_command_def reg pool db defs run_def roles_def ms_def)
    show ?thesis
    proof (cases run)
      case (Inl e)
      with res early[of "registered_workflows reg"] defs show ?thesis by auto
    next
      case (Inr p)
      obtain s ending where p: "p = (s, ending)" by (cases p)
      with res Inr have "wd_db w' = sv_db s" "ending = Running \<Longrightarrow> res = None" by auto
      with service[of reg roles "registered_workflows reg" ms s ending] Inr show ?thesis
        by (simp add: run_def p defs)
    qed
  qed
qed

lemma run_worker_command_keeps_protocol:
  assumes "run_worker_command pc c turns stop definitions queue role poll beat url w = (w', res)"
    and turns: "\<forall>t\<in>set turns. turn_interferes (faithful (pc_env pc)) t" and com: "committed (wd_db w)"
  shows "(faithful (pc_env pc))\<^sup>*\<^sup>* (wd_db w) (wd_db w')
    \<and> (\<forall>out x r. res = Some (Inr out) \<or> res = Some (Inl KeyboardInterrupt) \<longrightarrow> stop = Some x
         \<longrightarrow> r \<in> set (db_workers (wd_db w')) \<longrightarrow> wk_worker_id r = vc_worker_id c \<longrightarrow> wk_stopped_at r = Some (tx_now x))"
  using assms(1)
proof (cases rule: run_worker_command_cases)
  case (early defs e)
  then show ?thesis using register_definitions_faithful by simp
next
  case (service defs reg roles ms s ending)
  let ?d = "fst (register_definitions defs (wd_db w))"
  have d: "(faithful (pc_env pc))\<^sup>*\<^sup>* (wd_db w) ?d" by (rule register_definitions_faithful)
  then have "committed ?d" using steps_progress[OF faithful_steps com] by blast
  with run_worker_keeps_protocol[OF service(1)] turns rtranclp_trans[OF d] service(2,3) show ?thesis by auto
qed

text \<open>
  C20. The command line keeps to the protocol: whatever command is run with whatever arguments, and whether it
  succeeds, is refused or ends with an exception, it takes the database through faithful steps only. For
  \<^verbatim>\<open>engine worker\<close> that holds however the event loop interleaves the heartbeats and the iterations of the
  roles with each other and with other clients and whichever steps fail; and when this command returns,
  stopped or interrupted, and its last write was possible, every row of its worker is marked as stopped.
\<close>

theorem command_line_keeps_protocol:
  assumes "main pc rt logger command given w = (w', res)"
    and "\<forall>t\<in>set (rt_turns rt). turn_interferes (faithful (pc_env pc)) t"
    and "(faithful (pc_env pc))\<^sup>*\<^sup>* empty_db (wd_db w)"
  shows "(faithful (pc_env pc))\<^sup>*\<^sup>* (wd_db w) (wd_db w')
    \<and> (\<forall>out x r. command = ''worker'' \<longrightarrow> res = Some (Inr out) \<longrightarrow> rt_stop rt = Some x
         \<longrightarrow> r \<in> set (db_workers (wd_db w')) \<longrightarrow> wk_worker_id r = vc_worker_id (rt_service rt)
         \<longrightarrow> wk_stopped_at r = Some (tx_now x))"
proof -
  consider (refused) e where "w' = w" "res = Some (Inl e)" | (dispatched) ns where "dispatch pc rt command ns w = (w', res)"
    using assms(1) unfolding main_def by (auto split: sum.splits)
  then show ?thesis
  proof cases
    case dispatched
    have com: "committed (wd_db w)" using steps_progress[OF faithful_steps[OF assms(3)] committed_empty] by simp
    note worker = run_worker_command_keeps_protocol[OF _ assms(2) com]
    show ?thesis
    proof (cases "command \<in> {''auth-key'', ''replay-check'', ''register'', ''start''}")
      case True
      moreover have "w' = fst (dispatch pc rt command ns w)" by (simp add: dispatched)
      ultimately show ?thesis
        using dispatched run_register_faithful[of "pc_env pc" w pc] run_start_faithful[of "pc_env pc" w pc]
        by (auto simp: dispatch_def run_replay_check_def split_beta)
    next
      case False
      define res0 where "res0 = run_worker_command pc (rt_service rt) (rt_turns rt) (rt_stop rt) (text_of ns ''definitions'')
        (text_of ns ''queue'') (list_of ns ''role'') (float_of ns ''poll_interval'')
        (float_of ns ''heartbeat_interval'') (text_of ns ''database_url'') w"
      from False dispatched have "(case res0 of (w, Some (Inl KeyboardInterrupt)) \<Rightarrow> (w, Some (Inr (PrintedNothing, 130)))
          | (w, res) \<Rightarrow> (w, res)) = (w', res)"
        by (simp add: dispatch_def res0_def)
      then consider "res0 = (w', res)" | "res0 = (w', Some (Inl KeyboardInterrupt))"
        by (auto split: prod.splits option.splits sum.splits cli_error.splits)
      then show ?thesis using worker[OF res0_def[symmetric, THEN trans]] by cases blast+
    qed
  qed simp
qed

text \<open>The service beats, takes a task that it knows no definition for, and is stopped.\<close>

definition worker_process :: "unit process" where
  "worker_process = sample_process\<lparr>pc_env := sample_env, pc_environ := [(''DATABASE_URL'', ''postgresql://db'')],
     pc_parse_float := (\<lambda>t. if t = ''30'' then Some (Finite 30) else None),
     pc_directory := [(''001_initial.sql'', ''create'')], pc_run_sql := (\<lambda>q u. Some u),
     pc_modules := (\<lambda>m. if m = ''app'' then Some (\<lambda>a. if a = ''defs'' then Some (RegistryValue empty_registry) else None)
       else None)\<rparr>"

definition worker_runtime :: runtime where
  "worker_runtime = sample_runtime\<lparr>
     rt_turns := [HeartbeatTurn (sample_tx 15), RoleTurn ''workflow'' (\<lambda>i. sample_tx (20 + int i)) (\<lambda>i d. d), StopTurn],
     rt_stop := Some (sample_tx 40)\<rparr>"

definition worker_command :: "unit world \<times> (cli_error + printed \<times> int) option" where
  "worker_command = main worker_process worker_runtime sample_logger ''worker''
     [(''--definitions'', ''app:defs''), (''--queue'', ''q'')] (sample_world\<lparr>wd_db := sample_started\<rparr>)"

theorem command_line_keeps_protocol_witness:
  "snd worker_command = Some (Inr (PrintedNothing, 0))
    \<and> map wk_stopped_at (db_workers (wd_db (fst worker_command))) = [Some 40]
    \<and> (faithful sample_env)\<^sup>*\<^sup>* sample_started (wd_db (fst worker_command))"
proof -
  have res: "snd worker_command = Some (Inr (PrintedNothing, 0))" by code_simp
  have "map wk_worker_id (db_workers (wd_db (fst worker_command))) = [vc_worker_id (rt_service worker_runtime)]"
    by code_simp
  then obtain r where r: "db_workers (wd_db (fst worker_command)) = [r]"
    "wk_worker_id r = vc_worker_id (rt_service worker_runtime)" by auto
  have pc: "pc_env worker_process = sample_env" and stop: "rt_stop worker_runtime = Some (sample_tx 40)"
    by (simp_all add: worker_process_def worker_runtime_def)
  have 1: "main worker_process worker_runtime sample_logger ''worker'' [(''--definitions'', ''app:defs''),
    (''--queue'', ''q'')] (sample_world\<lparr>wd_db := sample_started\<rparr>) = (fst worker_command, snd worker_command)"
    by (simp add: worker_command_def)
  have 2: "\<forall>t\<in>set (rt_turns worker_runtime). turn_interferes (faithful (pc_env worker_process)) t"
    by (simp add: worker_runtime_def interferes_def)
  have 3: "(faithful (pc_env worker_process))\<^sup>*\<^sup>* empty_db (wd_db (sample_world\<lparr>wd_db := sample_started\<rparr>))"
    using sample_started_faithful by (simp add: pc)
  have "tx_now (sample_tx 40) = 40" by (simp add: sample_tx_def)
  with command_line_keeps_protocol[OF 1 2 3] res r stop show ?thesis by (simp add: pc)
qed

text \<open>Registration is idempotent: a second run finds every definition stored with its hash and changes nothing.\<close>

definition stored_definition :: "workflow_definition \<Rightarrow> db \<Rightarrow> bool" where
  "stored_definition def d \<longleftrightarrow> map_option wd_code_hash
     (List.find (\<lambda>r. wd_workflow_type r = df_name def \<and> wd_version r = df_version def) (db_definitions d))
     = Some (df_code_hash def)"

lemma find_append_Some: "List.find P xs = Some x \<Longrightarrow> List.find P (xs @ ys) = Some x"
  by (induction xs) (auto split: if_splits)

lemma register_stores:
  assumes "register_workflow_definition (df_name def) (df_version def) (df_code_hash def) d = Inr (d', u)"
  shows "stored_definition def d'" and "stored_definition def0 d \<Longrightarrow> stored_definition def0 d'"
  using assms
  by (auto simp: register_workflow_definition_def stored_definition_def res_simps Let_def find_append_Some
      split: if_splits)

lemma find_list_ex: "List.find P xs = Some x \<Longrightarrow> list_ex P xs"
  by (induction xs) (auto split: if_splits)

lemma register_stored:
  assumes "stored_definition def d"
  shows "register_workflow_definition (df_name def) (df_version def) (df_code_hash def) d = Inr (d, ())"
proof -
  from assms have "definition_exists d (df_name def) (df_version def)"
    by (auto simp: stored_definition_def definition_exists_def dest: find_list_ex)
  with assms show ?thesis by (simp add: register_workflow_definition_def stored_definition_def)
qed

lemma register_definitions_stores:
  "register_definitions defs d = (d', Inr ()) \<Longrightarrow>
    (\<forall>def. stored_definition def d \<or> def \<in> set defs \<longrightarrow> stored_definition def d')"
proof (induction defs d rule: register_definitions.induct)
  case (2 def defs d)
  then show ?case using register_stores[of def d] by (auto split: sum.splits)
qed simp

lemma register_definitions_stored: "\<forall>def\<in>set defs. stored_definition def d \<Longrightarrow> register_definitions defs d = (d, Inr ())"
  by (induction defs) (simp_all add: register_stored)

lemma register_definitions_idempotent:
  "register_definitions defs d = (d', Inr ()) \<Longrightarrow> register_definitions defs d' = (d', Inr ())"
  using register_definitions_stores register_definitions_stored by blast

section \<open>The log\<close>

text \<open>
  C30. A log record is one line: whatever names, message, context and exception text a record carries, its
  line holds only printable ASCII characters, so that no value can break a line or forge another; and its
  fields are the standard ones, replaced or extended by the context that was given, with the exception last.
\<close>

theorem log_record_is_one_line:
  assumes "\<And>q. no_control (py_float_repr env q)" and "distinct (map fst (lr_dict record))"
  shows "list_all printable (format_record env timestamp record)
    \<and> map_of (log_payload timestamp record) k =
      (if k = ''exception'' \<and> lr_exception record \<noteq> None then map_option JStr (lr_exception record)
       else if is_context_field k \<and> map_of (lr_dict record) k \<noteq> None then map_of (lr_dict record) k
       else map_of [(''timestamp'', JStr timestamp), (''level'', JStr (lr_levelname record)),
              (''logger'', JStr (lr_name record)), (''message'', JStr (lr_message record))] k)"
  using format_record_printable[OF assms(1)] log_payload_lookup[OF assms(2)] by blast

definition sample_record :: log_record where
  "sample_record = \<lparr>lr_levelname = ''ERROR'', lr_name = ''engine'', lr_message = ''failed'' @ [CHR 10],
     lr_dict = [(''lineno'', JInt 3), (''queue'', JStr [CHR 233, CHR 10])], lr_exception = Some ''Boom''\<rparr>"

theorem log_record_is_one_line_witness:
  "list_all printable (format_record sample_env ''t'' sample_record)
    \<and> map_of (log_payload ''t'' sample_record) ''exception'' = Some (JStr ''Boom'')
    \<and> map_of (log_payload ''t'' sample_record) ''lineno'' = None"
proof -
  have 1: "\<And>q. no_control (py_float_repr sample_env q)" by (simp add: sample_env_def)
  have 2: "distinct (map fst (lr_dict sample_record))" by code_simp
  note line = log_record_is_one_line[OF 1 2, of "''t''"]
  from line[of "''exception''"] line[of "''lineno''"] show ?thesis
    by (simp add: sample_record_def is_context_field_def LOG_RECORD_FIELDS_def)
qed





end
