(* ===== verification/Spec2Isabelle.thy ===== *)
theory Spec2Isabelle
  imports Api_Properties Cli_Properties Metrics
begin

text \<open>
  A verification of the Durable Workflow Engine: a Python service that runs workflow functions
  deterministically against histories of events kept in PostgreSQL.

  \<^bold>\<open>The program and its model.\<close> Paths are relative to \<^verbatim>\<open>src/engine\<close>.

  \<^item> \<^bold>\<open>Replay.\<close> A workflow function runs against a recorded history and either finishes or asks for new
    commands. \<open>Serialization\<close> (\<^verbatim>\<open>runtime/serialization.py\<close>) has JSON values, their canonical text and
    fingerprints; \<open>History\<close> (\<^verbatim>\<open>runtime/history.py\<close>) the events and the index that validates them;
    \<open>Context\<close> (\<^verbatim>\<open>sdk/context.py\<close>, \<^verbatim>\<open>runtime/commands.py\<close>, \<^verbatim>\<open>sdk/policies.py\<close>) the operations a workflow
    may call; \<open>Replay\<close> (\<^verbatim>\<open>runtime/replay.py\<close>) the replay itself. A workflow function is a tree of context
    operations (\<open>prog\<close>), so it is deterministic in what the context answers, and nothing else of it
    is assumed. \<open>Context_Laws\<close> states what the operations promise to a replay.
  \<^item> \<^bold>\<open>The database.\<close> \<open>Database\<close> has the tables of \<^verbatim>\<open>migrations/*.sql\<close> as lists of records; each insert
    checks the table's constraints and unique indexes and returns the violated one. A transaction is
    a function from the database to an error, which rolls back, or to the new database and a result.
    The clock, random numbers, fresh ids and the rows that other transactions have locked come in with
    the record \<open>tx\<close>; the functions of Python, hashing and time zones that the code only calls
    come in with \<open>pyenv\<close> and \<open>zones\<close>.
  \<^item> \<^bold>\<open>Operations on it.\<close> \<open>Leasing\<close> (\<^verbatim>\<open>persistence/leasing.py\<close>), \<open>Transitions\<close> and \<open>Commit\<close>
    (\<^verbatim>\<open>persistence/transitions.py\<close>: control of executions, and the transactions of workers), \<open>Timers\<close>
    (\<^verbatim>\<open>timers.py\<close>, \<^verbatim>\<open>timeouts.py\<close>), \<open>Signals\<close> (\<^verbatim>\<open>signals.py\<close>, \<^verbatim>\<open>updates.py\<close>, \<^verbatim>\<open>effects.py\<close>), \<open>Cron\<close>
    (\<^verbatim>\<open>runtime/cron.py\<close>) and \<open>Schedules\<close> (\<^verbatim>\<open>schedules.py\<close>), \<open>Operations\<close> (\<^verbatim>\<open>operations.py\<close>) and the
    read-only \<open>Queries\<close> (\<^verbatim>\<open>queries.py\<close>). Definitions carry the names of the functions they translate.
  \<^item> \<^bold>\<open>Around it.\<close> \<open>Definitions\<close> (\<^verbatim>\<open>runtime/definitions.py\<close>) is the registry of a worker, \<open>Workers\<close>
    (\<^verbatim>\<open>workers/*.py\<close>) one step of each worker as a sequence of transactions with arbitrary interference
    between them and between the reads with which a workflow worker loads its task, \<open>Replay_Debugger\<close> and \<open>Replay_Check\<close> (\<^verbatim>\<open>runtime/replay_debugger.py\<close>,
    \<^verbatim>\<open>runtime/replay_check.py\<close>) the tools for operators, \<open>Security\<close> (\<^verbatim>\<open>config.py\<close>,
    \<^verbatim>\<open>api/security.py\<close>) settings, keys, roles, the rate limiter and the body limit. \<open>Py_Strings\<close> has the
    string functions of Python that \<open>Cron\<close> and \<open>Security\<close> use, on the characters up to 255.
    \<open>Migrations\<close> (\<^verbatim>\<open>persistence/migrations.py\<close>) applies the pending files in order, \<open>Metrics\<close>
    (\<^verbatim>\<open>observability.py\<close>) is the registry of counters and histograms, \<open>Client\<close> (\<^verbatim>\<open>client.py\<close>) the handles and the
    polling of the client, \<open>Api\<close> (\<^verbatim>\<open>api/app.py\<close>) the middleware and the routes, each a function from the
    server's state and a request to a response, over the operations above. \<open>Worker_Service\<close>
    (\<^verbatim>\<open>workers/runner.py\<close>) is \<^verbatim>\<open>run_worker\<close>: heartbeats and roles take turns in any order until a stop, a
    lost heartbeat or an interrupt. \<open>Logging\<close> (\<^verbatim>\<open>observability.py\<close>) configures logging and formats a record. \<open>Cli\<close>
    (\<^verbatim>\<open>cli.py\<close>) is the program as it is started from a shell, with its commands, arguments and exit codes.

  \<^bold>\<open>The lemmas.\<close>

  \<^item> \<open>Store_Laws\<close> states the invariant of the store (\<open>store_ok\<close>: ids are unique, the events of an
    execution are numbered from 1 without gap, a closed execution has no open task) and how a transaction
    may change it (\<open>progress\<close>: histories are extended, closed executions and ended tasks stay as they
    are). The locale \<open>transaction\<close> is the contract of an operation; \<open>Transition_Laws\<close> and
    \<open>Schedule_Laws\<close> interpret it for every operation that writes. A second contract, the locales
    \<open>schedule_neutral\<close> and \<open>scheduling\<close>, says which operations leave schedules alone and that
    the others keep occurrences and scheduled executions in step. \<open>Audit_Laws\<close> has a third, the locale
    \<open>audited\<close>: a control operation records the audit context it is given, once, or rolls back.
    \<open>Lease_Laws\<close> has a fourth, the locale \<open>lease_neutral\<close>: only leasing gives out a lease, so a token that has
    lost its task never gets it back (\<open>step_without\<close> is a step in which \<^verbatim>\<open>uuid4\<close> does not draw that token).
  \<^item> \<open>System\<close> is the engine as a step relation with one rule per operation, and its reachable databases;
    both contracts become invariants by rule induction. Each workflow's history refines an abstract
    log (\<open>log_step\<close>). \<open>Liveness\<close> shows that termination of a workflow tree succeeds and that firing one due
    timer after the other (\<open>fire_timers\<close>, a loop over \<open>fire_due_timer\<close> that stands for the calls of the
    maintenance worker) comes to an end.
  \<^item> \<open>Command_Names\<close>, \<open>Journal\<close> and \<open>History_Laws\<close> state what makes a history fit for replay (\<open>valid_history\<close>)
    as an invariant of the store: every event belongs to a command scheduled before it, entities are
    scheduled under the ids that \<^verbatim>\<open>uuid5\<close> derives from workflow and command, open entities have open
    tasks or timers. The locale \<open>journaled\<close> is the contract of an operation that keeps it;
    \<open>History_Operations\<close> and \<open>History_Commit\<close> interpret it for every operation. \<open>Faithful\<close> restricts the step
    relation to clients that report results for the task they were given and commit the commands that
    replay produced, shows the invariant for it, and that the workers are such clients. It
    assumes of the hash only that it is injective on the commands of the one history (\<open>collision_free\<close>).
  \<^item> The properties are in \<open>Replay_Properties\<close> (histories and replay), \<open>Engine_Properties\<close> (the
    store, leases, signals, termination), \<open>Schedule_Properties\<close> (cron and schedules),
    \<open>Service_Properties\<close> (queries, tools, access, migrations, metrics, the client),
    \<open>Api_Properties\<close> (the HTTP service), \<open>History_Properties\<close> (workers and the histories they load) and
    \<open>Cli_Properties\<close> (the command line, the worker service and its log), each with a concrete instance.

  \<^bold>\<open>Bounds.\<close> \<open>terminate_descendants\<close> recurses over the tree of children with a depth as fuel; the number
  of executions is always enough, and a smaller depth fails visibly. The search of
  \<open>next_cron_time\<close> is bounded by five years of minutes as in the code, a backfill by its limit, the
  continuation chain by 999 links. The polling loop \<open>run_loop\<close> takes the number of iterations before
  the stop event is set, the client's \<open>wait_result\<close> the number of polls before its deadline.
  \<open>run_service\<close> takes the list of turns the event loop gives, of any length, \<open>fire_timers\<close> the number of
  transactions, of which one more than there are due timers is enough. Integers of Python are \<open>int\<close>; ids
  are words of 128 bits; times are microseconds; floating-point operations are functions of \<open>pyenv\<close>.

  \<^bold>\<open>Not modelled.\<close> How \<^verbatim>\<open>argparse\<close> splits a command line into options and values; databases that cannot be
  reached and the connection pool; context variables and decorators; the routing, validation and encoding
  that FastAPI does, and the static files; the console, examples and benchmarks. A stop signal and an
  interrupt reach a worker between two turns of its loops; an interrupt before the service runs is left
  out. Transactions are serialized: row locks appear only as rows that \<^verbatim>\<open>skip locked\<close> passes over. Text is
  ordered by code points. A \<^verbatim>\<open>jsonb\<close> column returns the value it was given: PostgreSQL's refusal of
  the character 0 and its rendering of large floating-point numbers are left out. So are the end of Python's
  dates in the year 9999 and text that \<^verbatim>\<open>float\<close> would read as a number in a retry policy. Checks and unique
  indexes are evaluated where a row is inserted; that updates keep the checks is a theorem
  (\<open>rows_satisfy_schema\<close>).
\<close>

end
